(* ===== verification/Life_Prelude.thy ===== *)
theory Life_Prelude
  imports Main "HOL-Library.Word"
begin

text \<open>
  Shared vocabulary of the development: the machine integer types of the
  firmware, faults as values, the counted \<open>for\<close> loop with its proof rules,
  and the facts about rectangular nested lists (the C arrays
  \<^verbatim>\<open>byte m[gameRows][gameColumns]\<close>) that the component theories rely on.
  Nothing here depends on the Game of Life.
\<close>

section \<open>Machine integers\<close>

type_synonym byte = "8 word"
type_synonym uint16 = "16 word"
type_synonym uint32 = "32 word"

named_theorems word_bounds
  \<open>facts that a conversion between nat, int and a machine word loses nothing\<close>

section \<open>Faults and results\<close>

text \<open>
  The firmware has no error handling; what can go wrong is a dereference of a
  null pointer or an array access outside its declared bounds. Both are
  undefined behaviour in C++ and both are values here, so that a theorem can
  say that they do not happen.
\<close>

datatype fault = NullPointer | OutOfBounds

type_synonym 'a result = "fault + 'a"

definition bindR :: "'a result \<Rightarrow> ('a \<Rightarrow> 'b result) \<Rightarrow> 'b result" where
  "bindR m f = (case m of Inl e \<Rightarrow> Inl e | Inr v \<Rightarrow> f v)"

definition succeeds :: "'a result \<Rightarrow> bool" where
  "succeeds m = (case m of Inl e \<Rightarrow> False | Inr v \<Rightarrow> True)"

section \<open>Counted loops\<close>

text \<open>
  \<^verbatim>\<open>for (int k = i; k < n; k++) st = body(k, st);\<close> where the body may
  fault. The counter only takes the values \<open>i \<dots> n\<close>, so it is a \<open>nat\<close>.
\<close>

function forLoop :: "nat \<Rightarrow> nat \<Rightarrow> (nat \<Rightarrow> 'a \<Rightarrow> 'a result) \<Rightarrow> 'a \<Rightarrow> 'a result" where
  "forLoop i n body st =
     (if i < n
      then (case body i st of Inl e \<Rightarrow> Inl e | Inr st' \<Rightarrow> forLoop (Suc i) n body st')
      else Inr st)"
  by pat_completeness auto
termination
  by (relation "measure (\<lambda>(i, n, body, st). n - i)") auto

declare forLoop.simps [simp del]

section \<open>Cells of nested lists\<close>

definition nth2 :: "'a list list \<Rightarrow> nat \<Rightarrow> nat \<Rightarrow> 'a" where
  "nth2 g y x = g ! y ! x"

definition upd2 :: "'a list list \<Rightarrow> nat \<Rightarrow> nat \<Rightarrow> 'a \<Rightarrow> 'a list list" where
  "upd2 g y x v = g[y := (g ! y)[x := v]]"

definition rect :: "nat \<Rightarrow> nat \<Rightarrow> 'a list list \<Rightarrow> bool" where
  "rect r c g \<longleftrightarrow> length g = r \<and> (\<forall>row \<in> set g. length row = c)"

definition tabulate2 :: "nat \<Rightarrow> nat \<Rightarrow> (nat \<Rightarrow> nat \<Rightarrow> 'a) \<Rightarrow> 'a list list" where
  "tabulate2 r c f = map (\<lambda>y. map (f y) [0..<c]) [0..<r]"

definition count_upto :: "nat \<Rightarrow> (nat \<Rightarrow> bool) \<Rightarrow> nat" where
  "count_upto n P = length (filter P [0..<n])"

definition count2 :: "nat \<Rightarrow> nat \<Rightarrow> (nat \<Rightarrow> nat \<Rightarrow> bool) \<Rightarrow> nat" where
  "count2 r c P = sum_list (map (\<lambda>y. count_upto c (P y)) [0..<r])"

section \<open>Lemmas: results\<close>

lemma bindR_Inr [simp]: "bindR (Inr v) f = f v"
  by (simp add: bindR_def)

lemma bindR_Inl [simp]: "bindR (Inl e) f = Inl e"
  by (simp add: bindR_def)

lemma bindR_eq_Inr_iff: "bindR m f = Inr w \<longleftrightarrow> (\<exists>v. m = Inr v \<and> f v = Inr w)"
  by (cases m) simp_all

lemma bindR_eq_Inl_iff:
  "bindR m f = Inl e \<longleftrightarrow> m = Inl e \<or> (\<exists>v. m = Inr v \<and> f v = Inl e)"
  by (cases m) simp_all

lemma bindR_assoc: "bindR (bindR m f) g = bindR m (\<lambda>v. bindR (f v) g)"
  by (cases m) simp_all

lemma succeeds_simps [simp]: "succeeds (Inr v)" "\<not> succeeds (Inl e)"
  by (simp_all add: succeeds_def)

lemma succeeds_iff: "succeeds m \<longleftrightarrow> (\<exists>v. m = Inr v)"
  by (cases m) simp_all

section \<open>Lemmas: counted loops\<close>

lemma forLoop_done [simp]: "n \<le> i \<Longrightarrow> forLoop i n body st = Inr st"
  by (simp add: forLoop.simps)

lemma forLoop_step: "i < n \<Longrightarrow> forLoop i n body st = bindR (body i st) (forLoop (Suc i) n body)"
  by (subst forLoop.simps) (simp add: bindR_def)

text \<open>
  The loop rule: a family of states \<open>g k\<close> (the state before iteration \<open>k\<close>)
  such that every iteration takes \<open>g k\<close> to \<open>g (Suc k)\<close> without a fault
  determines the result of the loop.
\<close>

lemma forLoop_exact:
  assumes "i \<le> n"
    and "\<And>k. i \<le> k \<Longrightarrow> k < n \<Longrightarrow> body k (g k) = Inr (g (Suc k))"
  shows "forLoop i n body (g i) = Inr (g n)"
  using assms
proof (induction "n - i" arbitrary: i)
  case 0
  then show ?case by simp
next
  case (Suc d)
  then have lt: "i < n" and d: "d = n - Suc i" by simp_all
  have "forLoop (Suc i) n body (g (Suc i)) = Inr (g n)"
    using d lt Suc.prems(2) by (intro Suc.hyps(1)) simp_all
  with lt Suc.prems(2) [of i] show ?case by (simp add: forLoop_step)
qed

lemma forLoop_invariant:
  assumes "I i st" and "i \<le> n"
    and "\<And>k s. i \<le> k \<Longrightarrow> k < n \<Longrightarrow> I k s \<Longrightarrow> \<exists>s'. body k s = Inr s' \<and> I (Suc k) s'"
  shows "\<exists>st'. forLoop i n body st = Inr st' \<and> I n st'"
  using assms
proof (induction "n - i" arbitrary: i st)
  case 0
  then show ?case by simp
next
  case (Suc d)
  then have lt: "i < n" and d: "d = n - Suc i" by simp_all
  from Suc.prems(3) [OF order_refl lt Suc.prems(1)]
  obtain s' where s': "body i st = Inr s'" "I (Suc i) s'" by blast
  have "\<exists>st'. forLoop (Suc i) n body s' = Inr st' \<and> I n st'"
    using d lt s'(2) Suc.prems(3) by (intro Suc.hyps(1)) simp_all
  with lt s'(1) show ?case by (simp add: forLoop_step)
qed

lemma forLoop_fault:
  "i < n \<Longrightarrow> body i st = Inl e \<Longrightarrow> forLoop i n body st = Inl e"
  by (simp add: forLoop_step)

lemma forLoop_cong:
  assumes "\<And>k s. i \<le> k \<Longrightarrow> k < n \<Longrightarrow> body k s = body' k s"
  shows "forLoop i n body st = forLoop i n body' st"
  using assms
proof (induction "n - i" arbitrary: i st)
  case 0
  then show ?case by simp
next
  case (Suc d)
  then have lt: "i < n" and d: "d = n - Suc i" by simp_all
  have "forLoop (Suc i) n body s = forLoop (Suc i) n body' s" for s
    using d Suc.prems by (intro Suc.hyps(1)) simp_all
  then have "forLoop (Suc i) n body = forLoop (Suc i) n body'" by (rule ext)
  with lt Suc.prems [of i st] show ?case by (simp add: forLoop_step)
qed

section \<open>Lemmas: lists that are overwritten front to back\<close>

lemma take_drop_update:
  assumes "j < length new" and "j < length old"
  shows "(take j new @ drop j old)[j := new ! j] = take (Suc j) new @ drop (Suc j) old"
proof -
  have "(take j new @ drop j old)[j := new ! j] = take j new @ (drop j old)[0 := new ! j]"
    using assms by (simp add: list_update_append)
  also have "(drop j old)[0 := new ! j] = new ! j # drop (Suc j) old"
    using assms by (simp add: Cons_nth_drop_Suc [symmetric])
  finally show ?thesis
    using assms by (simp add: take_Suc_conv_app_nth)
qed

lemma take_drop_nth [simp]:
  "j < length old \<Longrightarrow> j \<le> length new \<Longrightarrow> (take j new @ drop j old) ! j = old ! j"
  by (simp add: nth_append)

lemma length_take_drop [simp]:
  "length new = length old \<Longrightarrow> length (take j new @ drop j old) = length old"
  by simp

lemma count_upto_0 [simp]: "count_upto 0 P = 0"
  by (simp add: count_upto_def)

lemma count_upto_Suc [simp]: "count_upto (Suc n) P = count_upto n P + (if P n then 1 else 0)"
  by (simp add: count_upto_def)

lemma count_upto_le: "count_upto n P \<le> n"
  by (induction n) auto

lemma count_upto_cong: "(\<And>k. k < n \<Longrightarrow> P k = Q k) \<Longrightarrow> count_upto n P = count_upto n Q"
  by (induction n) auto

lemma count_upto_card: "count_upto n P = card {k. k < n \<and> P k}"
proof -
  have "{k. k < n \<and> P k} = set (filter P [0..<n])" by auto
  then show ?thesis
    by (simp add: count_upto_def distinct_card del: set_filter)
qed

lemma count2_0 [simp]: "count2 0 c P = 0"
  by (simp add: count2_def)

lemma count2_Suc [simp]: "count2 (Suc r) c P = count2 r c P + count_upto c (P r)"
  by (simp add: count2_def)

lemma count2_le: "count2 r c P \<le> r * c"
proof (induction r)
  case 0
  then show ?case by simp
next
  case (Suc r)
  with count_upto_le [of c "P r"] show ?case by simp
qed

lemma count2_cong:
  "(\<And>y x. y < r \<Longrightarrow> x < c \<Longrightarrow> P y x = Q y x) \<Longrightarrow> count2 r c P = count2 r c Q"
  by (induction r) (auto intro: count_upto_cong)

lemma count_upto_eq_0_iff: "count_upto n P = 0 \<longleftrightarrow> (\<forall>k < n. \<not> P k)"
  by (induction n) (auto simp: less_Suc_eq)

lemma count2_eq_0_iff: "count2 r c P = 0 \<longleftrightarrow> (\<forall>y < r. \<forall>x < c. \<not> P y x)"
  by (induction r) (auto simp: less_Suc_eq count_upto_eq_0_iff)

lemma count2_card: "count2 r c P = card {(y, x). y < r \<and> x < c \<and> P y x}"
proof (induction r)
  case 0
  then show ?case by simp
next
  case (Suc r)
  let ?A = "{(y, x). y < r \<and> x < c \<and> P y x}" and ?B = "Pair r ` {x. x < c \<and> P r x}"
  have split: "{(y, x). y < Suc r \<and> x < c \<and> P y x} = ?A \<union> ?B"
    by (auto simp: less_Suc_eq)
  have "?A \<subseteq> {..<r} \<times> {..<c}" by auto
  then have fin: "finite ?A" by (rule finite_subset) simp
  have "card (?A \<union> ?B) = card ?A + card ?B"
    using fin by (intro card_Un_disjoint) auto
  moreover have "card ?B = count_upto c (P r)"
    by (simp add: card_image inj_on_def count_upto_card)
  ultimately show ?case using Suc by (simp add: split)
qed

section \<open>Lemmas: rectangular nested lists\<close>

lemma rect_iff_nth: "rect r c g \<longleftrightarrow> length g = r \<and> (\<forall>y < r. length (g ! y) = c)"
  by (auto simp: rect_def all_set_conv_all_nth)

lemma rectI: "length g = r \<Longrightarrow> (\<And>y. y < r \<Longrightarrow> length (g ! y) = c) \<Longrightarrow> rect r c g"
  by (simp add: rect_iff_nth)

lemma rect_length: "rect r c g \<Longrightarrow> length g = r"
  by (simp add: rect_def)

lemma rect_row_length: "rect r c g \<Longrightarrow> y < r \<Longrightarrow> length (g ! y) = c"
  by (simp add: rect_def)

lemma rect_update: "rect r c g \<Longrightarrow> length row = c \<Longrightarrow> rect r c (g[y := row])"
  by (cases "y < length g") (auto simp: rect_iff_nth nth_list_update list_update_beyond)

lemma rect_upd2 [simp]: "rect r c g \<Longrightarrow> rect r c (upd2 g y x v)"
  by (cases "y < length g")
    (auto simp: upd2_def rect_iff_nth nth_list_update list_update_beyond)

lemma rect_replicate [simp]: "rect r c (replicate r (replicate c v))"
  by (simp add: rect_def)

lemma rect_tabulate2 [simp]: "rect r c (tabulate2 r c f)"
  by (simp add: rect_iff_nth tabulate2_def)

lemma rect_take_drop:
  "rect r c new \<Longrightarrow> rect r c old \<Longrightarrow> rect r c (take i new @ drop i old)"
  by (auto simp: rect_iff_nth nth_append)

lemma nth2_upd2:
  "rect r c g \<Longrightarrow> y < r \<Longrightarrow> x < c \<Longrightarrow>
   nth2 (upd2 g y x v) y' x' = (if y' = y \<and> x' = x then v else nth2 g y' x')"
  by (auto simp: nth2_def upd2_def nth_list_update rect_iff_nth)

lemma upd2_take_drop:
  assumes "i < length g" and "j < length new" and "j < length (g ! i)"
  shows "upd2 (g[i := take j new @ drop j (g ! i)]) i j (new ! j) =
         g[i := take (Suc j) new @ drop (Suc j) (g ! i)]"
  using assms by (simp add: upd2_def take_drop_update)

lemma nth2_upd2_same: "y < length g \<Longrightarrow> x < length (g ! y) \<Longrightarrow> nth2 (upd2 g y x v) y x = v"
  by (simp add: nth2_def upd2_def)

lemma nth2_tabulate2 [simp]: "y < r \<Longrightarrow> x < c \<Longrightarrow> nth2 (tabulate2 r c f) y x = f y x"
  by (simp add: nth2_def tabulate2_def)

lemma nth_tabulate2 [simp]: "y < r \<Longrightarrow> tabulate2 r c f ! y = map (f y) [0..<c]"
  by (simp add: tabulate2_def)

lemma nth2_replicate [simp]: "y < r \<Longrightarrow> x < c \<Longrightarrow> nth2 (replicate r (replicate c v)) y x = v"
  by (simp add: nth2_def)

lemma rect_eqI:
  assumes "rect r c g" and "rect r c h"
    and "\<And>y x. y < r \<Longrightarrow> x < c \<Longrightarrow> nth2 g y x = nth2 h y x"
  shows "g = h"
proof (rule nth_equalityI)
  show "length g = length h" using assms(1,2) by (simp add: rect_length)
next
  fix y assume "y < length g"
  with assms(1) have y: "y < r" by (simp add: rect_length)
  show "g ! y = h ! y"
  proof (rule nth_equalityI)
    show "length (g ! y) = length (h ! y)" using y assms(1,2) by (simp add: rect_row_length)
  next
    fix x assume "x < length (g ! y)"
    with y assms(1) have "x < c" by (simp add: rect_row_length)
    with y assms(3) show "g ! y ! x = h ! y ! x" by (simp add: nth2_def)
  qed
qed

lemma tabulate2_cong:
  "(\<And>y x. y < r \<Longrightarrow> x < c \<Longrightarrow> f y x = f' y x) \<Longrightarrow> tabulate2 r c f = tabulate2 r c f'"
  by (simp add: tabulate2_def)

section \<open>Lemmas: rectangles written cell by cell\<close>

text \<open>
  Writing a row, or a whole rectangle, cell by cell in ascending order
  gives the tabulated row or rectangle, whatever was there before.
\<close>

lemma fold_upd2_prefix:
  assumes "i < length g" and "n \<le> c" and "length (g ! i) = c"
  shows "fold (\<lambda>j h. upd2 h i j (f j)) [0..<n] g = g[i := take n (map f [0..<c]) @ drop n (g ! i)]"
  using assms(2)
proof (induction n)
  case 0
  then show ?case by simp
next
  case (Suc n)
  with assms upd2_take_drop [of i g n "map f [0..<c]"] show ?case by simp
qed

lemma fold_upd2_row:
  "i < length g \<Longrightarrow> length (g ! i) = c \<Longrightarrow>
   fold (\<lambda>j h. upd2 h i j (f j)) [0..<c] g = g[i := map f [0..<c]]"
  by (simp add: fold_upd2_prefix [where c = c])

lemma fold_upd2_rows:
  assumes "rect r c g" and "n \<le> r"
  shows "fold (\<lambda>i h. fold (\<lambda>j h. upd2 h i j (f i j)) [0..<c] h) [0..<n] g =
         take n (tabulate2 r c f) @ drop n g"
  using assms(2)
proof (induction n)
  case 0
  then show ?case by simp
next
  case (Suc n)
  let ?h = "take n (tabulate2 r c f) @ drop n g"
  have "rect r c ?h" using assms(1) by (simp add: rect_take_drop)
  with Suc.prems have "n < length ?h" "length (?h ! n) = c"
    by (simp_all add: rect_iff_nth)
  then have "fold (\<lambda>j h. upd2 h n j (f n j)) [0..<c] ?h = ?h[n := map (f n) [0..<c]]"
    by (rule fold_upd2_row)
  also have "\<dots> = take (Suc n) (tabulate2 r c f) @ drop (Suc n) g"
    using Suc.prems assms(1) take_drop_update [of n "tabulate2 r c f" g]
    by (simp add: rect_length tabulate2_def)
  finally show ?case using Suc by simp
qed

lemma fold_upd2_grid:
  "rect r c g \<Longrightarrow>
   fold (\<lambda>i h. fold (\<lambda>j h. upd2 h i j (f i j)) [0..<c] h) [0..<r] g = tabulate2 r c f"
  by (simp add: fold_upd2_rows [where r = r] tabulate2_def rect_length)


lemma fold_concat: "fold f (concat xss) = fold (fold f) xss"
  by (induction xss) simp_all

lemma nth_concat_rect:
  assumes "\<And>xs. xs \<in> set xss \<Longrightarrow> length xs = c" and "y < length xss" and "x < c"
  shows "concat xss ! (y * c + x) = xss ! y ! x"
  using assms
proof (induction xss arbitrary: y)
  case Nil
  then show ?case by simp
next
  case (Cons xs xss)
  then have len: "length xs = c" by simp
  show ?case
  proof (cases y)
    case 0
    with Cons.prems len show ?thesis by (simp add: nth_append)
  next
    case (Suc y')
    with Cons.prems have "concat xss ! (y' * c + x) = xss ! y' ! x"
      by (intro Cons.IH) simp_all
    with Suc len show ?thesis by (simp add: nth_append add.assoc)
  qed
qed

section \<open>Lemmas: machine words\<close>

lemma unat_of_nat_byte [word_bounds]: "n < 256 \<Longrightarrow> unat (of_nat n :: byte) = n"
  by (simp add: unat_of_nat)

lemma uint_of_nat_byte [word_bounds]: "n < 256 \<Longrightarrow> uint (of_nat n :: byte) = int n"
  by (metis uint_nat unat_of_nat_byte)

text \<open>
  \<open>uint_nat\<close> must not be given to the simplifier (the library rewrites the
  other way); these three carry an unsigned comparison from \<open>int\<close> to
  \<open>nat\<close>.
\<close>

lemma uint_le_int_iff: "uint w \<le> int n \<longleftrightarrow> unat w \<le> n"
  by (metis of_nat_le_iff uint_nat)

lemma uint_less_int_iff: "uint w < int n \<longleftrightarrow> unat w < n"
  by (metis of_nat_less_iff uint_nat)

lemma uint_eq_int_iff: "uint w = int n \<longleftrightarrow> unat w = n"
  by (metis of_nat_eq_iff uint_nat)

lemma unat_of_nat_uint32 [word_bounds]: "n < 2 ^ 32 \<Longrightarrow> unat (of_nat n :: uint32) = n"
  by (simp add: unat_of_nat)

lemma of_nat_inj_byte: "m < 256 \<Longrightarrow> n < 256 \<Longrightarrow> (of_nat m :: byte) = of_nat n \<longleftrightarrow> m = n"
  by (auto dest!: arg_cong [where f = unat] simp: unat_of_nat)

lemma of_bool_byte_eq_iff [simp]: "(of_bool a :: byte) = of_bool b \<longleftrightarrow> a = b"
  by (cases a; cases b) simp_all

lemma of_bool_byte_nonzero [simp]: "(of_bool a :: byte) \<noteq> 0 \<longleftrightarrow> a"
  by (cases a) simp_all

end
