(* ===== verification/Game_State.thy ===== *)
theory Game_State
  imports Life_Prelude
begin

text \<open>
  The data of \<^verbatim>\<open>class ConwaysGame\<close> (\<^verbatim>\<open>src/src/simulation.h\<close>): the arena
  constants, the two generation maps, the two pointers that say which map is
  the current and which the next generation, and the colour. Cells are read
  and written through a pointer value, as the code does with
  \<^verbatim>\<open>(*currentGenMap)[y][x]\<close>; a null pointer or an index outside
  \<^verbatim>\<open>[gameRows][gameColumns]\<close> is a \<open>fault\<close>. The lemmas give the
  read-after-write laws of this small store and the shape invariant of the
  two arrays.
\<close>

section \<open>Arena and state\<close>

definition gameRows :: nat where
  "gameRows = 32"

definition gameColumns :: nat where
  "gameColumns = 64"

type_synonym genMap = "byte list list"

text \<open>The values a \<^verbatim>\<open>byte (*)[gameRows][gameColumns]\<close> takes in this program.\<close>

datatype mapPtr = NullMap | Map_1 | Map_2

record ConwaysGame =
  simColor :: uint16
  genMap_1 :: genMap
  genMap_2 :: genMap
  currentGenMap :: mapPtr
  nextGenMap :: mapPtr

text \<open>
  The constructor stores the colour and nothing else. The one instance of the
  class is a global of \<^verbatim>\<open>main.cpp\<close>, so its storage is zero-initialised before
  the constructor runs: both maps are all zero and both pointers are null.
\<close>

definition newConwaysGame :: "uint16 \<Rightarrow> ConwaysGame" where
  "newConwaysGame color =
     \<lparr>simColor = color,
      genMap_1 = replicate gameRows (replicate gameColumns 0),
      genMap_2 = replicate gameRows (replicate gameColumns 0),
      currentGenMap = NullMap,
      nextGenMap = NullMap\<rparr>"

definition setColor :: "uint16 \<Rightarrow> ConwaysGame \<Rightarrow> ConwaysGame" where
  "setColor color s = s\<lparr>simColor := color\<rparr>"

section \<open>Access through a map pointer\<close>

definition mapOf :: "mapPtr \<Rightarrow> ConwaysGame \<Rightarrow> genMap" where
  "mapOf p s = (case p of NullMap \<Rightarrow> [] | Map_1 \<Rightarrow> genMap_1 s | Map_2 \<Rightarrow> genMap_2 s)"

definition setMap :: "mapPtr \<Rightarrow> genMap \<Rightarrow> ConwaysGame \<Rightarrow> ConwaysGame" where
  "setMap p g s =
     (case p of NullMap \<Rightarrow> s | Map_1 \<Rightarrow> s\<lparr>genMap_1 := g\<rparr> | Map_2 \<Rightarrow> s\<lparr>genMap_2 := g\<rparr>)"

definition inArena :: "int \<Rightarrow> int \<Rightarrow> bool" where
  "inArena y x \<longleftrightarrow> 0 \<le> y \<and> y < int gameRows \<and> 0 \<le> x \<and> x < int gameColumns"

definition readCell :: "mapPtr \<Rightarrow> int \<Rightarrow> int \<Rightarrow> ConwaysGame \<Rightarrow> byte result" where
  "readCell p y x s =
     (if p = NullMap then Inl NullPointer
      else if \<not> inArena y x then Inl OutOfBounds
      else Inr (nth2 (mapOf p s) (nat y) (nat x)))"

definition writeCell :: "mapPtr \<Rightarrow> int \<Rightarrow> int \<Rightarrow> byte \<Rightarrow> ConwaysGame \<Rightarrow> ConwaysGame result" where
  "writeCell p y x v s =
     (if p = NullMap then Inl NullPointer
      else if \<not> inArena y x then Inl OutOfBounds
      else Inr (setMap p (upd2 (mapOf p s) (nat y) (nat x) v) s))"

text \<open>The generation that is current: what \<^verbatim>\<open>*currentGenMap\<close> denotes.\<close>

abbreviation currentGen :: "ConwaysGame \<Rightarrow> genMap" where
  "currentGen s \<equiv> mapOf (currentGenMap s) s"

section \<open>Invariants\<close>

text \<open>
  \<open>grid_wf\<close> is what the C type \<^verbatim>\<open>byte[gameRows][gameColumns]\<close> guarantees;
  \<open>boolean_cells\<close> is what the program keeps true of the values it stores
  (only \<^verbatim>\<open>true\<close>, \<^verbatim>\<open>false\<close> and \<^verbatim>\<open>1\<close> are ever written).
\<close>

definition grid_wf :: "genMap \<Rightarrow> bool" where
  "grid_wf g = rect gameRows gameColumns g"

definition boolean_cells :: "genMap \<Rightarrow> bool" where
  "boolean_cells g \<longleftrightarrow> (\<forall>row \<in> set g. \<forall>v \<in> set row. v = 0 \<or> v = 1)"

definition game_wf :: "ConwaysGame \<Rightarrow> bool" where
  "game_wf s \<longleftrightarrow> grid_wf (genMap_1 s) \<and> grid_wf (genMap_2 s)"

definition seeded :: "ConwaysGame \<Rightarrow> bool" where
  "seeded s \<longleftrightarrow>
     game_wf s \<and> currentGenMap s \<noteq> NullMap \<and> boolean_cells (mapOf (currentGenMap s) s)"

definition emptyMap :: genMap where
  "emptyMap = replicate gameRows (replicate gameColumns 0)"

text \<open>Example states: every cell dead, map 1 current; and its first map.\<close>

definition deadGame :: ConwaysGame where
  "deadGame = (newConwaysGame 0)\<lparr>currentGenMap := Map_1\<rparr>"

text \<open>A horizontal blinker in row 10, columns 9 to 11, in map 1.\<close>

definition blinkerMap :: genMap where
  "blinkerMap = upd2 (upd2 (upd2 emptyMap 10 9 1) 10 10 1) 10 11 1"

definition blinkerGame :: ConwaysGame where
  "blinkerGame = (newConwaysGame 0)\<lparr>genMap_1 := blinkerMap, currentGenMap := Map_1\<rparr>"

section \<open>Lemmas: arena\<close>

lemma gameRows_pos [simp]: "0 < gameRows"
  by (simp add: gameRows_def)

lemma gameColumns_pos [simp]: "0 < gameColumns"
  by (simp add: gameColumns_def)

lemma gameRows_byte [word_bounds]: "gameRows < 256"
  by (simp add: gameRows_def)

lemma gameColumns_byte [word_bounds]: "gameColumns < 256"
  by (simp add: gameColumns_def)

lemma arena_cells: "gameRows * gameColumns = 2048"
  by (simp add: gameRows_def gameColumns_def)

lemma inArena_int [simp]: "inArena (int y) (int x) \<longleftrightarrow> y < gameRows \<and> x < gameColumns"
  by (simp add: inArena_def)

lemma inArena_nat: "inArena y x \<Longrightarrow> nat y < gameRows \<and> nat x < gameColumns"
  by (auto simp: inArena_def)

section \<open>Lemmas: the store\<close>

lemma mapOf_simps [simp]:
  "mapOf Map_1 s = genMap_1 s" "mapOf Map_2 s = genMap_2 s" "mapOf NullMap s = []"
  by (simp_all add: mapOf_def)

lemma setMap_simps [simp]:
  "setMap Map_1 g s = s\<lparr>genMap_1 := g\<rparr>" "setMap Map_2 g s = s\<lparr>genMap_2 := g\<rparr>"
  "setMap NullMap g s = s"
  by (simp_all add: setMap_def)

lemma mapOf_setMap:
  "q \<noteq> NullMap \<Longrightarrow> mapOf p (setMap q g s) = (if p = q then g else mapOf p s)"
  by (cases p; cases q) simp_all

lemma mapOf_setMap_same [simp]: "q \<noteq> NullMap \<Longrightarrow> mapOf q (setMap q g s) = g"
  by (simp add: mapOf_setMap)

lemma mapOf_setMap_other [simp]: "p \<noteq> q \<Longrightarrow> mapOf p (setMap q g s) = mapOf p s"
  by (cases p; cases q) simp_all

lemma setMap_setMap [simp]: "setMap p g (setMap p h s) = setMap p g s"
  by (cases p) simp_all

lemma setMap_mapOf [simp]: "setMap p (mapOf p s) s = s"
  by (cases p) simp_all

lemma setMap_fields [simp]:
  "simColor (setMap p g s) = simColor s"
  "currentGenMap (setMap p g s) = currentGenMap s"
  "nextGenMap (setMap p g s) = nextGenMap s"
  by (cases p; simp)+

lemma mapOf_pointer_update [simp]:
  "mapOf p (s\<lparr>currentGenMap := q\<rparr>) = mapOf p s"
  "mapOf p (s\<lparr>nextGenMap := q\<rparr>) = mapOf p s"
  "mapOf p (s\<lparr>simColor := c\<rparr>) = mapOf p s"
  by (cases p; simp)+

lemma setMap_pointer_update:
  "setMap p g (s\<lparr>currentGenMap := q\<rparr>) = (setMap p g s)\<lparr>currentGenMap := q\<rparr>"
  "setMap p g (s\<lparr>nextGenMap := q\<rparr>) = (setMap p g s)\<lparr>nextGenMap := q\<rparr>"
  by (cases p; simp)+

lemma readCell_null [simp]: "readCell NullMap y x s = Inl NullPointer"
  by (simp add: readCell_def)

lemma readCell_outside: "p \<noteq> NullMap \<Longrightarrow> \<not> inArena y x \<Longrightarrow> readCell p y x s = Inl OutOfBounds"
  by (simp add: readCell_def)

lemma readCell_inside:
  "p \<noteq> NullMap \<Longrightarrow> inArena y x \<Longrightarrow> readCell p y x s = Inr (nth2 (mapOf p s) (nat y) (nat x))"
  by (simp add: readCell_def)

lemma readCell_nat [simp]:
  "p \<noteq> NullMap \<Longrightarrow> y < gameRows \<Longrightarrow> x < gameColumns \<Longrightarrow>
   readCell p (int y) (int x) s = Inr (nth2 (mapOf p s) y x)"
  by (simp add: readCell_def)

lemma writeCell_null [simp]: "writeCell NullMap y x v s = Inl NullPointer"
  by (simp add: writeCell_def)

lemma writeCell_outside:
  "p \<noteq> NullMap \<Longrightarrow> \<not> inArena y x \<Longrightarrow> writeCell p y x v s = Inl OutOfBounds"
  by (simp add: writeCell_def)

lemma writeCell_nat [simp]:
  "p \<noteq> NullMap \<Longrightarrow> y < gameRows \<Longrightarrow> x < gameColumns \<Longrightarrow>
   writeCell p (int y) (int x) v s = Inr (setMap p (upd2 (mapOf p s) y x v) s)"
  by (simp add: writeCell_def)

lemma readCell_frame [simp]:
  "readCell p y x (s\<lparr>currentGenMap := q\<rparr>) = readCell p y x s"
  "readCell p y x (s\<lparr>nextGenMap := q\<rparr>) = readCell p y x s"
  "readCell p y x (s\<lparr>simColor := c\<rparr>) = readCell p y x s"
  by (simp_all add: readCell_def)

section \<open>Lemmas: invariants\<close>

lemma grid_wf_length [simp]: "grid_wf g \<Longrightarrow> length g = gameRows"
  by (simp add: grid_wf_def rect_length)

lemma grid_wf_row [simp]: "grid_wf g \<Longrightarrow> y < gameRows \<Longrightarrow> length (g ! y) = gameColumns"
  by (simp add: grid_wf_def rect_row_length)

lemma grid_wf_upd2 [simp]: "grid_wf g \<Longrightarrow> grid_wf (upd2 g y x v)"
  by (simp add: grid_wf_def)

lemma grid_wf_emptyMap [simp]: "grid_wf emptyMap"
  by (simp add: grid_wf_def emptyMap_def)

lemma grid_wf_tabulate2 [simp]: "grid_wf (tabulate2 gameRows gameColumns f)"
  by (simp add: grid_wf_def)

lemma grid_eqI:
  "grid_wf g \<Longrightarrow> grid_wf h \<Longrightarrow>
   (\<And>y x. y < gameRows \<Longrightarrow> x < gameColumns \<Longrightarrow> nth2 g y x = nth2 h y x) \<Longrightarrow> g = h"
  unfolding grid_wf_def by (rule rect_eqI)

lemma nth2_upd2_grid:
  "grid_wf g \<Longrightarrow> y < gameRows \<Longrightarrow> x < gameColumns \<Longrightarrow>
   nth2 (upd2 g y x v) y' x' = (if y' = y \<and> x' = x then v else nth2 g y' x')"
  unfolding grid_wf_def by (rule nth2_upd2)

lemma boolean_cells_iff_nth:
  "boolean_cells g \<longleftrightarrow>
     (\<forall>y < length g. \<forall>x < length (g ! y). nth2 g y x = 0 \<or> nth2 g y x = 1)"
  by (simp add: boolean_cells_def nth2_def all_set_conv_all_nth)

lemma boolean_cells_nth2:
  "boolean_cells g \<Longrightarrow> y < length g \<Longrightarrow> x < length (g ! y) \<Longrightarrow> nth2 g y x = 0 \<or> nth2 g y x = 1"
  by (simp add: boolean_cells_iff_nth)

lemma boolean_cellsI:
  assumes "grid_wf g"
    and "\<And>y x. y < gameRows \<Longrightarrow> x < gameColumns \<Longrightarrow> nth2 g y x = 0 \<or> nth2 g y x = 1"
  shows "boolean_cells g"
  using assms by (simp add: boolean_cells_iff_nth)

lemma boolean_cells_cases:
  "boolean_cells g \<Longrightarrow> grid_wf g \<Longrightarrow> y < gameRows \<Longrightarrow> x < gameColumns \<Longrightarrow>
   nth2 g y x = 0 \<or> nth2 g y x = 1"
  by (simp add: boolean_cells_iff_nth)

lemma boolean_cells_grid:
  "boolean_cells g \<Longrightarrow> grid_wf g \<Longrightarrow> y < gameRows \<Longrightarrow> x < gameColumns \<Longrightarrow>
   nth2 g y x = of_bool (nth2 g y x \<noteq> 0)"
  using boolean_cells_nth2 [of g y x] by auto

lemma boolean_cells_emptyMap [simp]: "boolean_cells emptyMap"
  by (simp add: boolean_cells_def emptyMap_def)

lemma boolean_cells_tabulate2 [simp]:
  "boolean_cells (tabulate2 r c (\<lambda>y x. of_bool (f y x)))"
  by (auto simp: boolean_cells_def tabulate2_def)

lemma game_wf_mapOf [simp]: "game_wf s \<Longrightarrow> p \<noteq> NullMap \<Longrightarrow> grid_wf (mapOf p s)"
  by (cases p) (simp_all add: game_wf_def)

lemma game_wf_setMap [simp]: "game_wf s \<Longrightarrow> grid_wf g \<Longrightarrow> game_wf (setMap p g s)"
  by (cases p) (simp_all add: game_wf_def)

lemma game_wf_frame [simp]:
  "game_wf (s\<lparr>currentGenMap := q\<rparr>) = game_wf s"
  "game_wf (s\<lparr>nextGenMap := q\<rparr>) = game_wf s"
  "game_wf (s\<lparr>simColor := c\<rparr>) = game_wf s"
  by (simp_all add: game_wf_def)

lemma game_wf_new [simp]: "game_wf (newConwaysGame color)"
  by (simp add: game_wf_def newConwaysGame_def grid_wf_def)

lemma writeCell_game_wf:
  "game_wf s \<Longrightarrow> writeCell p y x v s = Inr s' \<Longrightarrow> game_wf s'"
  by (auto simp: writeCell_def split: if_splits)

lemma seeded_game_wf: "seeded s \<Longrightarrow> game_wf s"
  by (simp add: seeded_def)

lemma seeded_not_null: "seeded s \<Longrightarrow> currentGenMap s \<noteq> NullMap"
  by (simp add: seeded_def)

lemma not_seeded_new: "\<not> seeded (newConwaysGame color)"
  by (simp add: seeded_def newConwaysGame_def)

lemma setColor_frame [simp]:
  "genMap_1 (setColor c s) = genMap_1 s" "genMap_2 (setColor c s) = genMap_2 s"
  "currentGenMap (setColor c s) = currentGenMap s" "nextGenMap (setColor c s) = nextGenMap s"
  "simColor (setColor c s) = c"
  by (simp_all add: setColor_def)

lemma setColor_seeded [simp]: "seeded (setColor c s) = seeded s"
  by (simp add: seeded_def setColor_def)

lemma deadGame_simps [simp]:
  "genMap_1 deadGame = emptyMap" "genMap_2 deadGame = emptyMap"
  "currentGenMap deadGame = Map_1" "nextGenMap deadGame = NullMap"
  by (simp_all add: deadGame_def newConwaysGame_def emptyMap_def)

lemma seeded_deadGame [simp]: "seeded deadGame"
  by (simp add: seeded_def game_wf_def)

lemma nth2_emptyMap [simp]: "y < gameRows \<Longrightarrow> x < gameColumns \<Longrightarrow> nth2 emptyMap y x = 0"
  by (simp add: emptyMap_def)

lemma grid_wf_blinkerMap [simp]: "grid_wf blinkerMap"
  by (simp add: blinkerMap_def)

lemma nth2_blinkerMap:
  "y < gameRows \<Longrightarrow> x < gameColumns \<Longrightarrow>
   nth2 blinkerMap y x = of_bool (y = 10 \<and> (x = 9 \<or> x = 10 \<or> x = 11))"
  by (simp add: blinkerMap_def nth2_upd2_grid gameRows_def gameColumns_def)

lemma boolean_cells_blinkerMap [simp]: "boolean_cells blinkerMap"
  by (rule boolean_cellsI) (auto simp: nth2_blinkerMap)

lemma blinkerGame_simps [simp]:
  "genMap_1 blinkerGame = blinkerMap" "genMap_2 blinkerGame = emptyMap"
  "currentGenMap blinkerGame = Map_1" "nextGenMap blinkerGame = NullMap"
  by (simp_all add: blinkerGame_def newConwaysGame_def emptyMap_def)

lemma seeded_blinkerGame [simp]: "seeded blinkerGame"
  by (simp add: seeded_def game_wf_def)

text \<open>
  Read over write: a cell written through a non-null map pointer inside the
  arena is read back, and every other cell of that map reads as before.
\<close>

lemma writeCell_readCell:
  assumes "game_wf s" and "p \<noteq> NullMap" and "y < gameRows" and "x < gameColumns"
    and "y' < gameRows" and "x' < gameColumns"
  shows "bindR (writeCell p (int y) (int x) v s) (readCell p (int y') (int x')) =
         (if y' = y \<and> x' = x then Inr v else readCell p (int y') (int x') s)"
  using assms by (simp add: nth2_upd2_grid)

end
