(* ===== verification/Check_Neighbors.thy ===== *)
theory Check_Neighbors
  imports Game_State
begin

text \<open>
  \<^verbatim>\<open>ConwaysGame::checkNeighbors\<close> (\<^verbatim>\<open>src/src/simulation.h\<close>): the loop over the
  3 by 3 square around a cell that counts the live neighbours in a
  \<^verbatim>\<open>uint8_t\<close>, and the rules of the game applied to that count. The
  reference definitions \<open>neighborhood\<close>, \<open>liveNeighborCount\<close> and \<open>lifeRule\<close>
  state the same without a loop and without machine integers; the lemmas show
  that the loop computes them, reads only cells of the window it is given,
  and never wraps its counter.
\<close>

section \<open>The neighbour loop\<close>

definition yTopLeft :: "byte \<Rightarrow> int" where
  "yTopLeft y = uint y - 1"

definition xTopLeft :: "byte \<Rightarrow> int" where
  "xTopLeft x = uint x - 1"

definition curYLoc :: "byte \<Rightarrow> nat \<Rightarrow> int" where
  "curYLoc y i = yTopLeft y + int (i div 3)"

definition curXLoc :: "byte \<Rightarrow> nat \<Rightarrow> int" where
  "curXLoc x i = xTopLeft x + int (i mod 3)"

text \<open>
  One iteration of the loop: each \<^verbatim>\<open>continue\<close> leaves the counter as it is;
  the last statement reads the neighbour through \<^verbatim>\<open>currentGenMap\<close>.
\<close>

definition neighborStep ::
  "ConwaysGame \<Rightarrow> byte \<Rightarrow> byte \<Rightarrow> byte \<Rightarrow> byte \<Rightarrow> nat \<Rightarrow> byte \<Rightarrow> byte result" where
  "neighborStep s y x totalRows totalColumns i liveNeighbors =
     (if curYLoc y i < 0 \<or> curXLoc x i < 0 then Inr liveNeighbors
      else if curYLoc y i \<ge> uint totalRows \<or> curXLoc x i \<ge> uint totalColumns
        then Inr liveNeighbors
      else if curXLoc x i = uint x \<and> curYLoc y i = uint y then Inr liveNeighbors
      else bindR (readCell (currentGenMap s) (curYLoc y i) (curXLoc x i) s)
             (\<lambda>cell. Inr (if cell \<noteq> 0 then liveNeighbors + 1 else liveNeighbors)))"

definition countNeighbors :: "ConwaysGame \<Rightarrow> byte \<Rightarrow> byte \<Rightarrow> byte \<Rightarrow> byte \<Rightarrow> byte result" where
  "countNeighbors s y x totalRows totalColumns =
     forLoop 0 9 (neighborStep s y x totalRows totalColumns) 0"

section \<open>The rules\<close>

definition applyRules :: "byte \<Rightarrow> byte \<Rightarrow> bool" where
  "applyRules currentCellState liveNeighbors =
     (if currentCellState \<noteq> 0
      then (if liveNeighbors < 2 then False
            else if liveNeighbors > 3 then False
            else True)
      else (if liveNeighbors = 3 then True else False))"

definition checkNeighbors :: "ConwaysGame \<Rightarrow> byte \<Rightarrow> byte \<Rightarrow> byte \<Rightarrow> byte \<Rightarrow> bool result" where
  "checkNeighbors s y x totalRows totalColumns =
     bindR (countNeighbors s y x totalRows totalColumns) (\<lambda>liveNeighbors.
     bindR (readCell (currentGenMap s) (uint y) (uint x) s) (\<lambda>currentCellState.
     Inr (applyRules currentCellState liveNeighbors)))"

section \<open>Reference definitions\<close>

text \<open>
  The eight neighbours of a cell in the order the loop visits them, the live
  ones among them inside a window of \<open>rows\<close> by \<open>cols\<close> cells, and the rule
  of the game on a truth value and a number.
\<close>

definition neighborhood :: "int \<Rightarrow> int \<Rightarrow> (int \<times> int) list" where
  "neighborhood y x =
     [(y - 1, x - 1), (y - 1, x), (y - 1, x + 1),
      (y, x - 1), (y, x + 1),
      (y + 1, x - 1), (y + 1, x), (y + 1, x + 1)]"

definition liveAt :: "int \<Rightarrow> int \<Rightarrow> genMap \<Rightarrow> int \<times> int \<Rightarrow> bool" where
  "liveAt rows cols g p \<longleftrightarrow>
     0 \<le> fst p \<and> fst p < rows \<and> 0 \<le> snd p \<and> snd p < cols \<and>
     nth2 g (nat (fst p)) (nat (snd p)) \<noteq> 0"

definition liveNeighborCount :: "int \<Rightarrow> int \<Rightarrow> genMap \<Rightarrow> int \<Rightarrow> int \<Rightarrow> nat" where
  "liveNeighborCount rows cols g y x = length (filter (liveAt rows cols g) (neighborhood y x))"

definition lifeRule :: "bool \<Rightarrow> nat \<Rightarrow> bool" where
  "lifeRule alive n \<longleftrightarrow> (if alive then n = 2 \<or> n = 3 else n = 3)"

definition nextCell :: "genMap \<Rightarrow> nat \<Rightarrow> nat \<Rightarrow> bool" where
  "nextCell g y x =
     lifeRule (nth2 g y x \<noteq> 0)
       (liveNeighborCount (int gameRows) (int gameColumns) g (int y) (int x))"

text \<open>What iteration \<open>i\<close> of the loop adds to the counter.\<close>

definition hit :: "genMap \<Rightarrow> byte \<Rightarrow> byte \<Rightarrow> byte \<Rightarrow> byte \<Rightarrow> nat \<Rightarrow> bool" where
  "hit g y x totalRows totalColumns i \<longleftrightarrow>
     (curYLoc y i, curXLoc x i) \<noteq> (uint y, uint x) \<and>
     liveAt (uint totalRows) (uint totalColumns) g (curYLoc y i, curXLoc x i)"

section \<open>Lemmas: the loop\<close>

lemma liveNeighborCount_le: "liveNeighborCount rows cols g y x \<le> 8"
proof -
  have "liveNeighborCount rows cols g y x \<le> length (neighborhood y x)"
    unfolding liveNeighborCount_def by (rule length_filter_le)
  then show ?thesis by (simp add: neighborhood_def)
qed

lemma continue_chain:
  fixes cy cx rows cols ty tx :: int
  shows "(if cy < 0 \<or> cx < 0 then a
          else if cy \<ge> rows \<or> cx \<ge> cols then a
          else if cx = tx \<and> cy = ty then a
          else b) =
         (if (cy, cx) \<noteq> (ty, tx) \<and> 0 \<le> cy \<and> cy < rows \<and> 0 \<le> cx \<and> cx < cols
          then b else a)"
  by auto

lemma neighborStep_alt:
  "neighborStep s y x totalRows totalColumns i n =
     (if (curYLoc y i, curXLoc x i) \<noteq> (uint y, uint x) \<and>
         0 \<le> curYLoc y i \<and> curYLoc y i < uint totalRows \<and>
         0 \<le> curXLoc x i \<and> curXLoc x i < uint totalColumns
      then bindR (readCell (currentGenMap s) (curYLoc y i) (curXLoc x i) s)
             (\<lambda>cell. Inr (if cell \<noteq> 0 then n + 1 else n))
      else Inr n)"
  unfolding neighborStep_def by (rule continue_chain)

lemma window_inArena:
  assumes "unat totalRows \<le> gameRows" and "unat totalColumns \<le> gameColumns"
    and "0 \<le> cy" "cy < uint totalRows" "0 \<le> cx" "cx < uint totalColumns"
  shows "inArena cy cx"
proof -
  have "uint totalRows \<le> int gameRows" "uint totalColumns \<le> int gameColumns"
    using assms(1,2) by (simp_all only: uint_le_int_iff)
  with assms(3-6) show ?thesis unfolding inArena_def by linarith
qed

lemma neighborStep_ok:
  assumes "currentGenMap s \<noteq> NullMap"
    and "unat totalRows \<le> gameRows" and "unat totalColumns \<le> gameColumns"
  shows "neighborStep s y x totalRows totalColumns i n =
         Inr (if hit (mapOf (currentGenMap s) s) y x totalRows totalColumns i then n + 1 else n)"
proof (cases "0 \<le> curYLoc y i \<and> curYLoc y i < uint totalRows \<and>
              0 \<le> curXLoc x i \<and> curXLoc x i < uint totalColumns")
  case True
  then have "inArena (curYLoc y i) (curXLoc x i)"
    using assms(2,3) by (blast intro: window_inArena)
  with True assms(1) show ?thesis
    unfolding neighborStep_alt hit_def liveAt_def by (simp add: readCell_inside)
next
  case False
  then show ?thesis
    unfolding neighborStep_alt hit_def liveAt_def by auto
qed

lemma count_upto_9:
  "count_upto 9 P =
     (of_bool (P 0) + of_bool (P 1) + of_bool (P 2) + of_bool (P 3) + of_bool (P 4) +
      of_bool (P 5) + of_bool (P 6) + of_bool (P 7) + of_bool (P 8) :: nat)"
  by (simp add: eval_nat_numeral)

lemma length_filter_8:
  "length (filter P [a, b, c, d, e, f, g, h]) =
     (of_bool (P a) + of_bool (P b) + of_bool (P c) + of_bool (P d) +
      of_bool (P e) + of_bool (P f) + of_bool (P g) + of_bool (P h) :: nat)"
  by simp

lemma hit_positions:
  "curYLoc y 0 = uint y - 1" "curXLoc x 0 = uint x - 1"
  "curYLoc y (Suc 0) = uint y - 1" "curXLoc x (Suc 0) = uint x"
  "curYLoc y 2 = uint y - 1" "curXLoc x 2 = uint x + 1"
  "curYLoc y 3 = uint y" "curXLoc x 3 = uint x - 1"
  "curYLoc y 4 = uint y" "curXLoc x 4 = uint x"
  "curYLoc y 5 = uint y" "curXLoc x 5 = uint x + 1"
  "curYLoc y 6 = uint y + 1" "curXLoc x 6 = uint x - 1"
  "curYLoc y 7 = uint y + 1" "curXLoc x 7 = uint x"
  "curYLoc y 8 = uint y + 1" "curXLoc x 8 = uint x + 1"
  by (simp_all add: curYLoc_def curXLoc_def yTopLeft_def xTopLeft_def)

lemma count_hits:
  "count_upto 9 (hit g y x totalRows totalColumns) =
   liveNeighborCount (uint totalRows) (uint totalColumns) g (uint y) (uint x)"
  unfolding count_upto_9 liveNeighborCount_def neighborhood_def length_filter_8
  by (simp add: hit_def hit_positions)

lemma of_nat_count_Suc:
  "(of_nat (count_upto (Suc k) P) :: byte) = (if P k then of_nat (count_upto k P) + 1 else of_nat (count_upto k P))"
  by simp

lemma countNeighbors_ok:
  assumes "currentGenMap s \<noteq> NullMap"
    and "unat totalRows \<le> gameRows" and "unat totalColumns \<le> gameColumns"
  shows "countNeighbors s y x totalRows totalColumns =
         Inr (of_nat (liveNeighborCount (uint totalRows) (uint totalColumns)
                (mapOf (currentGenMap s) s) (uint y) (uint x)))"
proof -
  let ?P = "hit (mapOf (currentGenMap s) s) y x totalRows totalColumns"
  have "forLoop 0 9 (neighborStep s y x totalRows totalColumns) (of_nat (count_upto 0 ?P))
        = Inr (of_nat (count_upto 9 ?P))"
    by (rule forLoop_exact) (simp_all add: neighborStep_ok [OF assms])
  then show ?thesis by (simp add: countNeighbors_def count_hits)
qed

section \<open>Lemmas: the rules\<close>

lemma applyRules_lifeRule:
  assumes "n \<le> 8"
  shows "applyRules c (of_nat n) = lifeRule (c \<noteq> 0) n"
proof -
  have n: "unat (of_nat n :: byte) = n"
    using assms by (simp add: unat_of_nat_byte)
  have "(of_nat n :: byte) < 2 \<longleftrightarrow> n < 2" "(of_nat n :: byte) > 3 \<longleftrightarrow> n > 3"
    "(of_nat n :: byte) = 3 \<longleftrightarrow> n = 3"
    using n by (simp_all add: word_less_nat_alt word_unat_eq_iff)
  then show ?thesis
    unfolding applyRules_def lifeRule_def by auto
qed

lemma checkNeighbors_ok:
  assumes "currentGenMap s \<noteq> NullMap"
    and "unat totalRows \<le> gameRows" and "unat totalColumns \<le> gameColumns"
    and "unat y < gameRows" and "unat x < gameColumns"
  shows "checkNeighbors s y x totalRows totalColumns =
         Inr (lifeRule (nth2 (mapOf (currentGenMap s) s) (unat y) (unat x) \<noteq> 0)
               (liveNeighborCount (uint totalRows) (uint totalColumns)
                  (mapOf (currentGenMap s) s) (uint y) (uint x)))"
proof -
  have "inArena (uint y) (uint x)"
    using assms(4,5) unfolding inArena_def by (simp add: uint_less_int_iff)
  then have "readCell (currentGenMap s) (uint y) (uint x) s =
             Inr (nth2 (mapOf (currentGenMap s) s) (unat y) (unat x))"
    using assms(1) by (simp add: readCell_inside)
  then show ?thesis
    unfolding checkNeighbors_def
    by (simp add: countNeighbors_ok [OF assms(1-3)] applyRules_lifeRule liveNeighborCount_le)
qed

lemma checkNeighbors_arena:
  assumes "currentGenMap s \<noteq> NullMap" and "y < gameRows" and "x < gameColumns"
  shows "checkNeighbors s (of_nat y) (of_nat x) (of_nat gameRows) (of_nat gameColumns) =
         Inr (nextCell (mapOf (currentGenMap s) s) y x)"
proof -
  have b: "y < 256" "x < 256"
    using assms(2,3) gameRows_byte gameColumns_byte by simp_all
  have "unat (of_nat gameRows :: byte) \<le> gameRows" "unat (of_nat gameColumns :: byte) \<le> gameColumns"
    "unat (of_nat y :: byte) < gameRows" "unat (of_nat x :: byte) < gameColumns"
    using assms(2,3) b by (simp_all add: word_bounds)
  from checkNeighbors_ok [OF assms(1) this] show ?thesis
    using b by (simp add: nextCell_def word_bounds)
qed

section \<open>Lemmas: the neighbourhood as a set\<close>

lemma distinct_neighborhood [simp]: "distinct (neighborhood y x)"
  by (simp add: neighborhood_def)

lemma set_neighborhood:
  "set (neighborhood y x) = {p. \<bar>fst p - y\<bar> \<le> 1 \<and> \<bar>snd p - x\<bar> \<le> 1 \<and> p \<noteq> (y, x)}"
proof (intro set_eqI iffI)
  fix p assume "p \<in> set (neighborhood y x)"
  then show "p \<in> {p. \<bar>fst p - y\<bar> \<le> 1 \<and> \<bar>snd p - x\<bar> \<le> 1 \<and> p \<noteq> (y, x)}"
    by (auto simp: neighborhood_def)
next
  fix p assume "p \<in> {p. \<bar>fst p - y\<bar> \<le> 1 \<and> \<bar>snd p - x\<bar> \<le> 1 \<and> p \<noteq> (y, x)}"
  then have "fst p = y - 1 \<or> fst p = y \<or> fst p = y + 1" "snd p = x - 1 \<or> snd p = x \<or> snd p = x + 1"
    and "p \<noteq> (y, x)" by auto
  then show "p \<in> set (neighborhood y x)"
    by (cases p) (auto simp: neighborhood_def)
qed

lemma liveNeighborCount_blinker:
  "liveNeighborCount 32 64 blinkerMap 9 10 = 3"
  "liveNeighborCount 32 64 blinkerMap 10 10 = 2"
  "liveNeighborCount 32 64 blinkerMap 10 9 = 1"
  by (simp_all add: liveNeighborCount_def neighborhood_def liveAt_def nth2_blinkerMap
      gameRows_def gameColumns_def)

lemma liveNeighborCount_eq_0:
  "(\<And>p. \<not> liveAt rows cols g p) \<Longrightarrow> liveNeighborCount rows cols g y x = 0"
  by (simp add: liveNeighborCount_def)

lemma not_liveAt_emptyMap [simp]: "\<not> liveAt (int gameRows) (int gameColumns) emptyMap p"
  by (auto simp: liveAt_def nat_less_iff)

lemma nextCell_emptyMap [simp]:
  "y < gameRows \<Longrightarrow> x < gameColumns \<Longrightarrow> \<not> nextCell emptyMap y x"
  by (simp add: nextCell_def liveNeighborCount_eq_0 lifeRule_def)

text \<open>
  In the corner cell (0, 0) only the three neighbours inside the
  arena are counted: the count is the number of live cells among (0, 1),
  (1, 0) and (1, 1), whatever the rest of the map holds.
\<close>

lemma corner_neighbors:
  "liveNeighborCount (int gameRows) (int gameColumns) g 0 0 =
   length (filter (\<lambda>p. nth2 g (fst p) (snd p) \<noteq> 0) [(0, 1), (1, 0), (1, 1)])"
  by (simp add: liveNeighborCount_def neighborhood_def liveAt_def gameRows_def gameColumns_def)

text \<open>
  The count over the list of eight positions that the loop
  visits is the number of live cells of the window in the Moore neighbourhood
  of the cell: the positions at distance at most one in each coordinate, the
  cell itself excluded. Positions outside the window are not live, so nothing
  wraps around to the opposite edge.
\<close>

lemma liveNeighborCount_card:
  "liveNeighborCount rows cols g y x =
   card {p. \<bar>fst p - y\<bar> \<le> 1 \<and> \<bar>snd p - x\<bar> \<le> 1 \<and> p \<noteq> (y, x) \<and> liveAt rows cols g p}"
proof -
  have "{p. \<bar>fst p - y\<bar> \<le> 1 \<and> \<bar>snd p - x\<bar> \<le> 1 \<and> p \<noteq> (y, x) \<and> liveAt rows cols g p}
        = set (filter (liveAt rows cols g) (neighborhood y x))"
    unfolding set_filter set_neighborhood by auto
  then show ?thesis
    by (simp add: liveNeighborCount_def distinct_card del: set_filter)
qed

section \<open>Properties\<close>

text \<open>
  C3 (functional). Called the way \<open>calcNextGen\<close> calls it, with the arena's
  own dimensions and a cell inside the arena, \<open>checkNeighbors\<close> returns
  without a fault and its result is the rule of the game applied to the
  cell's state and the number of its live neighbours inside the arena.
\<close>

theorem checkNeighbors_correct:
  assumes "currentGenMap s \<noteq> NullMap" and "unat y < gameRows" and "unat x < gameColumns"
  shows "checkNeighbors s y x (of_nat gameRows) (of_nat gameColumns) =
         Inr (nextCell (mapOf (currentGenMap s) s) (unat y) (unat x))"
proof -
  have "unat (of_nat gameRows :: byte) \<le> gameRows" "unat (of_nat gameColumns :: byte) \<le> gameColumns"
    by (simp_all add: word_bounds)
  from checkNeighbors_ok [OF assms(1) this assms(2,3)] show ?thesis
    by (simp add: nextCell_def word_bounds)
qed

theorem checkNeighbors_correct_witness:
  "currentGenMap blinkerGame \<noteq> NullMap \<and> unat (9 :: byte) < gameRows \<and>
   unat (10 :: byte) < gameColumns \<and>
   checkNeighbors blinkerGame 9 10 (of_nat gameRows) (of_nat gameColumns) = Inr True \<and>
   checkNeighbors blinkerGame 10 9 (of_nat gameRows) (of_nat gameColumns) = Inr False"
proof -
  have h: "currentGenMap blinkerGame \<noteq> NullMap" "unat (9 :: byte) < gameRows"
    "unat (10 :: byte) < gameColumns" "unat (10 :: byte) < gameRows" "unat (9 :: byte) < gameColumns"
    by (simp_all add: gameRows_def gameColumns_def)
  from checkNeighbors_correct [OF h(1,2,3)] checkNeighbors_correct [OF h(1,4,5)] h
  show ?thesis
    by (simp add: nextCell_def liveNeighborCount_blinker lifeRule_def nth2_blinkerMap
        gameRows_def gameColumns_def)
qed

text \<open>
  C10 (bounds). For every window that fits the arena the neighbour loop ends
  without a fault, and the \<^verbatim>\<open>uint8_t\<close> counter it returns has not wrapped: read
  as a number it is the count of live neighbours, which is at most 8.
\<close>

theorem countNeighbors_no_wrap:
  assumes "currentGenMap s \<noteq> NullMap"
    and "unat totalRows \<le> gameRows" and "unat totalColumns \<le> gameColumns"
  shows "\<exists>n. countNeighbors s y x totalRows totalColumns = Inr n \<and> unat n \<le> 8 \<and>
           unat n = liveNeighborCount (uint totalRows) (uint totalColumns)
                      (mapOf (currentGenMap s) s) (uint y) (uint x)"
proof -
  let ?c = "liveNeighborCount (uint totalRows) (uint totalColumns)
              (mapOf (currentGenMap s) s) (uint y) (uint x)"
  have "?c \<le> 8" by (rule liveNeighborCount_le)
  then have "unat (of_nat ?c :: byte) = ?c" by (simp add: unat_of_nat_byte)
  with \<open>?c \<le> 8\<close> show ?thesis by (simp add: countNeighbors_ok [OF assms])
qed

theorem countNeighbors_no_wrap_witness:
  "currentGenMap blinkerGame \<noteq> NullMap \<and> unat (32 :: byte) \<le> gameRows \<and>
   unat (64 :: byte) \<le> gameColumns \<and> countNeighbors blinkerGame 9 10 32 64 = Inr 3"
proof -
  have h: "currentGenMap blinkerGame \<noteq> NullMap" "unat (32 :: byte) \<le> gameRows"
    "unat (64 :: byte) \<le> gameColumns"
    by (simp_all add: gameRows_def gameColumns_def)
  have "liveNeighborCount (uint (32 :: byte)) (uint (64 :: byte)) blinkerMap (uint (9 :: byte))
          (uint (10 :: byte)) = 3"
    using liveNeighborCount_blinker(1) by simp
  with countNeighbors_no_wrap [OF h, of 9 10] h show ?thesis
    by (auto simp: word_unat_eq_iff)
qed

text \<open>
  C11 (functional). The rules as the code applies them to the stored cell byte
  and the counter, for every pair of bytes: the cell is alive in the next
  generation exactly when it has three live neighbours, or is alive and has
  two. So three neighbours give life whatever the cell was, and a live cell
  with fewer than two or more than three neighbours dies.
\<close>

theorem applyRules_iff:
  "applyRules currentCellState liveNeighbors \<longleftrightarrow>
     liveNeighbors = 3 \<or> (currentCellState \<noteq> 0 \<and> liveNeighbors = 2)"
proof -
  have "liveNeighbors < 2 \<or> liveNeighbors = 2 \<or> liveNeighbors = 3 \<or> liveNeighbors > 3"
    by (simp add: word_less_nat_alt word_unat_eq_iff) linarith
  then show ?thesis
    unfolding applyRules_def by (auto simp: word_less_nat_alt)
qed

end
