(* ===== verification/Life_Spec.thy ===== *)
theory Life_Spec
  imports Check_Neighbors
begin

text \<open>
  The specification of the generation step, at two levels. On maps:
  \<open>nextGen\<close> is the whole next generation as a function of the current one
  and \<open>changedCells\<close> the number of positions at which two maps differ. On
  sets, without arrays, bytes or loops: a generation is the set of its live
  cells, a subset of the arena, and \<open>lifeStep\<close> keeps or creates a cell
  according to the number of live cells adjacent to it. Cells outside the
  arena do not exist; there is no wrap-around. \<open>liveCells\<close> abstracts a map
  to such a set, and the lemmas show that \<open>nextGen\<close> implements \<open>lifeStep\<close>.
\<close>

section \<open>The game on maps\<close>

definition nextGen :: "genMap \<Rightarrow> genMap" where
  "nextGen g = tabulate2 gameRows gameColumns (\<lambda>y x. of_bool (nextCell g y x))"

definition changedCells :: "genMap \<Rightarrow> genMap \<Rightarrow> nat" where
  "changedCells g h = count2 gameRows gameColumns (\<lambda>y x. nth2 g y x \<noteq> nth2 h y x)"

section \<open>The game on sets of cells\<close>

type_synonym cell = "nat \<times> nat"

definition arena :: "cell set" where
  "arena = {(y, x). y < gameRows \<and> x < gameColumns}"

definition adjacent :: "cell \<Rightarrow> cell \<Rightarrow> bool" where
  "adjacent p q \<longleftrightarrow>
     p \<noteq> q \<and> \<bar>int (fst p) - int (fst q)\<bar> \<le> 1 \<and> \<bar>int (snd p) - int (snd q)\<bar> \<le> 1"

definition liveAround :: "cell set \<Rightarrow> cell \<Rightarrow> nat" where
  "liveAround A p = card {q \<in> A. adjacent p q}"

definition lifeStep :: "cell set \<Rightarrow> cell set" where
  "lifeStep A = {p \<in> arena. lifeRule (p \<in> A) (liveAround A p)}"

definition liveCells :: "genMap \<Rightarrow> cell set" where
  "liveCells g = {(y, x). y < gameRows \<and> x < gameColumns \<and> nth2 g y x \<noteq> 0}"

section \<open>Lemmas: the game on maps\<close>

lemma grid_wf_nextGen [simp]: "grid_wf (nextGen g)"
  by (simp add: nextGen_def)

lemma boolean_cells_nextGen [simp]: "boolean_cells (nextGen g)"
  by (simp add: nextGen_def)

lemma nth2_nextGen [simp]:
  "y < gameRows \<Longrightarrow> x < gameColumns \<Longrightarrow> nth2 (nextGen g) y x = of_bool (nextCell g y x)"
  by (simp add: nextGen_def)

lemma nth_nextGen:
  "y < gameRows \<Longrightarrow> nextGen g ! y = map (\<lambda>x. of_bool (nextCell g y x)) [0..<gameColumns]"
  by (simp add: nextGen_def)

lemma changedCells_le: "changedCells g h \<le> 2048"
  using count2_le [of gameRows gameColumns] by (simp add: changedCells_def arena_cells)

lemma nextGen_emptyMap [simp]: "nextGen emptyMap = emptyMap"
  by (rule grid_eqI) simp_all

lemma changedCells_same [simp]: "changedCells g g = 0"
  by (simp add: changedCells_def count2_eq_0_iff)

section \<open>Lemmas: the game on sets\<close>

lemma finite_arena [simp]: "finite arena"
proof -
  have "arena \<subseteq> {..<gameRows} \<times> {..<gameColumns}" by (auto simp: arena_def)
  then show ?thesis by (rule finite_subset) simp
qed

lemma liveCells_arena: "liveCells g \<subseteq> arena"
  by (auto simp: liveCells_def arena_def)

lemma finite_liveCells [simp]: "finite (liveCells g)"
  using liveCells_arena finite_arena by (rule finite_subset)

lemma mem_liveCells [simp]:
  "(y, x) \<in> liveCells g \<longleftrightarrow> y < gameRows \<and> x < gameColumns \<and> nth2 g y x \<noteq> 0"
  by (simp add: liveCells_def)

lemma mem_arena [simp]: "(y, x) \<in> arena \<longleftrightarrow> y < gameRows \<and> x < gameColumns"
  by (simp add: arena_def)

lemma adjacent_sym: "adjacent p q \<longleftrightarrow> adjacent q p"
  by (auto simp: adjacent_def)

lemma adjacent_neighborhood:
  "(int (fst c), int (snd c)) \<in> set (neighborhood (int y) (int x)) \<longleftrightarrow> adjacent (y, x) c"
  unfolding set_neighborhood adjacent_def by (cases c) auto

lemma liveAt_liveCells:
  "liveAt (int gameRows) (int gameColumns) g p \<longleftrightarrow>
   0 \<le> fst p \<and> 0 \<le> snd p \<and> (nat (fst p), nat (snd p)) \<in> liveCells g"
  by (auto simp: liveAt_def nat_less_iff)

text \<open>
  The count of the loop is the number of live cells adjacent to the cell:
  the eight positions are distinct, and those inside the arena correspond
  one to one to the adjacent cells.
\<close>

lemma liveNeighborCount_liveAround:
  "liveNeighborCount (int gameRows) (int gameColumns) g (int y) (int x) =
   liveAround (liveCells g) (y, x)"
proof -
  let ?f = "\<lambda>q :: cell. (int (fst q), int (snd q))"
  let ?L = "liveAt (int gameRows) (int gameColumns) g"
  let ?N = "set (filter ?L (neighborhood (int y) (int x)))"
  let ?Q = "{q \<in> liveCells g. adjacent (y, x) q}"
  have "?f ` ?Q = ?N"
  proof (intro set_eqI iffI)
    fix p assume "p \<in> ?f ` ?Q"
    then obtain q where q: "q \<in> liveCells g" "adjacent (y, x) q" "p = ?f q" by blast
    from q(1) have "?L (?f q)" by (simp add: liveAt_liveCells)
    moreover from q(2) have "?f q \<in> set (neighborhood (int y) (int x))"
      by (simp only: adjacent_neighborhood)
    ultimately show "p \<in> ?N" using q(3) by simp
  next
    fix p assume p: "p \<in> ?N"
    define q where "q = (nat (fst p), nat (snd p))"
    from p have live: "?L p" and nb: "p \<in> set (neighborhood (int y) (int x))" by simp_all
    from live have pq: "p = ?f q" and q: "q \<in> liveCells g"
      by (simp_all add: liveAt_liveCells q_def prod_eq_iff)
    from nb pq have "adjacent (y, x) q" by (simp only: adjacent_neighborhood)
    with q pq show "p \<in> ?f ` ?Q" by blast
  qed
  moreover have "inj_on ?f ?Q"
    by (rule inj_onI) (simp add: prod_eq_iff)
  ultimately have "card ?N = card ?Q"
    using card_image [of ?f ?Q] by simp
  moreover have "liveNeighborCount (int gameRows) (int gameColumns) g (int y) (int x) = card ?N"
    unfolding liveNeighborCount_def by (simp only: distinct_card distinct_filter distinct_neighborhood)
  ultimately show ?thesis by (simp only: liveAround_def)
qed

lemma nextCell_lifeStep:
  "y < gameRows \<Longrightarrow> x < gameColumns \<Longrightarrow> nextCell g y x \<longleftrightarrow> (y, x) \<in> lifeStep (liveCells g)"
  by (simp add: nextCell_def liveNeighborCount_liveAround lifeStep_def)

lemma liveCells_nextGen: "liveCells (nextGen g) = lifeStep (liveCells g)"
proof -
  have "(y, x) \<in> liveCells (nextGen g) \<longleftrightarrow> (y, x) \<in> lifeStep (liveCells g)" for y x
  proof (cases "y < gameRows \<and> x < gameColumns")
    case True
    then show ?thesis by (simp add: nextCell_lifeStep)
  next
    case False
    then show ?thesis by (auto simp: lifeStep_def)
  qed
  then show ?thesis by auto
qed

lemma liveCells_emptyMap [simp]: "liveCells emptyMap = {}"
  by (auto simp: liveCells_def)

lemma nth2_nextGen_lifeStep:
  "y < gameRows \<Longrightarrow> x < gameColumns \<Longrightarrow>
   nth2 (nextGen g) y x = of_bool ((y, x) \<in> lifeStep (liveCells g))"
  by (simp add: nextCell_lifeStep)

lemma nextGen_liveCells_cong: "liveCells g = liveCells h \<Longrightarrow> nextGen g = nextGen h"
  by (rule grid_eqI) (simp_all add: nextCell_lifeStep)

lemma changedCells_liveCells:
  assumes "grid_wf g" "boolean_cells g" "grid_wf h" "boolean_cells h"
  shows "changedCells g h = card ((liveCells g - liveCells h) \<union> (liveCells h - liveCells g))"
proof -
  have "(nth2 g y x \<noteq> nth2 h y x) = ((nth2 g y x \<noteq> 0) \<noteq> (nth2 h y x \<noteq> 0))"
    if "y < gameRows" "x < gameColumns" for y x
    using boolean_cells_cases [OF assms(2,1) that] boolean_cells_cases [OF assms(4,3) that] by auto
  then have "changedCells g h =
      count2 gameRows gameColumns (\<lambda>y x. (nth2 g y x \<noteq> 0) \<noteq> (nth2 h y x \<noteq> 0))"
    unfolding changedCells_def by (intro count2_cong)
  also have "\<dots> = card {(y, x). y < gameRows \<and> x < gameColumns \<and> (nth2 g y x \<noteq> 0) \<noteq> (nth2 h y x \<noteq> 0)}"
    by (rule count2_card)
  also have "{(y, x). y < gameRows \<and> x < gameColumns \<and> (nth2 g y x \<noteq> 0) \<noteq> (nth2 h y x \<noteq> 0)}
             = (liveCells g - liveCells h) \<union> (liveCells h - liveCells g)"
    by auto
  finally show ?thesis .
qed

lemma liveCells_funpow: "liveCells ((nextGen ^^ n) g) = (lifeStep ^^ n) (liveCells g)"
  by (induction n) (simp_all add: liveCells_nextGen)

lemma lifeStep_empty [simp]: "lifeStep {} = {}"
  using liveCells_nextGen [of emptyMap] by (simp add: liveCells_emptyMap)

end
