(* ===== verification/Calc_Next_Gen.thy ===== *)
theory Calc_Next_Gen
  imports Life_Spec
begin

text \<open>
  \<^verbatim>\<open>ConwaysGame::calcNextGen\<close> (\<^verbatim>\<open>src/src/simulation.h\<close>): the choice of the
  map that receives the next generation, the two nested loops that fill it
  cell by cell while counting the cells that change, and the swap of the
  current-map pointer. The lemmas compute the result of the loops; the
  properties state that the function refines the specification of theory
  \<open>Life_Spec\<close>: \<open>nextGen\<close> and \<open>changedCells\<close> on maps, \<open>lifeStep\<close> on sets
  of live cells.
\<close>

section \<open>The generation step\<close>

text \<open>The body of the inner loop; the loop state is \<^verbatim>\<open>updates\<close> and the object.\<close>

definition cellUpdate ::
  "nat \<Rightarrow> nat \<Rightarrow> uint32 \<times> ConwaysGame \<Rightarrow> (uint32 \<times> ConwaysGame) result" where
  "cellUpdate i j st =
     (let updates = fst st; s = snd st in
      bindR (checkNeighbors s (of_nat i) (of_nat j) (of_nat gameRows) (of_nat gameColumns))
        (\<lambda>alive.
      bindR (if alive then writeCell (nextGenMap s) (int i) (int j) 1 s
             else writeCell (nextGenMap s) (int i) (int j) 0 s)
        (\<lambda>s'.
      bindR (readCell (currentGenMap s') (int i) (int j) s') (\<lambda>cur.
      bindR (readCell (nextGenMap s') (int i) (int j) s') (\<lambda>nxt.
      Inr (if cur \<noteq> nxt then updates + 1 else updates, s'))))))"

definition calcRow :: "nat \<Rightarrow> uint32 \<times> ConwaysGame \<Rightarrow> (uint32 \<times> ConwaysGame) result" where
  "calcRow i = forLoop 0 gameColumns (cellUpdate i)"

definition calcNextGen :: "ConwaysGame \<Rightarrow> (uint32 \<times> ConwaysGame) result" where
  "calcNextGen s =
     (let s1 = (if currentGenMap s = Map_1 then s\<lparr>nextGenMap := Map_2\<rparr>
                else s\<lparr>nextGenMap := Map_1\<rparr>)
      in bindR (forLoop 0 gameRows calcRow (0, s1)) (\<lambda>(updates, s2).
         Inr (updates, s2\<lparr>currentGenMap := nextGenMap s2\<rparr>)))"

section \<open>Auxiliary definitions\<close>

definition otherMap :: "mapPtr \<Rightarrow> mapPtr" where
  "otherMap p = (if p = Map_1 then Map_2 else Map_1)"

text \<open>
  \<open>generations n\<close> is \<open>n\<close> calls of \<open>calcNextGen\<close> in sequence; it
  returns the counts in the order of the calls.
\<close>

primrec generations :: "nat \<Rightarrow> ConwaysGame \<Rightarrow> (uint32 list \<times> ConwaysGame) result" where
  "generations 0 s = Inr ([], s)"
| "generations (Suc n) s =
     bindR (calcNextGen s) (\<lambda>(u, s').
     bindR (generations n s') (\<lambda>(us, s''). Inr (u # us, s'')))"

section \<open>Lemmas: the other map\<close>

lemma otherMap_simps [simp]:
  "otherMap p \<noteq> NullMap" "p \<noteq> NullMap \<Longrightarrow> otherMap p \<noteq> p" "p \<noteq> NullMap \<Longrightarrow> p \<noteq> otherMap p"
  "p \<noteq> NullMap \<Longrightarrow> otherMap (otherMap p) = p"
  by (cases p; simp add: otherMap_def)+

section \<open>Lemmas: one cell\<close>

lemma cellUpdate_ok:
  assumes "game_wf s" and "currentGenMap s \<noteq> NullMap" and "nextGenMap s \<noteq> NullMap"
    and "nextGenMap s \<noteq> currentGenMap s" and "i < gameRows" and "j < gameColumns"
  shows "cellUpdate i j (u, s) =
         Inr (if nth2 (mapOf (currentGenMap s) s) i j \<noteq> of_bool (nextCell (mapOf (currentGenMap s) s) i j)
              then u + 1 else u,
              setMap (nextGenMap s)
                (upd2 (mapOf (nextGenMap s) s) i j (of_bool (nextCell (mapOf (currentGenMap s) s) i j))) s)"
proof -
  let ?v = "of_bool (nextCell (mapOf (currentGenMap s) s) i j) :: byte"
  let ?s' = "setMap (nextGenMap s) (upd2 (mapOf (nextGenMap s) s) i j ?v) s"
  have w: "(if nextCell (mapOf (currentGenMap s) s) i j
            then writeCell (nextGenMap s) (int i) (int j) 1 s
            else writeCell (nextGenMap s) (int i) (int j) 0 s) = Inr ?s'"
    using assms(3,5,6) by simp
  have cur: "readCell (currentGenMap ?s') (int i) (int j) ?s' = Inr (nth2 (mapOf (currentGenMap s) s) i j)"
    using assms(2,4,5,6) by simp
  have nxt: "readCell (nextGenMap ?s') (int i) (int j) ?s' = Inr ?v"
    using assms(1,3,5,6) by (simp add: nth2_upd2_grid)
  show ?thesis
    unfolding cellUpdate_def Let_def fst_conv snd_conv
    by (simp only: checkNeighbors_arena [OF assms(2,5,6)] bindR_Inr w cur nxt)
qed

section \<open>Lemmas: one row\<close>

text \<open>
  While row \<open>i\<close> is being filled, the first \<open>j\<close> cells of that row of the
  next map are those of \<open>nextGen\<close>, the rest of the map is as it was, and the
  current map has not been written.
\<close>

lemma calcRow_ok:
  assumes wf: "game_wf s" and p: "currentGenMap s \<noteq> NullMap" and q: "nextGenMap s \<noteq> NullMap"
    and pq: "nextGenMap s \<noteq> currentGenMap s" and i: "i < gameRows"
  shows "calcRow i (u, s) =
         Inr (u + of_nat (count_upto gameColumns
                (\<lambda>x. nth2 (mapOf (currentGenMap s) s) i x \<noteq> nth2 (nextGen (mapOf (currentGenMap s) s)) i x)),
              setMap (nextGenMap s) ((mapOf (nextGenMap s) s)[i := nextGen (mapOf (currentGenMap s) s) ! i]) s)"
proof -
  let ?cur = "mapOf (currentGenMap s) s" and ?G = "mapOf (nextGenMap s) s"
  let ?N = "nextGen (mapOf (currentGenMap s) s)"
  let ?P = "\<lambda>x. nth2 ?cur i x \<noteq> nth2 ?N i x"
  define g where "g j = (u + of_nat (count_upto j ?P),
      setMap (nextGenMap s) (?G[i := take j (?N ! i) @ drop j (?G ! i)]) s)" for j
  have G: "grid_wf ?G" using wf q by simp
  have len: "length (?N ! i) = gameColumns" "length (?G ! i) = gameColumns" "i < length ?G"
    using i G by simp_all
  have step: "cellUpdate i j (g j) = Inr (g (Suc j))" if j: "j < gameColumns" for j
  proof -
    let ?row = "take j (?N ! i) @ drop j (?G ! i)"
    let ?s = "setMap (nextGenMap s) (?G[i := ?row]) s"
    have row: "length ?row = gameColumns" using len by simp
    have wf': "game_wf ?s" using wf G row by (simp add: grid_wf_def rect_update)
    have upd: "upd2 (?G[i := ?row]) i j (nth2 ?N i j) = ?G[i := take (Suc j) (?N ! i) @ drop (Suc j) (?G ! i)]"
      using len j by (simp add: upd2_def nth2_def take_drop_update)
    have "cellUpdate i j (u + of_nat (count_upto j ?P), ?s) =
          Inr (if ?P j then u + of_nat (count_upto j ?P) + 1 else u + of_nat (count_upto j ?P),
               setMap (nextGenMap s) (upd2 (?G[i := ?row]) i j (nth2 ?N i j)) s)"
      using cellUpdate_ok [OF wf', of i j] p q pq i j by simp
    then show ?thesis by (simp add: g_def upd)
  qed
  have "forLoop 0 gameColumns (cellUpdate i) (g 0) = Inr (g gameColumns)"
    by (rule forLoop_exact) (simp_all add: step)
  then show ?thesis using len by (simp add: calcRow_def g_def)
qed

section \<open>Lemmas: all rows\<close>

lemma calcRows_ok:
  assumes wf: "game_wf s" and p: "currentGenMap s \<noteq> NullMap" and q: "nextGenMap s \<noteq> NullMap"
    and pq: "nextGenMap s \<noteq> currentGenMap s"
  shows "forLoop 0 gameRows calcRow (u, s) =
         Inr (u + of_nat (changedCells (mapOf (currentGenMap s) s) (nextGen (mapOf (currentGenMap s) s))),
              setMap (nextGenMap s) (nextGen (mapOf (currentGenMap s) s)) s)"
proof -
  let ?cur = "mapOf (currentGenMap s) s" and ?G = "mapOf (nextGenMap s) s"
  let ?N = "nextGen (mapOf (currentGenMap s) s)"
  let ?P = "\<lambda>y x. nth2 ?cur y x \<noteq> nth2 ?N y x"
  define g where "g i = (u + of_nat (count2 i gameColumns ?P),
      setMap (nextGenMap s) (take i ?N @ drop i ?G) s)" for i
  have G: "grid_wf ?G" using wf q by simp
  have step: "calcRow i (g i) = Inr (g (Suc i))" if i: "i < gameRows" for i
  proof -
    let ?s = "setMap (nextGenMap s) (take i ?N @ drop i ?G) s"
    have mid: "grid_wf (take i ?N @ drop i ?G)"
      using G unfolding grid_wf_def by (intro rect_take_drop) (simp_all flip: grid_wf_def)
    then have wf': "game_wf ?s" using wf by simp
    have upd: "(take i ?N @ drop i ?G)[i := ?N ! i] = take (Suc i) ?N @ drop (Suc i) ?G"
      using i G by (simp add: take_drop_update)
    have "calcRow i (u + of_nat (count2 i gameColumns ?P), ?s) =
          Inr (u + of_nat (count2 i gameColumns ?P) + of_nat (count_upto gameColumns (?P i)),
               setMap (nextGenMap s) ((take i ?N @ drop i ?G)[i := ?N ! i]) s)"
      using calcRow_ok [OF wf', of i] p q pq i by simp
    then show ?thesis by (simp add: g_def upd)
  qed
  have "forLoop 0 gameRows calcRow (g 0) = Inr (g gameRows)"
    by (rule forLoop_exact) (simp_all add: step)
  then show ?thesis using G by (simp add: g_def changedCells_def)
qed

section \<open>Lemmas: the whole step\<close>

lemma calcNextGen_ok:
  assumes "game_wf s" and "currentGenMap s \<noteq> NullMap"
  shows "calcNextGen s =
         Inr (of_nat (changedCells (mapOf (currentGenMap s) s) (nextGen (mapOf (currentGenMap s) s))),
              (setMap (otherMap (currentGenMap s)) (nextGen (mapOf (currentGenMap s) s)) s)
                \<lparr>currentGenMap := otherMap (currentGenMap s), nextGenMap := otherMap (currentGenMap s)\<rparr>)"
proof -
  let ?q = "otherMap (currentGenMap s)"
  have s1: "(if currentGenMap s = Map_1 then s\<lparr>nextGenMap := Map_2\<rparr> else s\<lparr>nextGenMap := Map_1\<rparr>)
            = s\<lparr>nextGenMap := ?q\<rparr>"
    by (simp add: otherMap_def)
  have "forLoop 0 gameRows calcRow (0, s\<lparr>nextGenMap := ?q\<rparr>) =
        Inr (0 + of_nat (changedCells (mapOf (currentGenMap s) s) (nextGen (mapOf (currentGenMap s) s))),
             setMap ?q (nextGen (mapOf (currentGenMap s) s)) (s\<lparr>nextGenMap := ?q\<rparr>))"
    using calcRows_ok [of "s\<lparr>nextGenMap := ?q\<rparr>" 0] assms by simp
  then show ?thesis
    unfolding calcNextGen_def Let_def s1 by (simp add: setMap_pointer_update)
qed

lemma calcNextGen_fields:
  assumes "game_wf s" and "currentGenMap s \<noteq> NullMap" and "calcNextGen s = Inr (u, s')"
  shows "currentGenMap s' = otherMap (currentGenMap s)" "nextGenMap s' = otherMap (currentGenMap s)"
    "currentGen s' = nextGen (currentGen s)" "mapOf (currentGenMap s) s' = currentGen s"
    "simColor s' = simColor s" "game_wf s'"
    "u = of_nat (changedCells (currentGen s) (nextGen (currentGen s)))"
  using assms(3) assms(1,2) unfolding calcNextGen_ok [OF assms(1,2)] by auto

lemma calcNextGen_seeded:
  assumes "seeded s"
  shows "\<exists>u s'. calcNextGen s = Inr (u, s') \<and> seeded s'"
proof -
  from assms have wf: "game_wf s" and p: "currentGenMap s \<noteq> NullMap"
    by (simp_all add: seeded_def)
  obtain u s' where r: "calcNextGen s = Inr (u, s')"
    using calcNextGen_ok [OF wf p] by blast
  from calcNextGen_fields [OF wf p r] have "seeded s'"
    by (simp add: seeded_def)
  with r show ?thesis by blast
qed

lemma calcNextGen_null:
  assumes "currentGenMap s = NullMap"
  shows "calcNextGen s = Inl NullPointer"
proof -
  let ?s = "s\<lparr>nextGenMap := Map_1\<rparr>"
  let ?step = "neighborStep ?s (of_nat 0) (of_nat 0) (of_nat gameRows) (of_nat gameColumns)"
  have cur: "currentGenMap ?s = NullMap" using assms by simp
  have "?step k n = Inr n" if "k < 5" for k n
  proof -
    from that have "k = 0 \<or> k = 1 \<or> k = 2 \<or> k = 3 \<or> k = 4" by linarith
    then show ?thesis by (auto simp: neighborStep_alt hit_positions)
  qed
  moreover have "?step 5 n = Inl NullPointer" for n
    by (simp add: neighborStep_alt hit_positions cur word_bounds gameRows_def gameColumns_def)
  ultimately have "forLoop 0 9 ?step 0 = Inl NullPointer"
    by (simp add: forLoop_step eval_nat_numeral)
  then have "cellUpdate 0 0 (0, ?s) = Inl NullPointer"
    by (simp add: cellUpdate_def checkNeighbors_def countNeighbors_def)
  then have "forLoop 0 gameRows calcRow (0, ?s) = Inl NullPointer"
    by (simp add: forLoop_step calcRow_def)
  then show ?thesis
    using assms by (simp add: calcNextGen_def)
qed

section \<open>Lemmas: several steps\<close>

lemma generations_ok:
  assumes "game_wf s" and "currentGenMap s \<noteq> NullMap"
  shows "\<exists>us s'. generations n s = Inr (us, s') \<and> game_wf s' \<and>
           currentGen s' = (nextGen ^^ n) (currentGen s) \<and>
           currentGenMap s' = (otherMap ^^ n) (currentGenMap s) \<and>
           simColor s' = simColor s \<and>
           us = map (\<lambda>k. of_nat (changedCells ((nextGen ^^ k) (currentGen s))
                                               ((nextGen ^^ Suc k) (currentGen s)))) [0..<n]"
  using assms
proof (induction n arbitrary: s)
  case 0
  then show ?case by simp
next
  case (Suc n)
  obtain u s1 where s1: "calcNextGen s = Inr (u, s1)"
    using calcNextGen_ok [OF Suc.prems] by blast
  note f = calcNextGen_fields [OF Suc.prems s1]
  have p1: "currentGenMap s1 \<noteq> NullMap" using f(1) by simp
  from Suc.IH [OF f(6) p1] obtain us s' where r: "generations n s1 = Inr (us, s')" "game_wf s'"
    "currentGen s' = (nextGen ^^ n) (currentGen s1)"
    "currentGenMap s' = (otherMap ^^ n) (currentGenMap s1)" "simColor s' = simColor s1"
    "us = map (\<lambda>k. of_nat (changedCells ((nextGen ^^ k) (currentGen s1))
                                        ((nextGen ^^ Suc k) (currentGen s1)))) [0..<n]"
    by blast
  have "map (\<lambda>k. of_nat (changedCells ((nextGen ^^ k) (currentGen s))
                                    ((nextGen ^^ Suc k) (currentGen s)))) [0..<Suc n] =
        (u # us :: uint32 list)"
    unfolding map_upt_Suc by (simp add: r(6) f(3,7) funpow_swap1)
  with s1 r f show ?case
    by (simp add: funpow_swap1)
qed

section \<open>Properties\<close>

text \<open>
  C2 (refinement). With the generation \<open>currentGen\<close> as the abstraction of the
  object, \<open>calcNextGen\<close> implements \<open>nextGen\<close>: from every state with a
  non-null current map it returns, and the generation that is current
  afterwards is the next generation of the one that was current before,
  every cell computed from the old generation only.
\<close>

theorem calcNextGen_refines:
  assumes "game_wf s" and "currentGenMap s \<noteq> NullMap"
  shows "map_sum id (\<lambda>(updates, s'). currentGen s') (calcNextGen s) = Inr (nextGen (currentGen s))"
  using assms by (simp add: calcNextGen_ok)

theorem calcNextGen_refines_witness:
  "game_wf blinkerGame \<and> currentGenMap blinkerGame \<noteq> NullMap \<and>
   map_sum id (\<lambda>(updates, s'). nth2 (currentGen s') 9 10) (calcNextGen blinkerGame) = Inr 1"
proof -
  have h: "game_wf blinkerGame" "currentGenMap blinkerGame \<noteq> NullMap"
    by (simp_all add: seeded_game_wf)
  obtain u s' where r: "calcNextGen blinkerGame = Inr (u, s')"
    using calcNextGen_ok [OF h] by blast
  have "nth2 (nextGen blinkerMap) 9 10 = 1"
    by (simp add: nextCell_def liveNeighborCount_blinker lifeRule_def nth2_blinkerMap
        gameRows_def gameColumns_def)
  with calcNextGen_refines [OF h] r h show ?thesis by simp
qed

text \<open>
  C6 (bounds). The \<^verbatim>\<open>uint32_t\<close> that \<open>calcNextGen\<close> returns, read as a number,
  is the number of positions of the arena at which the new generation differs
  from the old one; it is at most 2048, so the counter has not wrapped.
\<close>

theorem calcNextGen_updates:
  assumes "game_wf s" and "currentGenMap s \<noteq> NullMap"
  shows "map_sum id (\<lambda>(updates, s'). unat updates) (calcNextGen s) =
           Inr (changedCells (currentGen s) (nextGen (currentGen s))) \<and>
         changedCells (currentGen s) (nextGen (currentGen s)) \<le> 2048"
proof -
  let ?n = "changedCells (currentGen s) (nextGen (currentGen s))"
  have le: "?n \<le> 2048" by (rule changedCells_le)
  then have "unat (of_nat ?n :: uint32) = ?n" by (simp add: unat_of_nat_uint32)
  with le show ?thesis by (simp add: calcNextGen_ok [OF assms])
qed

theorem calcNextGen_updates_witness:
  "game_wf deadGame \<and> currentGenMap deadGame \<noteq> NullMap \<and>
   map_sum id (\<lambda>(updates, s'). unat updates) (calcNextGen deadGame) = Inr 0"
proof -
  have h: "game_wf deadGame" "currentGenMap deadGame \<noteq> NullMap"
    by (simp_all add: seeded_game_wf)
  from calcNextGen_updates [OF h] h show ?thesis by simp
qed

text \<open>
  C13 (invariant). \<open>calcNextGen\<close> keeps the invariant of a seeded game: both
  maps keep their shape, the current pointer stays non-null, and the cells of
  the current map are 0 or 1. In particular it returns from every seeded
  state.
\<close>

theorem calcNextGen_preserves_seeded:
  assumes "seeded s"
  shows "case calcNextGen s of Inl e \<Rightarrow> False | Inr (updates, s') \<Rightarrow> seeded s'"
  using calcNextGen_seeded [OF assms] by auto

theorem calcNextGen_preserves_seeded_witness:
  "seeded blinkerGame \<and>
   (case calcNextGen blinkerGame of Inl e \<Rightarrow> False | Inr (updates, s') \<Rightarrow> seeded s')"
  using calcNextGen_preserves_seeded [of blinkerGame] by simp

text \<open>
  C7 (safety). Double buffering: the step writes only the map that was not
  current. Afterwards the old generation is still in its map, unchanged, the
  current pointer has moved to the other map, \<^verbatim>\<open>nextGenMap\<close> points there too,
  and the colour is untouched.
\<close>

theorem calcNextGen_double_buffer:
  assumes "game_wf s" and "currentGenMap s \<noteq> NullMap"
  shows "case calcNextGen s of Inl e \<Rightarrow> False
         | Inr (updates, s') \<Rightarrow>
             mapOf (currentGenMap s) s' = currentGen s \<and>
             currentGenMap s' \<noteq> currentGenMap s \<and> currentGenMap s' \<noteq> NullMap \<and>
             nextGenMap s' = currentGenMap s' \<and> simColor s' = simColor s"
  using assms by (simp add: calcNextGen_ok)

theorem calcNextGen_double_buffer_witness:
  "game_wf blinkerGame \<and> currentGenMap blinkerGame \<noteq> NullMap \<and>
   (case calcNextGen blinkerGame of Inl e \<Rightarrow> False
    | Inr (updates, s') \<Rightarrow> genMap_1 s' = blinkerMap \<and> currentGenMap s' = Map_2)"
proof -
  have h: "game_wf blinkerGame" "currentGenMap blinkerGame \<noteq> NullMap"
    by (simp_all add: seeded_game_wf)
  from calcNextGen_double_buffer [OF h] h show ?thesis
    by (auto split: sum.splits intro: mapPtr.exhaust)
qed

text \<open>
  C29 (error). On the object as the constructor leaves it, before any
  \<open>initSeed\<close>, the current-map pointer is null and \<open>calcNextGen\<close> dereferences
  it when it counts the neighbours of the first cell.
\<close>

theorem calcNextGen_unseeded:
  "calcNextGen (newConwaysGame color) = Inl NullPointer"
  by (rule calcNextGen_null) (simp add: newConwaysGame_def)

text \<open>
  C1 (refinement). \<open>calcNextGen\<close> implements the game: with a generation
  abstracted to its set of live cells, one call from a state with a non-null
  current map returns, and the live cells afterwards are \<open>lifeStep\<close> of the
  live cells before. The arena's edges are hard: cells beyond them do not
  count and are never created.
\<close>

theorem calcNextGen_implements_lifeStep:
  assumes "game_wf s" and "currentGenMap s \<noteq> NullMap"
  shows "map_sum id (\<lambda>(updates, s'). liveCells (currentGen s')) (calcNextGen s) =
         Inr (lifeStep (liveCells (currentGen s)))"
  using assms by (simp add: calcNextGen_ok liveCells_nextGen)

theorem calcNextGen_implements_lifeStep_witness:
  "game_wf deadGame \<and> currentGenMap deadGame \<noteq> NullMap \<and>
   map_sum id (\<lambda>(updates, s'). liveCells (currentGen s')) (calcNextGen deadGame) = Inr {}"
proof -
  have h: "game_wf deadGame" "currentGenMap deadGame \<noteq> NullMap"
    by (simp_all add: seeded_game_wf)
  from calcNextGen_implements_lifeStep [OF h] h show ?thesis
    by (simp add: calcNextGen_ok)
qed

text \<open>
  C26 (functional). The rules, cell by cell, after one \<open>calcNextGen\<close>: a cell
  of the arena with exactly three live neighbours is alive (stored as 1)
  whatever it was before; a cell with fewer than two or more than three live
  neighbours is dead (stored as 0) whatever it was before.
\<close>

theorem calcNextGen_birth_and_death:
  assumes "game_wf s" and "currentGenMap s \<noteq> NullMap" and "y < gameRows" and "x < gameColumns"
  shows "(liveAround (liveCells (currentGen s)) (y, x) = 3 \<longrightarrow>
            map_sum id (\<lambda>(updates, s'). nth2 (currentGen s') y x) (calcNextGen s) = Inr 1) \<and>
         (liveAround (liveCells (currentGen s)) (y, x) < 2 \<or>
          liveAround (liveCells (currentGen s)) (y, x) > 3 \<longrightarrow>
            map_sum id (\<lambda>(updates, s'). nth2 (currentGen s') y x) (calcNextGen s) = Inr 0)"
  using assms by (auto simp: calcNextGen_ok nextCell_lifeStep lifeStep_def lifeRule_def)

theorem calcNextGen_birth_and_death_witness:
  "game_wf blinkerGame \<and> currentGenMap blinkerGame \<noteq> NullMap \<and> 9 < gameRows \<and> 10 < gameColumns \<and>
   liveAround (liveCells (currentGen blinkerGame)) (9, 10) = 3 \<and>
   map_sum id (\<lambda>(updates, s'). nth2 (currentGen s') 9 10) (calcNextGen blinkerGame) = Inr 1"
proof -
  have h: "game_wf blinkerGame" "currentGenMap blinkerGame \<noteq> NullMap" "9 < gameRows" "10 < gameColumns"
    by (simp_all add: seeded_game_wf gameRows_def gameColumns_def)
  have "liveAround (liveCells blinkerMap) (9, 10) = 3"
    using liveNeighborCount_liveAround [of blinkerMap 9 10] liveNeighborCount_blinker(1)
    by (simp add: gameRows_def gameColumns_def)
  with calcNextGen_birth_and_death [OF h] h show ?thesis by simp
qed

text \<open>
  C27 (equivalence). In a seeded game the number that \<open>calcNextGen\<close> returns
  is the number of cells that changed between alive and dead: the size of the
  symmetric difference of the sets of live cells before and after.
\<close>

theorem calcNextGen_counts_changes:
  assumes "seeded s"
  shows "case calcNextGen s of Inl e \<Rightarrow> False
         | Inr (updates, s') \<Rightarrow>
             unat updates = card ((liveCells (currentGen s) - liveCells (currentGen s')) \<union>
                                  (liveCells (currentGen s') - liveCells (currentGen s)))"
proof -
  from assms have wf: "game_wf s" and p: "currentGenMap s \<noteq> NullMap"
    and b: "boolean_cells (currentGen s)" by (simp_all add: seeded_def)
  let ?g = "currentGen s"
  have "changedCells ?g (nextGen ?g) =
        card ((liveCells ?g - liveCells (nextGen ?g)) \<union> (liveCells (nextGen ?g) - liveCells ?g))"
    using wf p b by (intro changedCells_liveCells) simp_all
  moreover have "unat (of_nat (changedCells ?g (nextGen ?g)) :: uint32) = changedCells ?g (nextGen ?g)"
    using changedCells_le [of ?g "nextGen ?g"] by (simp add: unat_of_nat_uint32)
  ultimately show ?thesis by (simp add: calcNextGen_ok [OF wf p])
qed

theorem calcNextGen_counts_changes_witness:
  "seeded deadGame \<and>
   (case calcNextGen deadGame of Inl e \<Rightarrow> False | Inr (updates, s') \<Rightarrow> unat updates = 0)"
  using calcNextGen_counts_changes [of deadGame] by (simp add: calcNextGen_ok seeded_game_wf)

text \<open>
  C28 (refinement). Any number of steps: \<open>n\<close> calls of \<open>calcNextGen\<close> in
  sequence, from a state with well-shaped maps and a non-null current map,
  all return, and the live cells afterwards are \<open>n\<close> steps of the game applied
  to the live cells before; the calls return \<open>n\<close> counts.
\<close>

theorem generations_implement_lifeSteps:
  assumes "game_wf s" and "currentGenMap s \<noteq> NullMap"
  shows "map_sum id (\<lambda>(us, s'). (length us, liveCells (currentGen s'))) (generations n s) =
         Inr (n, (lifeStep ^^ n) (liveCells (currentGen s)))"
proof -
  from generations_ok [OF assms, of n] obtain us s' where "generations n s = Inr (us, s')"
    "currentGen s' = (nextGen ^^ n) (currentGen s)" "length us = n"
    by auto
  then show ?thesis by (simp add: liveCells_funpow)
qed

theorem generations_implement_lifeSteps_witness:
  "game_wf deadGame \<and> currentGenMap deadGame \<noteq> NullMap \<and>
   map_sum id (\<lambda>(us, s'). (length us, liveCells (currentGen s'))) (generations 3 deadGame) =
   Inr (3, {})"
proof -
  have h: "game_wf deadGame" "currentGenMap deadGame \<noteq> NullMap"
    by (simp_all add: seeded_game_wf)
  from generations_implement_lifeSteps [OF h, of 3] h show ?thesis
    by (simp add: liveCells_emptyMap eval_nat_numeral)
qed

end
