(* ===== verification/Patterns.thy ===== *)
theory Patterns
  imports Calc_Next_Gen
begin

text \<open>
  Generations given by a finite list of live cells, and what
  \<^verbatim>\<open>calcNextGen\<close> makes of them. For such a map the number of live
  neighbours of a cell is the number of listed cells adjacent to it, which
  turns the next generation of a pattern into arithmetic on two coordinates.
  The scenarios worked out are a lone cell, the 2 by 2 block (a still life),
  the blinker (an oscillator of period 2) and the glider (a spaceship of
  period 4), each at every position where it fits in the arena.
\<close>

section \<open>Maps from lists of live cells\<close>

definition patternMap :: "cell list \<Rightarrow> genMap" where
  "patternMap cells = tabulate2 gameRows gameColumns (\<lambda>y x. of_bool ((y, x) \<in> set cells))"

definition patternGame :: "cell list \<Rightarrow> ConwaysGame" where
  "patternGame cells = (newConwaysGame 0)\<lparr>genMap_1 := patternMap cells, currentGenMap := Map_1\<rparr>"

text \<open>The block with its top left cell at \<open>(r, c)\<close>.\<close>

definition block :: "nat \<Rightarrow> nat \<Rightarrow> cell list" where
  "block r c = [(r, c), (r, Suc c), (Suc r, c), (Suc r, Suc c)]"

text \<open>The two phases of the blinker inside the 3 by 3 box with top left corner \<open>(r, c)\<close>.\<close>

definition blinkerH :: "nat \<Rightarrow> nat \<Rightarrow> cell list" where
  "blinkerH r c = [(Suc r, c), (Suc r, Suc c), (Suc r, Suc (Suc c))]"

definition blinkerV :: "nat \<Rightarrow> nat \<Rightarrow> cell list" where
  "blinkerV r c = [(r, Suc c), (Suc r, Suc c), (Suc (Suc r), Suc c)]"

text \<open>
  The four phases of a glider that moves down and to the right, in the 4 by 4
  box with top left corner \<open>(r, c)\<close>; the fifth phase is the first one in the
  box at \<open>(Suc r, Suc c)\<close>.
\<close>

definition glider0 :: "nat \<Rightarrow> nat \<Rightarrow> cell list" where
  "glider0 r c =
     [(r, Suc c), (Suc r, Suc (Suc c)),
      (Suc (Suc r), c), (Suc (Suc r), Suc c), (Suc (Suc r), Suc (Suc c))]"

definition glider1 :: "nat \<Rightarrow> nat \<Rightarrow> cell list" where
  "glider1 r c =
     [(Suc r, c), (Suc r, Suc (Suc c)),
      (Suc (Suc r), Suc c), (Suc (Suc r), Suc (Suc c)), (Suc (Suc (Suc r)), Suc c)]"

definition glider2 :: "nat \<Rightarrow> nat \<Rightarrow> cell list" where
  "glider2 r c =
     [(Suc r, Suc (Suc c)), (Suc (Suc r), c), (Suc (Suc r), Suc (Suc c)),
      (Suc (Suc (Suc r)), Suc c), (Suc (Suc (Suc r)), Suc (Suc c))]"

definition glider3 :: "nat \<Rightarrow> nat \<Rightarrow> cell list" where
  "glider3 r c =
     [(Suc r, Suc c), (Suc (Suc r), Suc (Suc c)), (Suc (Suc r), Suc (Suc (Suc c))),
      (Suc (Suc (Suc r)), Suc c), (Suc (Suc (Suc r)), Suc (Suc c))]"

lemmas glider_defs = glider0_def glider1_def glider2_def glider3_def

section \<open>Lemmas: pattern maps\<close>

lemma grid_wf_patternMap [simp]: "grid_wf (patternMap cells)"
  by (simp add: patternMap_def)

lemma boolean_cells_patternMap [simp]: "boolean_cells (patternMap cells)"
  by (simp add: patternMap_def)

lemma nth2_patternMap [simp]:
  "y < gameRows \<Longrightarrow> x < gameColumns \<Longrightarrow> nth2 (patternMap cells) y x = of_bool ((y, x) \<in> set cells)"
  by (simp add: patternMap_def)

lemma patternMap_Nil: "patternMap [] = emptyMap"
  by (rule grid_eqI) simp_all

lemma patternMap_cong: "set cells \<inter> arena = set cells' \<inter> arena \<Longrightarrow> patternMap cells = patternMap cells'"
  unfolding patternMap_def by (rule tabulate2_cong) (auto simp: set_eq_iff)

lemma liveCells_patternMap: "liveCells (patternMap cells) = set cells \<inter> arena"
  by (auto simp: liveCells_def)

lemma patternGame_simps [simp]:
  "genMap_1 (patternGame cells) = patternMap cells" "genMap_2 (patternGame cells) = emptyMap"
  "currentGenMap (patternGame cells) = Map_1"
  by (simp_all add: patternGame_def newConwaysGame_def emptyMap_def)

lemma seeded_patternGame [simp]: "seeded (patternGame cells)" "game_wf (patternGame cells)"
  by (simp_all add: seeded_def game_wf_def)

lemma blinkerMap_pattern: "blinkerMap = patternMap (blinkerH 9 9)"
  by (rule grid_eqI) (auto simp: nth2_blinkerMap blinkerH_def)

lemma liveAround_list:
  assumes "distinct cells"
  shows "liveAround (set cells) p = length (filter (adjacent p) cells)"
proof -
  have "{q \<in> set cells. adjacent p q} = set (filter (adjacent p) cells)" by auto
  moreover have "distinct (filter (adjacent p) cells)" using assms by simp
  ultimately show ?thesis by (simp only: liveAround_def distinct_card)
qed

text \<open>
  The next generation of a pattern inside the arena: it is enough to decide
  the rule at every cell with the list in hand.
\<close>

lemma nextGen_patternMap:
  assumes "distinct cells" and "set cells \<subseteq> arena"
    and "\<And>y x. y < gameRows \<Longrightarrow> x < gameColumns \<Longrightarrow>
           lifeRule ((y, x) \<in> set cells) (length (filter (adjacent (y, x)) cells)) \<longleftrightarrow>
           (y, x) \<in> set cells'"
  shows "nextGen (patternMap cells) = patternMap cells'"
proof (rule grid_eqI)
  fix y x assume yx: "y < gameRows" "x < gameColumns"
  have "set cells \<inter> arena = set cells" using assms(2) by blast
  then have "nextCell (patternMap cells) y x \<longleftrightarrow>
             lifeRule ((y, x) \<in> set cells) (length (filter (adjacent (y, x)) cells))"
    using yx assms(1)
    by (simp add: nextCell_def liveNeighborCount_liveAround liveCells_patternMap liveAround_list)
  with yx assms(3) show "nth2 (nextGen (patternMap cells)) y x = nth2 (patternMap cells') y x"
    by simp
qed simp_all

lemma changedCells_patternMap:
  "changedCells (patternMap A) (patternMap B) =
   card (((set A - set B) \<union> (set B - set A)) \<inter> arena)"
proof -
  have "{(y, x). y < gameRows \<and> x < gameColumns \<and> nth2 (patternMap A) y x \<noteq> nth2 (patternMap B) y x}
        = ((set A - set B) \<union> (set B - set A)) \<inter> arena"
    by auto
  then show ?thesis by (simp add: changedCells_def count2_card)
qed

section \<open>Lemmas: the rule on the scenarios\<close>

lemma lone_rule:
  "\<not> lifeRule ((y, x) \<in> set [p]) (length (filter (adjacent (y, x)) [p]))"
  unfolding lifeRule_def by simp

lemma block_rule:
  "lifeRule ((y, x) \<in> set (block r c)) (length (filter (adjacent (y, x)) (block r c))) \<longleftrightarrow>
   (y, x) \<in> set (block r c)"
  unfolding block_def adjacent_def lifeRule_def by simp

lemma blinkerH_rule:
  "lifeRule ((y, x) \<in> set (blinkerH r c)) (length (filter (adjacent (y, x)) (blinkerH r c))) \<longleftrightarrow>
   (y, x) \<in> set (blinkerV r c)"
  unfolding blinkerH_def blinkerV_def adjacent_def lifeRule_def by simp linarith

lemma blinkerV_rule:
  "lifeRule ((y, x) \<in> set (blinkerV r c)) (length (filter (adjacent (y, x)) (blinkerV r c))) \<longleftrightarrow>
   (y, x) \<in> set (blinkerH r c)"
  unfolding blinkerH_def blinkerV_def adjacent_def lifeRule_def by simp linarith

lemma pattern_facts:
  "distinct (block r c)" "distinct (blinkerH r c)" "distinct (blinkerV r c)"
  "Suc r < gameRows \<Longrightarrow> Suc c < gameColumns \<Longrightarrow> set (block r c) \<subseteq> arena"
  "Suc (Suc r) < gameRows \<Longrightarrow> Suc (Suc c) < gameColumns \<Longrightarrow> set (blinkerH r c) \<subseteq> arena"
  "Suc (Suc r) < gameRows \<Longrightarrow> Suc (Suc c) < gameColumns \<Longrightarrow> set (blinkerV r c) \<subseteq> arena"
  by (simp_all add: block_def blinkerH_def blinkerV_def)

lemma nextGen_lone:
  assumes "y < gameRows" and "x < gameColumns"
  shows "nextGen (patternMap [(y, x)]) = emptyMap"
proof -
  have "nextGen (patternMap [(y, x)]) = patternMap []"
    using assms by (intro nextGen_patternMap) (simp_all only: lone_rule, simp_all)
  then show ?thesis by (simp add: patternMap_Nil)
qed

lemma nextGen_block:
  "Suc r < gameRows \<Longrightarrow> Suc c < gameColumns \<Longrightarrow>
   nextGen (patternMap (block r c)) = patternMap (block r c)"
  by (intro nextGen_patternMap pattern_facts block_rule)

lemma nextGen_blinkerH:
  "Suc (Suc r) < gameRows \<Longrightarrow> Suc (Suc c) < gameColumns \<Longrightarrow>
   nextGen (patternMap (blinkerH r c)) = patternMap (blinkerV r c)"
  by (intro nextGen_patternMap pattern_facts blinkerH_rule)

lemma nextGen_blinkerV:
  "Suc (Suc r) < gameRows \<Longrightarrow> Suc (Suc c) < gameColumns \<Longrightarrow>
   nextGen (patternMap (blinkerV r c)) = patternMap (blinkerH r c)"
  by (intro nextGen_patternMap pattern_facts blinkerV_rule)

lemma changedCells_blinker:
  assumes "Suc (Suc r) < gameRows" and "Suc (Suc c) < gameColumns"
  shows "changedCells (patternMap (blinkerH r c)) (patternMap (blinkerV r c)) = 4"
    and "changedCells (patternMap (blinkerV r c)) (patternMap (blinkerH r c)) = 4"
proof -
  let ?D = "{(Suc r, c), (Suc r, Suc (Suc c)), (r, Suc c), (Suc (Suc r), Suc c)}"
  have "((set (blinkerH r c) - set (blinkerV r c)) \<union> (set (blinkerV r c) - set (blinkerH r c))) \<inter> arena = ?D"
    "((set (blinkerV r c) - set (blinkerH r c)) \<union> (set (blinkerH r c) - set (blinkerV r c))) \<inter> arena = ?D"
    using assms by (auto simp: blinkerH_def blinkerV_def)
  then show "changedCells (patternMap (blinkerH r c)) (patternMap (blinkerV r c)) = 4"
    and "changedCells (patternMap (blinkerV r c)) (patternMap (blinkerH r c)) = 4"
    by (simp_all add: changedCells_patternMap)
qed

section \<open>Lemmas: the glider\<close>

lemma glider_rules:
  "lifeRule ((y, x) \<in> set (glider0 r c)) (length (filter (adjacent (y, x)) (glider0 r c))) \<longleftrightarrow>
   (y, x) \<in> set (glider1 r c)"
  "lifeRule ((y, x) \<in> set (glider1 r c)) (length (filter (adjacent (y, x)) (glider1 r c))) \<longleftrightarrow>
   (y, x) \<in> set (glider2 r c)"
  "lifeRule ((y, x) \<in> set (glider2 r c)) (length (filter (adjacent (y, x)) (glider2 r c))) \<longleftrightarrow>
   (y, x) \<in> set (glider3 r c)"
  "lifeRule ((y, x) \<in> set (glider3 r c)) (length (filter (adjacent (y, x)) (glider3 r c))) \<longleftrightarrow>
   (y, x) \<in> set (glider0 (Suc r) (Suc c))"
  unfolding glider_defs adjacent_def lifeRule_def by (simp; linarith)+

lemma glider_facts:
  "distinct (glider0 r c)" "distinct (glider1 r c)" "distinct (glider2 r c)" "distinct (glider3 r c)"
  "Suc (Suc r) < gameRows \<Longrightarrow> Suc (Suc c) < gameColumns \<Longrightarrow> set (glider0 r c) \<subseteq> arena"
  "Suc (Suc (Suc r)) < gameRows \<Longrightarrow> Suc (Suc c) < gameColumns \<Longrightarrow> set (glider1 r c) \<subseteq> arena"
  "Suc (Suc (Suc r)) < gameRows \<Longrightarrow> Suc (Suc c) < gameColumns \<Longrightarrow> set (glider2 r c) \<subseteq> arena"
  "Suc (Suc (Suc r)) < gameRows \<Longrightarrow> Suc (Suc (Suc c)) < gameColumns \<Longrightarrow> set (glider3 r c) \<subseteq> arena"
  by (simp_all add: glider_defs)

lemma nextGen_glider:
  assumes "Suc (Suc (Suc r)) < gameRows" and "Suc (Suc (Suc c)) < gameColumns"
  shows "nextGen (patternMap (glider0 r c)) = patternMap (glider1 r c)"
    and "nextGen (patternMap (glider1 r c)) = patternMap (glider2 r c)"
    and "nextGen (patternMap (glider2 r c)) = patternMap (glider3 r c)"
    and "nextGen (patternMap (glider3 r c)) = patternMap (glider0 (Suc r) (Suc c))"
  using assms by (intro nextGen_patternMap glider_facts glider_rules; simp)+

lemma changedCells_glider:
  assumes "Suc (Suc (Suc r)) < gameRows" and "Suc (Suc (Suc c)) < gameColumns"
  shows "changedCells (patternMap (glider0 r c)) (patternMap (glider1 r c)) = 4"
    and "changedCells (patternMap (glider1 r c)) (patternMap (glider2 r c)) = 4"
    and "changedCells (patternMap (glider2 r c)) (patternMap (glider3 r c)) = 4"
    and "changedCells (patternMap (glider3 r c)) (patternMap (glider0 (Suc r) (Suc c))) = 4"
proof -
  have "((set (glider0 r c) - set (glider1 r c)) \<union> (set (glider1 r c) - set (glider0 r c))) \<inter> arena =
        {(r, Suc c), (Suc (Suc r), c), (Suc r, c), (Suc (Suc (Suc r)), Suc c)}"
    "((set (glider1 r c) - set (glider2 r c)) \<union> (set (glider2 r c) - set (glider1 r c))) \<inter> arena =
        {(Suc r, c), (Suc (Suc r), Suc c), (Suc (Suc r), c), (Suc (Suc (Suc r)), Suc (Suc c))}"
    "((set (glider2 r c) - set (glider3 r c)) \<union> (set (glider3 r c) - set (glider2 r c))) \<inter> arena =
        {(Suc r, Suc (Suc c)), (Suc (Suc r), c), (Suc r, Suc c), (Suc (Suc r), Suc (Suc (Suc c)))}"
    "((set (glider3 r c) - set (glider0 (Suc r) (Suc c))) \<union>
      (set (glider0 (Suc r) (Suc c)) - set (glider3 r c))) \<inter> arena =
        {(Suc r, Suc c), (Suc (Suc r), Suc (Suc c)), (Suc r, Suc (Suc c)),
         (Suc (Suc (Suc r)), Suc (Suc (Suc c)))}"
    using assms by (auto simp: glider_defs)
  then show "changedCells (patternMap (glider0 r c)) (patternMap (glider1 r c)) = 4"
    and "changedCells (patternMap (glider1 r c)) (patternMap (glider2 r c)) = 4"
    and "changedCells (patternMap (glider2 r c)) (patternMap (glider3 r c)) = 4"
    and "changedCells (patternMap (glider3 r c)) (patternMap (glider0 (Suc r) (Suc c))) = 4"
    by (simp_all add: changedCells_patternMap)
qed

section \<open>A remark on the count\<close>

text \<open>
  The count compares the stored bytes, not liveness. In a
  map whose live cells hold the value 2, a block survives as a block, no
  cell changes between alive and dead, and yet \<open>calcNextGen\<close> returns 4,
  because it stores 1 where 2 was. The count is the number of changes of
  liveness only for maps whose cells are 0 or 1.
\<close>

lemma calcNextGen_counts_bytes:
  assumes "game_wf s" and "currentGenMap s \<noteq> NullMap"
    and "Suc r < gameRows" and "Suc c < gameColumns"
    and "currentGen s = tabulate2 gameRows gameColumns (\<lambda>y x. if (y, x) \<in> set (block r c) then 2 else 0)"
  shows "map_sum id (\<lambda>(updates, s'). (updates, liveCells (currentGen s'))) (calcNextGen s) =
         Inr (4, liveCells (currentGen s))"
proof -
  let ?g = "tabulate2 gameRows gameColumns (\<lambda>y x. if (y, x) \<in> set (block r c) then 2 else 0 :: byte)"
  have live: "liveCells ?g = liveCells (patternMap (block r c))"
    by (auto simp: liveCells_def)
  then have nxt: "nextGen ?g = patternMap (block r c)"
    using assms(3,4) by (simp add: nextGen_liveCells_cong [OF live] nextGen_block)
  have "{(y, x). y < gameRows \<and> x < gameColumns \<and> nth2 ?g y x \<noteq> nth2 (patternMap (block r c)) y x}
        = set (block r c) \<inter> arena"
    by (auto split: if_splits)
  also have "\<dots> = set (block r c)"
    using pattern_facts(4) [OF assms(3,4)] by blast
  finally have "changedCells ?g (patternMap (block r c)) = 4"
    by (simp add: changedCells_def count2_card block_def)
  with assms(1,2,5) nxt live show ?thesis
    by (simp add: calcNextGen_ok)
qed

section \<open>Properties\<close>

text \<open>
  C33 (functional). A lone live cell dies: from a generation with one live
  cell \<open>calcNextGen\<close> returns 1 and the new generation is all dead.
\<close>

theorem lone_cell_dies:
  assumes "game_wf s" and "currentGenMap s \<noteq> NullMap" and "y < gameRows" and "x < gameColumns"
    and "currentGen s = patternMap [(y, x)]"
  shows "map_sum id (\<lambda>(updates, s'). (updates, currentGen s')) (calcNextGen s) = Inr (1, emptyMap)"
proof -
  have "changedCells (patternMap [(y, x)]) (patternMap []) = 1"
    using assms(3,4) by (simp add: changedCells_patternMap)
  with assms show ?thesis
    by (simp add: calcNextGen_ok nextGen_lone patternMap_Nil [symmetric])
qed

theorem lone_cell_dies_witness:
  "game_wf (patternGame [(0, 0)]) \<and> currentGenMap (patternGame [(0, 0)]) \<noteq> NullMap \<and>
   0 < gameRows \<and> 0 < gameColumns \<and> currentGen (patternGame [(0, 0)]) = patternMap [(0, 0)] \<and>
   map_sum id (\<lambda>(updates, s'). (updates, currentGen s')) (calcNextGen (patternGame [(0, 0)]))
     = Inr (1, emptyMap)"
proof -
  have h: "game_wf (patternGame [(0, 0)])" "currentGenMap (patternGame [(0, 0)]) \<noteq> NullMap"
    "0 < gameRows" "0 < gameColumns" "currentGen (patternGame [(0, 0)]) = patternMap [(0, 0)]"
    by simp_all
  from lone_cell_dies [OF h] h show ?thesis by simp
qed

text \<open>
  C32 (functional). The block is a still life: from a generation whose live
  cells are a 2 by 2 block, wherever it fits in the arena, edges included,
  \<open>calcNextGen\<close> returns 0 and the new generation is the same block.
\<close>

theorem block_still_life:
  assumes "game_wf s" and "currentGenMap s \<noteq> NullMap"
    and "Suc r < gameRows" and "Suc c < gameColumns"
    and "currentGen s = patternMap (block r c)"
  shows "map_sum id (\<lambda>(updates, s'). (updates, currentGen s')) (calcNextGen s) =
         Inr (0, patternMap (block r c))"
  using assms by (simp add: calcNextGen_ok nextGen_block)

theorem block_still_life_witness:
  "game_wf (patternGame (block 0 62)) \<and> currentGenMap (patternGame (block 0 62)) \<noteq> NullMap \<and>
   Suc 0 < gameRows \<and> Suc 62 < gameColumns \<and>
   currentGen (patternGame (block 0 62)) = patternMap (block 0 62) \<and>
   map_sum id (\<lambda>(updates, s'). (updates, currentGen s')) (calcNextGen (patternGame (block 0 62)))
     = Inr (0, patternMap (block 0 62))"
proof -
  have h: "game_wf (patternGame (block 0 62))" "currentGenMap (patternGame (block 0 62)) \<noteq> NullMap"
    "Suc 0 < gameRows" "Suc 62 < gameColumns"
    "currentGen (patternGame (block 0 62)) = patternMap (block 0 62)"
    by (simp_all add: gameRows_def gameColumns_def)
  from block_still_life [OF h] h show ?thesis by simp
qed

text \<open>
  C30 (functional). The blinker oscillates with period 2: from a horizontal
  row of three live cells, two calls of \<open>calcNextGen\<close> give first the vertical
  column of three through the same centre and then the horizontal row again;
  each call returns 4, and the row is back in the map it started in.
\<close>

theorem blinker_oscillates:
  assumes "game_wf s" and "currentGenMap s \<noteq> NullMap"
    and "Suc (Suc r) < gameRows" and "Suc (Suc c) < gameColumns"
    and "currentGen s = patternMap (blinkerH r c)"
  shows "bindR (calcNextGen s) (\<lambda>(u1, s1).
           bindR (calcNextGen s1) (\<lambda>(u2, s2).
             Inr (u1, currentGen s1, u2, currentGen s2, currentGenMap s2))) =
         Inr (4, patternMap (blinkerV r c), 4, patternMap (blinkerH r c), currentGenMap s)"
proof -
  obtain u1 s1 where s1: "calcNextGen s = Inr (u1, s1)"
    using calcNextGen_ok [OF assms(1,2)] by blast
  note f1 = calcNextGen_fields [OF assms(1,2) s1]
  have p1: "currentGenMap s1 \<noteq> NullMap" and g1: "currentGen s1 = patternMap (blinkerV r c)"
    and u1: "u1 = 4"
    using f1 assms(3-5) by (simp_all add: nextGen_blinkerH changedCells_blinker)
  obtain u2 s2 where s2: "calcNextGen s1 = Inr (u2, s2)"
    using calcNextGen_ok [OF f1(6) p1] by blast
  note f2 = calcNextGen_fields [OF f1(6) p1 s2]
  have "currentGen s2 = patternMap (blinkerH r c)" "u2 = 4" "currentGenMap s2 = currentGenMap s"
    using f2 f1(1) g1 assms(2-4) by (simp_all add: nextGen_blinkerV changedCells_blinker)
  with s1 s2 g1 u1 show ?thesis by simp
qed

theorem blinker_oscillates_witness:
  "game_wf blinkerGame \<and> currentGenMap blinkerGame \<noteq> NullMap \<and>
   Suc (Suc 9) < gameRows \<and> Suc (Suc 9) < gameColumns \<and>
   currentGen blinkerGame = patternMap (blinkerH 9 9) \<and>
   bindR (calcNextGen blinkerGame) (\<lambda>(u1, s1).
     bindR (calcNextGen s1) (\<lambda>(u2, s2).
       Inr (u1, currentGen s1, u2, currentGen s2, currentGenMap s2))) =
   Inr (4, patternMap (blinkerV 9 9), 4, blinkerMap, Map_1)"
proof -
  have h: "game_wf blinkerGame" "currentGenMap blinkerGame \<noteq> NullMap"
    "Suc (Suc 9) < gameRows" "Suc (Suc 9) < gameColumns"
    "currentGen blinkerGame = patternMap (blinkerH 9 9)"
    by (simp_all add: seeded_game_wf gameRows_def gameColumns_def blinkerMap_pattern)
  from blinker_oscillates [OF h] h show ?thesis by (simp add: blinkerMap_pattern)
qed

text \<open>
  C31 (functional). The glider moves: from a glider in the 4 by 4 box at
  \<open>(r, c)\<close>, wherever the box fits in the arena, four calls of \<open>calcNextGen\<close>
  give the same glider one row down and one column to the right, in the map
  it started in; each call returns 4.
\<close>

theorem glider_translates:
  assumes "game_wf s" and "currentGenMap s \<noteq> NullMap"
    and "Suc (Suc (Suc r)) < gameRows" and "Suc (Suc (Suc c)) < gameColumns"
    and "currentGen s = patternMap (glider0 r c)"
  shows "map_sum id (\<lambda>(us, s'). (us, currentGen s', currentGenMap s')) (generations 4 s) =
         Inr ([4, 4, 4, 4], patternMap (glider0 (Suc r) (Suc c)), currentGenMap s)"
proof -
  note g = nextGen_glider [OF assms(3,4)] changedCells_glider [OF assms(3,4)]
  from generations_ok [OF assms(1,2), of 4] obtain us s' where r: "generations 4 s = Inr (us, s')"
    "currentGen s' = (nextGen ^^ 4) (currentGen s)"
    "currentGenMap s' = (otherMap ^^ 4) (currentGenMap s)"
    "us = map (\<lambda>k. of_nat (changedCells ((nextGen ^^ k) (currentGen s))
                                       ((nextGen ^^ Suc k) (currentGen s)))) [0..<4]"
    by blast
  have "(nextGen ^^ 4) (currentGen s) = patternMap (glider0 (Suc r) (Suc c))"
    "(otherMap ^^ 4) (currentGenMap s) = currentGenMap s"
    using assms(2) by (simp_all add: eval_nat_numeral assms(5) g)
  moreover have "us = [4, 4, 4, 4]"
    unfolding r(4) by (simp add: eval_nat_numeral upt_rec assms(5) g)
  ultimately show ?thesis using r by simp
qed

theorem glider_translates_witness:
  "game_wf (patternGame (glider0 0 0)) \<and> currentGenMap (patternGame (glider0 0 0)) \<noteq> NullMap \<and>
   Suc (Suc (Suc 0)) < gameRows \<and> Suc (Suc (Suc 0)) < gameColumns \<and>
   currentGen (patternGame (glider0 0 0)) = patternMap (glider0 0 0) \<and>
   map_sum id (\<lambda>(us, s'). (us, currentGen s')) (generations 4 (patternGame (glider0 0 0))) =
   Inr ([4, 4, 4, 4], patternMap (glider0 1 1))"
proof -
  have h: "game_wf (patternGame (glider0 0 0))" "currentGenMap (patternGame (glider0 0 0)) \<noteq> NullMap"
    "Suc (Suc (Suc 0)) < gameRows" "Suc (Suc (Suc 0)) < gameColumns"
    "currentGen (patternGame (glider0 0 0)) = patternMap (glider0 0 0)"
    by (simp_all add: gameRows_def gameColumns_def)
  from glider_translates [OF h] h show ?thesis
    by (auto simp: map_sum_def split: sum.splits)
qed

end
