(* ===== verification/Init_Seed.thy ===== *)
theory Init_Seed
  imports Game_State
begin

text \<open>
  \<^verbatim>\<open>ConwaysGame::initSeed\<close> (\<^verbatim>\<open>src/src/simulation.h\<close>): the fill of both maps
  from the random source, the twelve cells of the fixed pattern, and the
  reset of the current-map pointer. The random source is the environment's:
  \<open>rnd k\<close> is the value the \<open>k\<close>-th call of \<^verbatim>\<open>random(2)\<close> returns, counted
  from the entry into \<open>initSeed\<close>; \<^verbatim>\<open>randomSeed(analogRead(26))\<close> in the
  random branch only chooses which sequence that is. The specification is
  \<open>seedMap\<close>, the first map after seeding.
\<close>

section \<open>The fill loops\<close>

text \<open>The loop state is the number of draws made so far and the object.\<close>

definition seedCell ::
  "(nat \<Rightarrow> int) \<Rightarrow> nat \<Rightarrow> nat \<Rightarrow> nat \<times> ConwaysGame \<Rightarrow> (nat \<times> ConwaysGame) result" where
  "seedCell rnd i j st =
     (let k = fst st; s = snd st in
      bindR (writeCell Map_1 (int i) (int j) (if rnd k = 1 then 1 else 0) s) (\<lambda>s1.
      bindR (writeCell Map_2 (int i) (int j) 0 s1) (\<lambda>s2.
      Inr (Suc k, s2))))"

definition fillRandom :: "(nat \<Rightarrow> int) \<Rightarrow> ConwaysGame \<Rightarrow> (nat \<times> ConwaysGame) result" where
  "fillRandom rnd s =
     forLoop 0 gameRows (\<lambda>i. forLoop 0 gameColumns (seedCell rnd i)) (0, s)"

section \<open>The fixed pattern\<close>

definition centerY :: byte where
  "centerY = of_nat (gameRows div 2 - 1)"

definition centerX :: byte where
  "centerX = of_nat (gameColumns div 2 - 1)"

text \<open>The cells set to 1, in the order of the assignments.\<close>

definition patternCells :: "(int \<times> int) list" where
  "patternCells =
     [(uint centerY - 1, uint centerX - 1), (uint centerY - 1, uint centerX),
      (uint centerY - 1, uint centerX + 1), (uint centerY, uint centerX - 1),
      (uint centerY, uint centerX + 1), (uint centerY + 1, uint centerX - 1),
      (uint centerY + 1, uint centerX), (uint centerY + 1, uint centerX + 1),
      (uint centerY, uint centerX + 2), (uint centerY, uint centerX - 2),
      (uint centerY + 4, uint centerX), (uint centerY - 4, uint centerX)]"

primrec writeCells :: "mapPtr \<Rightarrow> (int \<times> int) list \<Rightarrow> byte \<Rightarrow> ConwaysGame \<Rightarrow> ConwaysGame result" where
  "writeCells p [] v s = Inr s"
| "writeCells p (c # cs) v s = bindR (writeCell p (fst c) (snd c) v s) (writeCells p cs v)"

definition loadPattern :: "ConwaysGame \<Rightarrow> ConwaysGame result" where
  "loadPattern s = writeCells Map_1 patternCells 1 s"

section \<open>initSeed\<close>

definition initSeed :: "bool \<Rightarrow> (nat \<Rightarrow> int) \<Rightarrow> ConwaysGame \<Rightarrow> ConwaysGame result" where
  "initSeed rand rnd s =
     bindR (if rand then bindR (fillRandom rnd s) (\<lambda>st. Inr (snd st))
            else bindR (fillRandom rnd s) (\<lambda>st. loadPattern (snd st)))
       (\<lambda>s'. Inr (s'\<lparr>currentGenMap := Map_1\<rparr>))"

section \<open>Specification\<close>

definition randomMap :: "(nat \<Rightarrow> int) \<Rightarrow> genMap" where
  "randomMap rnd = tabulate2 gameRows gameColumns (\<lambda>y x. of_bool (rnd (y * gameColumns + x) = 1))"

definition fixedPattern :: "(nat \<times> nat) list" where
  "fixedPattern =
     [(14, 30), (14, 31), (14, 32), (15, 30), (15, 32), (16, 30), (16, 31), (16, 32),
      (15, 33), (15, 29), (19, 31), (11, 31)]"

definition seedMap :: "bool \<Rightarrow> (nat \<Rightarrow> int) \<Rightarrow> genMap" where
  "seedMap rand rnd =
     tabulate2 gameRows gameColumns
       (\<lambda>y x. of_bool ((\<not> rand \<and> (y, x) \<in> set fixedPattern) \<or> rnd (y * gameColumns + x) = 1))"

section \<open>Lemmas: the fill\<close>

lemma seedCell_ok:
  assumes "i < gameRows" and "j < gameColumns"
  shows "seedCell rnd i j (k, s) =
         Inr (Suc k, s\<lparr>genMap_1 := upd2 (genMap_1 s) i j (of_bool (rnd k = 1)),
                        genMap_2 := upd2 (genMap_2 s) i j 0\<rparr>)"
  using assms by (simp add: seedCell_def)

lemma seedRow_ok:
  assumes wf: "game_wf s" and i: "i < gameRows"
  shows "forLoop 0 gameColumns (seedCell rnd i) (k, s) =
         Inr (k + gameColumns,
              s\<lparr>genMap_1 := (genMap_1 s)[i := map (\<lambda>x. of_bool (rnd (k + x) = 1)) [0..<gameColumns]],
                genMap_2 := (genMap_2 s)[i := replicate gameColumns 0]\<rparr>)"
proof -
  let ?r1 = "map (\<lambda>x. of_bool (rnd (k + x) = 1)) [0..<gameColumns] :: byte list"
  let ?r2 = "replicate gameColumns 0 :: byte list"
  define g where "g j = (k + j,
      s\<lparr>genMap_1 := (genMap_1 s)[i := take j ?r1 @ drop j (genMap_1 s ! i)],
        genMap_2 := (genMap_2 s)[i := take j ?r2 @ drop j (genMap_2 s ! i)]\<rparr>)" for j
  have len: "i < length (genMap_1 s)" "i < length (genMap_2 s)"
    "length (genMap_1 s ! i) = gameColumns" "length (genMap_2 s ! i) = gameColumns"
    using wf i by (simp_all add: game_wf_def)
  have "seedCell rnd i j (g j) = Inr (g (Suc j))" if j: "j < gameColumns" for j
    using len j upd2_take_drop [of i "genMap_1 s" j ?r1] upd2_take_drop [of i "genMap_2 s" j ?r2]
    by (simp add: g_def seedCell_ok [OF i j])
  then have "forLoop 0 gameColumns (seedCell rnd i) (g 0) = Inr (g gameColumns)"
    by (intro forLoop_exact) simp_all
  then show ?thesis using len by (simp add: g_def)
qed

lemma fillRandom_ok:
  assumes wf: "game_wf s"
  shows "fillRandom rnd s =
         Inr (gameRows * gameColumns, s\<lparr>genMap_1 := randomMap rnd, genMap_2 := emptyMap\<rparr>)"
proof -
  let ?R = "randomMap rnd"
  define g where "g i = (i * gameColumns,
      s\<lparr>genMap_1 := take i ?R @ drop i (genMap_1 s),
        genMap_2 := take i emptyMap @ drop i (genMap_2 s)\<rparr>)" for i
  have wfs: "grid_wf (genMap_1 s)" "grid_wf (genMap_2 s)" "grid_wf ?R"
    using wf by (simp_all add: game_wf_def randomMap_def)
  have mid: "grid_wf (take i ?R @ drop i (genMap_1 s))"
    "grid_wf (take i emptyMap @ drop i (genMap_2 s))" for i
    using wfs grid_wf_emptyMap unfolding grid_wf_def by (simp_all add: rect_take_drop)
  have "forLoop 0 gameColumns (seedCell rnd i) (g i) = Inr (g (Suc i))" if i: "i < gameRows" for i
  proof -
    have rows: "?R ! i = map (\<lambda>x. of_bool (rnd (i * gameColumns + x) = 1)) [0..<gameColumns]"
      "emptyMap ! i = replicate gameColumns 0"
      using i by (simp_all add: randomMap_def emptyMap_def)
    have upd: "(take i ?R @ drop i (genMap_1 s))
                 [i := map (\<lambda>x. of_bool (rnd (i * gameColumns + x) = 1)) [0..<gameColumns]] =
               take (Suc i) ?R @ drop (Suc i) (genMap_1 s)"
      "(take i emptyMap @ drop i (genMap_2 s))[i := replicate gameColumns 0] =
       take (Suc i) emptyMap @ drop (Suc i) (genMap_2 s)"
      using i wfs by (simp_all add: take_drop_update flip: rows)
    have "game_wf (snd (g i))" using mid by (simp add: g_def game_wf_def)
    from seedRow_ok [OF this i, of rnd "i * gameColumns"] show ?thesis
      by (simp add: g_def upd)
  qed
  then have "forLoop 0 gameRows (\<lambda>i. forLoop 0 gameColumns (seedCell rnd i)) (g 0) = Inr (g gameRows)"
    by (intro forLoop_exact) simp_all
  then show ?thesis using wfs by (simp add: fillRandom_def g_def)
qed

section \<open>Lemmas: the pattern\<close>

lemma center_values [simp]: "uint centerY = 15" "uint centerX = 31"
  by (simp_all add: centerY_def centerX_def gameRows_def gameColumns_def)

lemma patternCells_fixedPattern:
  "patternCells = map (\<lambda>c. (int (fst c), int (snd c))) fixedPattern"
  by (simp add: patternCells_def fixedPattern_def)

lemma fixedPattern_inArena: "c \<in> set fixedPattern \<Longrightarrow> fst c < gameRows \<and> snd c < gameColumns"
  by (auto simp: fixedPattern_def gameRows_def gameColumns_def)

lemma writeCells_ok:
  assumes "p \<noteq> NullMap" and "\<And>c. c \<in> set cs \<Longrightarrow> fst c < gameRows \<and> snd c < gameColumns"
  shows "writeCells p (map (\<lambda>c. (int (fst c), int (snd c))) cs) v s =
         Inr (setMap p (fold (\<lambda>c g. upd2 g (fst c) (snd c) v) cs (mapOf p s)) s)"
  using assms(2)
proof (induction cs arbitrary: s)
  case Nil
  show ?case by simp
next
  case (Cons c cs)
  then have c: "fst c < gameRows" "snd c < gameColumns" by simp_all
  from Cons have "writeCells p (map (\<lambda>c. (int (fst c), int (snd c))) cs) v s' =
      Inr (setMap p (fold (\<lambda>c g. upd2 g (fst c) (snd c) v) cs (mapOf p s')) s')" for s'
    by simp
  with c assms(1) show ?case by simp
qed

lemma grid_wf_fold_upd2 [simp]:
  "grid_wf g \<Longrightarrow> grid_wf (fold (\<lambda>c g. upd2 g (fst c) (snd c) v) cs g)"
  by (induction cs arbitrary: g) simp_all

lemma nth2_fold_upd2:
  assumes "grid_wf g" and "\<And>c. c \<in> set cs \<Longrightarrow> fst c < gameRows \<and> snd c < gameColumns"
  shows "nth2 (fold (\<lambda>c g. upd2 g (fst c) (snd c) v) cs g) y x =
         (if (y, x) \<in> set cs then v else nth2 g y x)"
  using assms
proof (induction cs arbitrary: g)
  case Nil
  show ?case by simp
next
  case (Cons c cs)
  then have c: "fst c < gameRows" "snd c < gameColumns" by simp_all
  have "nth2 (fold (\<lambda>c g. upd2 g (fst c) (snd c) v) cs (upd2 g (fst c) (snd c) v)) y x =
        (if (y, x) \<in> set cs then v else nth2 (upd2 g (fst c) (snd c) v) y x)"
    using Cons.prems by (intro Cons.IH) simp_all
  with c Cons.prems(1) show ?case
    by (cases c) (auto simp: nth2_upd2_grid)
qed

lemma loadPattern_ok:
  assumes "game_wf s"
  shows "loadPattern s =
         Inr (s\<lparr>genMap_1 := fold (\<lambda>c g. upd2 g (fst c) (snd c) 1) fixedPattern (genMap_1 s)\<rparr>)"
  unfolding loadPattern_def patternCells_fixedPattern
  by (subst writeCells_ok) (simp_all add: fixedPattern_inArena)

section \<open>Lemmas: initSeed\<close>

lemma grid_wf_seedMap [simp]: "grid_wf (seedMap rand rnd)"
  by (simp add: seedMap_def)

lemma boolean_cells_seedMap [simp]: "boolean_cells (seedMap rand rnd)"
  by (simp add: seedMap_def)

lemma nth2_seedMap:
  "y < gameRows \<Longrightarrow> x < gameColumns \<Longrightarrow>
   nth2 (seedMap rand rnd) y x =
     of_bool ((\<not> rand \<and> (y, x) \<in> set fixedPattern) \<or> rnd (y * gameColumns + x) = 1)"
  by (simp add: seedMap_def)

lemma seedMap_random: "seedMap True rnd = randomMap rnd"
  by (simp add: seedMap_def randomMap_def)

lemma seedMap_overlay:
  "fold (\<lambda>c g. upd2 g (fst c) (snd c) 1) fixedPattern (randomMap rnd) = seedMap False rnd"
proof (rule grid_eqI)
  show "grid_wf (fold (\<lambda>c g. upd2 g (fst c) (snd c) 1) fixedPattern (randomMap rnd))"
    by (simp add: randomMap_def)
  show "grid_wf (seedMap False rnd)" by simp
next
  fix y x assume "y < gameRows" "x < gameColumns"
  then show "nth2 (fold (\<lambda>c g. upd2 g (fst c) (snd c) 1) fixedPattern (randomMap rnd)) y x =
             nth2 (seedMap False rnd) y x"
    by (simp add: nth2_fold_upd2 fixedPattern_inArena nth2_seedMap randomMap_def)
qed

lemma initSeed_ok:
  assumes "game_wf s"
  shows "initSeed rand rnd s =
         Inr (s\<lparr>genMap_1 := seedMap rand rnd, genMap_2 := emptyMap, currentGenMap := Map_1\<rparr>)"
proof -
  have "game_wf (s\<lparr>genMap_1 := randomMap rnd, genMap_2 := emptyMap\<rparr>)"
    by (simp add: game_wf_def randomMap_def)
  from loadPattern_ok [OF this] show ?thesis
    by (simp add: initSeed_def fillRandom_ok [OF assms] seedMap_random seedMap_overlay)
qed

lemma seedMap_cong:
  "(\<And>k. k < gameRows * gameColumns \<Longrightarrow> rnd k = rnd' k) \<Longrightarrow> seedMap rand rnd = seedMap rand rnd'"
proof -
  assume eq: "\<And>k. k < gameRows * gameColumns \<Longrightarrow> rnd k = rnd' k"
  have "y * gameColumns + x < gameRows * gameColumns" if "y < gameRows" "x < gameColumns" for y x
  proof -
    from that have "y * gameColumns + x < Suc y * gameColumns" by simp
    also from that have "\<dots> \<le> gameRows * gameColumns" by (intro mult_le_mono1) simp
    finally show ?thesis .
  qed
  then show ?thesis
    unfolding seedMap_def by (intro tabulate2_cong) (simp add: eq)
qed

section \<open>Properties\<close>

text \<open>
  C8 (invariant). \<open>initSeed\<close> establishes the invariant of a seeded game from
  any state with well-shaped maps, the freshly constructed object included:
  it returns without a fault, map 1 is current, every cell of it is 0 or 1,
  and map 2 is all dead.
\<close>

theorem initSeed_establishes_seeded:
  assumes "game_wf s"
  shows "case initSeed rand rnd s of Inl e \<Rightarrow> False
         | Inr s' \<Rightarrow> seeded s' \<and> currentGenMap s' = Map_1 \<and> genMap_2 s' = emptyMap"
  using assms by (simp add: initSeed_ok seeded_def game_wf_def)

theorem initSeed_establishes_seeded_witness:
  "game_wf (newConwaysGame 0) \<and> \<not> seeded (newConwaysGame 0) \<and>
   (case initSeed True (\<lambda>k. int (k mod 2)) (newConwaysGame 0) of Inl e \<Rightarrow> False
    | Inr s' \<Rightarrow> seeded s' \<and> currentGenMap s' = Map_1 \<and> genMap_2 s' = emptyMap)"
  using initSeed_establishes_seeded [of "newConwaysGame 0" True "\<lambda>k. int (k mod 2)"]
  by (simp add: not_seeded_new)

text \<open>
  C16 (functional). Random seeding reads the random source once per cell in
  row-major order: after \<open>initSeed True\<close> the cell in row \<open>y\<close> and column \<open>x\<close>
  of map 1 is alive exactly when draw number \<open>y * gameColumns + x\<close> returned 1.
\<close>

theorem initSeed_random:
  assumes "game_wf s" and "y < gameRows" and "x < gameColumns"
  shows "map_sum id (\<lambda>s'. nth2 (genMap_1 s') y x) (initSeed True rnd s) =
         Inr (of_bool (rnd (y * gameColumns + x) = 1))"
  using assms by (simp add: initSeed_ok nth2_seedMap)

theorem initSeed_random_witness:
  "game_wf (newConwaysGame 0) \<and> 1 < gameRows \<and> 3 < gameColumns \<and>
   map_sum id (\<lambda>s'. nth2 (genMap_1 s') 1 3) (initSeed True (\<lambda>k. int (k mod 2)) (newConwaysGame 0)) = Inr 1"
proof -
  have h: "game_wf (newConwaysGame 0)" "1 < gameRows" "3 < gameColumns"
    by (simp_all add: gameRows_def gameColumns_def)
  from initSeed_random [OF h, of "\<lambda>k. int (k mod 2)"] h show ?thesis
    by (simp add: gameColumns_def)
qed

text \<open>
  C17 (functional). The fixed pattern: when no draw returns 1, \<open>initSeed False\<close>
  leaves exactly twelve live cells in map 1, the eight neighbours of the
  centre (15, 31) and the four cells at (15, 33), (15, 29), (19, 31) and
  (11, 31); the centre itself is dead.
\<close>

theorem initSeed_fixed_pattern:
  assumes "game_wf s" and "\<And>k. rnd k \<noteq> 1"
  shows "map_sum id genMap_1 (initSeed False rnd s) =
           Inr (tabulate2 gameRows gameColumns (\<lambda>y x. of_bool ((y, x) \<in> set fixedPattern))) \<and>
         set fixedPattern =
           {(y, x). \<bar>int y - 15\<bar> \<le> 1 \<and> \<bar>int x - 31\<bar> \<le> 1 \<and> (y, x) \<noteq> (15, 31)} \<union>
           {(15, 33), (15, 29), (19, 31), (11, 31)} \<and>
         distinct fixedPattern \<and> length fixedPattern = 12"
proof -
  have "{(y, x). \<bar>int y - 15\<bar> \<le> 1 \<and> \<bar>int x - 31\<bar> \<le> 1 \<and> (y, x) \<noteq> (15, 31)} =
        {(14, 30), (14, 31), (14, 32), (15, 30), (15, 32), (16, 30), (16, 31), (16, 32 :: nat)}"
    (is "?L = ?R")
  proof (intro set_eqI iffI)
    fix p :: "nat \<times> nat" assume "p \<in> ?L"
    then have "fst p = 14 \<or> fst p = 15 \<or> fst p = 16" "snd p = 30 \<or> snd p = 31 \<or> snd p = 32"
      and "p \<noteq> (15, 31)" by auto
    then show "p \<in> ?R" by (cases p) auto
  qed auto
  then show ?thesis
    using assms by (auto simp: initSeed_ok seedMap_def fixedPattern_def)
qed

theorem initSeed_fixed_pattern_witness:
  "game_wf (newConwaysGame 0) \<and> (\<forall>k. (\<lambda>k. 0 :: int) k \<noteq> 1) \<and>
   map_sum id (\<lambda>s'. (nth2 (genMap_1 s') 14 30, nth2 (genMap_1 s') 15 31))
     (initSeed False (\<lambda>k. 0) (newConwaysGame 0)) = Inr (1, 0)"
proof -
  have h: "game_wf (newConwaysGame 0)" "\<And>k. (\<lambda>k. 0 :: int) k \<noteq> 1"
    by simp_all
  from initSeed_fixed_pattern [of "newConwaysGame 0" "\<lambda>k. 0", OF h] h show ?thesis
    by (auto simp: initSeed_ok fixedPattern_def gameRows_def gameColumns_def)
qed

text \<open>
  C18 (functional). The branch for the fixed pattern is not a clean start: it
  fills map 1 from the random source just as the random branch does and only
  then sets the twelve pattern cells. A cell outside the pattern is alive
  after \<open>initSeed False\<close> whenever its draw returned 1.
\<close>

theorem initSeed_fixed_keeps_random:
  assumes "game_wf s" and "y < gameRows" and "x < gameColumns"
    and "(y, x) \<notin> set fixedPattern"
  shows "map_sum id (\<lambda>s'. nth2 (genMap_1 s') y x) (initSeed False rnd s) =
         map_sum id (\<lambda>s'. nth2 (genMap_1 s') y x) (initSeed True rnd s)"
  using assms by (simp add: initSeed_ok nth2_seedMap)

theorem initSeed_fixed_keeps_random_witness:
  "game_wf (newConwaysGame 0) \<and> 0 < gameRows \<and> 0 < gameColumns \<and> (0, 0) \<notin> set fixedPattern \<and>
   map_sum id (\<lambda>s'. nth2 (genMap_1 s') 0 0) (initSeed False (\<lambda>k. 1) (newConwaysGame 0)) = Inr 1"
proof -
  have h: "game_wf (newConwaysGame 0)" "0 < gameRows" "0 < gameColumns" "(0, 0) \<notin> set fixedPattern"
    by (simp_all add: fixedPattern_def)
  from initSeed_fixed_keeps_random [OF h, of "\<lambda>k. 1"] h show ?thesis
    by (simp add: initSeed_ok nth2_seedMap)
qed

text \<open>
  C35 (functional). One call of \<open>initSeed\<close> makes 2048 draws, one per cell, and
  its result depends on nothing else: not on the maps it overwrites, and not
  on draws after the first 2048.
\<close>

theorem initSeed_draws:
  assumes "game_wf s" and "\<And>k. k < 2048 \<Longrightarrow> rnd k = rnd' k"
  shows "map_sum id fst (fillRandom rnd s) = Inr 2048 \<and>
         initSeed rand rnd s = initSeed rand rnd' s \<and>
         map_sum id genMap_1 (initSeed rand rnd s) = Inr (seedMap rand rnd)"
proof -
  have "seedMap rand rnd = seedMap rand rnd'"
    using assms(2) by (intro seedMap_cong) (simp add: arena_cells)
  with assms(1) show ?thesis
    by (simp add: initSeed_ok fillRandom_ok arena_cells)
qed

theorem initSeed_draws_witness:
  "game_wf deadGame \<and>
   initSeed True (\<lambda>k. 0) deadGame = initSeed True (\<lambda>k. if k < 2048 then 0 else 1) deadGame"
proof -
  have h: "game_wf deadGame" "\<And>k. k < 2048 \<Longrightarrow> (\<lambda>k. 0 :: int) k = (\<lambda>k. if k < 2048 then 0 else 1) k"
    by (simp_all add: seeded_game_wf)
  from initSeed_draws [of deadGame "\<lambda>k. 0" "\<lambda>k. if k < 2048 then 0 else 1" True, OF h] h
  show ?thesis by simp
qed

text \<open>
  C36 (bounds). The twelve positions of the fixed pattern, computed from the
  \<^verbatim>\<open>uint8_t\<close> centre with offsets down to -4 and up to +4, lie inside the
  arena, so loading the pattern never writes outside the array.
\<close>

theorem patternCells_inArena:
  "list_all (\<lambda>c. inArena (fst c) (snd c)) patternCells \<and>
   (game_wf s \<longrightarrow> (\<exists>s'. loadPattern s = Inr s'))"
  by (simp add: patternCells_def inArena_def gameRows_def gameColumns_def loadPattern_ok)

theorem patternCells_inArena_witness:
  "game_wf deadGame \<and> (\<exists>s'. loadPattern deadGame = Inr s')"
  using patternCells_inArena [of deadGame] by (simp add: seeded_game_wf)

end
