(* ===== verification/Draw_Cur_Gen.thy ===== *)
theory Draw_Cur_Gen
  imports Game_State
begin

text \<open>
  \<^verbatim>\<open>ConwaysGame::drawCurGen\<close> and the display it draws on. The calls the
  sources make on the outside world are values of the type \<open>call\<close>; a run of
  the program appends them to an output list (\<open>PROTOMATTER_ERR_OTHER\<close>
  stands for every status the sources do not name). \<open>drawCell\<close> is the body of the
  inner loop of \<^verbatim>\<open>drawCurGen\<close> and \<open>drawCurGen\<close> the function. \<open>color565\<close> is
  the colour packing of the display library. The reference semantics of the
  output is a canvas of \<open>matrixHeight\<close> rows and \<open>matrixWidth\<close> columns that
  \<open>drawPixel\<close> writes with clipping and \<open>show\<close> puts on display; the lemmas
  show that one \<^verbatim>\<open>drawCurGen\<close> repaints the whole canvas with the picture of
  the current generation.
\<close>

unbundle bit_operations_syntax

section \<open>Calls on the display, the serial port and the clock\<close>

datatype ProtomatterStatus = PROTOMATTER_OK | PROTOMATTER_ERR_PINS | PROTOMATTER_ERR_OTHER

datatype call =
    DrawPixel int int uint16
  | Show
  | SetTextSize nat
  | Println string
  | Delay nat
  | SerialPrint string
  | SerialPrintStatus ProtomatterStatus

definition color565 :: "byte \<Rightarrow> byte \<Rightarrow> byte \<Rightarrow> uint16" where
  "color565 red green blue =
     push_bit 8 (ucast red AND 0xF8) OR push_bit 3 (ucast green AND 0xFC) OR drop_bit 3 (ucast blue)"

text \<open>The first constructor: the colour defaults to red.\<close>

definition newConwaysGameRed :: ConwaysGame where
  "newConwaysGameRed = (newConwaysGame 0)\<lparr>simColor := color565 255 0 0\<rparr>"

section \<open>drawCurGen\<close>

definition drawCell :: "ConwaysGame \<Rightarrow> nat \<Rightarrow> nat \<Rightarrow> call list \<Rightarrow> call list result" where
  "drawCell s i j out =
     bindR (readCell (currentGenMap s) (int i) (int j) s) (\<lambda>cell.
       if cell \<noteq> 0 then Inr (out @ [DrawPixel (int j) (int i) (simColor s)])
       else Inr (out @ [DrawPixel (int j) (int i) (color565 0 0 0)]))"

definition drawCurGen :: "ConwaysGame \<Rightarrow> call list \<Rightarrow> call list result" where
  "drawCurGen s out = forLoop 0 gameRows (\<lambda>i. forLoop 0 gameColumns (drawCell s i)) out"

section \<open>Specification: the picture of a generation\<close>

definition pixelColor :: "uint16 \<Rightarrow> genMap \<Rightarrow> nat \<Rightarrow> nat \<Rightarrow> uint16" where
  "pixelColor c g y x = (if nth2 g y x \<noteq> 0 then c else 0)"

definition rowPixels :: "uint16 \<Rightarrow> genMap \<Rightarrow> nat \<Rightarrow> call list" where
  "rowPixels c g y = map (\<lambda>x. DrawPixel (int x) (int y) (pixelColor c g y x)) [0..<gameColumns]"

definition framePixels :: "uint16 \<Rightarrow> genMap \<Rightarrow> call list" where
  "framePixels c g = concat (map (rowPixels c g) [0..<gameRows])"

section \<open>Reference semantics: the canvas\<close>

type_synonym canvas = "uint16 list list"

text \<open>
  The panel is as wide as the chain of matrices and has two rows for each
  value of the address lines.
\<close>

definition matrix_chain_width :: nat where
  "matrix_chain_width = 64"

definition address_lines_num :: nat where
  "address_lines_num = 4"

definition matrixWidth :: nat where
  "matrixWidth = matrix_chain_width"

definition matrixHeight :: nat where
  "matrixHeight = 2 * 2 ^ address_lines_num"

definition canvas_wf :: "canvas \<Rightarrow> bool" where
  "canvas_wf cv = rect matrixHeight matrixWidth cv"

definition drawPixel :: "int \<Rightarrow> int \<Rightarrow> uint16 \<Rightarrow> canvas \<Rightarrow> canvas" where
  "drawPixel x y c cv =
     (if 0 \<le> x \<and> x < int matrixWidth \<and> 0 \<le> y \<and> y < int matrixHeight
      then upd2 cv (nat y) (nat x) c else cv)"

text \<open>
  The effect of a call on the canvas. What printed text looks like is left
  to the parameter \<open>render\<close>: the lemmas hold for every text renderer.
\<close>

primrec paint :: "(string \<Rightarrow> canvas \<Rightarrow> canvas) \<Rightarrow> call \<Rightarrow> canvas \<Rightarrow> canvas" where
  "paint render (DrawPixel x y c) cv = drawPixel x y c cv"
| "paint render Show cv = cv"
| "paint render (SetTextSize n) cv = cv"
| "paint render (Println t) cv = render t cv"
| "paint render (Delay ms) cv = cv"
| "paint render (SerialPrint t) cv = cv"
| "paint render (SerialPrintStatus st) cv = cv"

definition canvasAfter :: "(string \<Rightarrow> canvas \<Rightarrow> canvas) \<Rightarrow> call list \<Rightarrow> canvas \<Rightarrow> canvas" where
  "canvasAfter render out cv = fold (paint render) out cv"

text \<open>The frames put on display: the canvas at each \<open>Show\<close>.\<close>

primrec shownFrames :: "(string \<Rightarrow> canvas \<Rightarrow> canvas) \<Rightarrow> call list \<Rightarrow> canvas \<Rightarrow> canvas list" where
  "shownFrames render [] cv = []"
| "shownFrames render (c # out) cv =
     (if c = Show then [cv] else []) @ shownFrames render out (paint render c cv)"

definition frame :: "uint16 \<Rightarrow> genMap \<Rightarrow> canvas" where
  "frame c g = tabulate2 gameRows gameColumns (pixelColor c g)"

section \<open>Lemmas: colours\<close>

lemma matrix_size [simp]: "matrixWidth = 64" "matrixHeight = 32"
  by (simp_all add: matrixWidth_def matrixHeight_def matrix_chain_width_def address_lines_num_def)

lemma color565_black [simp]: "color565 0 0 0 = 0"
  by (simp add: color565_def)

lemma color565_red: "color565 255 0 0 = 0xF800"
  by (simp add: color565_def)

lemma color565_simColor: "color565 125 76 0 = 0x7A60"
  by (simp add: color565_def)

lemma color565_masks:
  "(0xF8 :: uint16) = push_bit 3 (mask 5)" "(0xFC :: uint16) = push_bit 2 (mask 6)"
  "(0x3F :: uint16) = mask 6" "(0x1F :: uint16) = mask 5"
  by (simp_all add: mask_eq_exp_minus_1)

lemmas color565_bits = color565_def color565_masks bit_simps

lemma newConwaysGameRed_simps [simp]:
  "simColor newConwaysGameRed = 0xF800"
  "genMap_1 newConwaysGameRed = emptyMap"
  "genMap_2 newConwaysGameRed = emptyMap"
  "currentGenMap newConwaysGameRed = NullMap"
  "nextGenMap newConwaysGameRed = NullMap"
  by (simp_all add: newConwaysGameRed_def newConwaysGame_def color565_red emptyMap_def)

section \<open>Lemmas: drawCurGen\<close>

lemma drawCell_ok:
  assumes "currentGenMap s \<noteq> NullMap" and "i < gameRows" and "j < gameColumns"
  shows "drawCell s i j out =
         Inr (out @ [DrawPixel (int j) (int i) (pixelColor (simColor s) (currentGen s) i j)])"
  using assms by (simp add: drawCell_def pixelColor_def)

lemma drawRow_ok:
  assumes p: "currentGenMap s \<noteq> NullMap" and i: "i < gameRows"
  shows "forLoop 0 gameColumns (drawCell s i) out =
         Inr (out @ rowPixels (simColor s) (currentGen s) i)"
proof -
  define g where "g j = out @ take j (rowPixels (simColor s) (currentGen s) i)" for j
  have "drawCell s i j (g j) = Inr (g (Suc j))" if "j < gameColumns" for j
    using that by (simp add: g_def drawCell_ok [OF p i] take_Suc_conv_app_nth rowPixels_def)
  then have "forLoop 0 gameColumns (drawCell s i) (g 0) = Inr (g gameColumns)"
    by (intro forLoop_exact) simp_all
  then show ?thesis by (simp add: g_def rowPixels_def)
qed

lemma drawCurGen_ok:
  assumes p: "currentGenMap s \<noteq> NullMap"
  shows "drawCurGen s out = Inr (out @ framePixels (simColor s) (currentGen s))"
proof -
  define g where
    "g i = out @ concat (map (rowPixels (simColor s) (currentGen s)) [0..<i])" for i
  have "forLoop 0 gameColumns (drawCell s i) (g i) = Inr (g (Suc i))" if "i < gameRows" for i
    by (simp add: g_def drawRow_ok [OF p that])
  then have "forLoop 0 gameRows (\<lambda>i. forLoop 0 gameColumns (drawCell s i)) (g 0) = Inr (g gameRows)"
    by (intro forLoop_exact) simp_all
  then show ?thesis by (simp add: g_def drawCurGen_def framePixels_def)
qed

lemma drawCurGen_null:
  assumes "currentGenMap s = NullMap"
  shows "drawCurGen s out = Inl NullPointer"
proof -
  have "drawCell s 0 0 out = Inl NullPointer"
    using assms by (simp add: drawCell_def readCell_def)
  then have "forLoop 0 gameColumns (drawCell s 0) out = Inl NullPointer"
    by (simp add: forLoop_step gameColumns_def)
  then show ?thesis
    by (simp add: drawCurGen_def forLoop_step gameRows_def)
qed

lemma length_rowPixels [simp]: "length (rowPixels c g y) = gameColumns"
  by (simp add: rowPixels_def)

lemma length_framePixels: "length (framePixels c g) = gameRows * gameColumns"
  by (simp add: framePixels_def length_concat comp_def sum_list_triv)

section \<open>Lemmas: the canvas\<close>

lemma canvasAfter_simps [simp]:
  "canvasAfter render [] cv = cv"
  "canvasAfter render (c # out) cv = canvasAfter render out (paint render c cv)"
  "canvasAfter render (out @ out') cv = canvasAfter render out' (canvasAfter render out cv)"
  by (simp_all add: canvasAfter_def)

lemma shownFrames_append [simp]:
  "shownFrames render (out @ out') cv =
   shownFrames render out cv @ shownFrames render out' (canvasAfter render out cv)"
  by (induction out arbitrary: cv) simp_all

lemma drawPixel_inside:
  "x < matrixWidth \<Longrightarrow> y < matrixHeight \<Longrightarrow> drawPixel (int x) (int y) c cv = upd2 cv y x c"
  by (simp add: drawPixel_def)

lemma drawPixel_outside:
  "x < 0 \<or> int matrixWidth \<le> x \<or> y < 0 \<or> int matrixHeight \<le> y \<Longrightarrow> drawPixel x y c cv = cv"
  by (auto simp: drawPixel_def)

lemma canvas_wf_drawPixel [simp]: "canvas_wf cv \<Longrightarrow> canvas_wf (drawPixel x y c cv)"
  by (simp add: drawPixel_def canvas_wf_def)

lemma canvas_wf_canvasAfter:
  assumes "\<And>t cv. canvas_wf cv \<Longrightarrow> canvas_wf (render t cv)"
  shows "canvas_wf cv \<Longrightarrow> canvas_wf (canvasAfter render out cv)"
proof (induction out arbitrary: cv)
  case Nil
  then show ?case by simp
next
  case (Cons c out)
  with assms have "canvas_wf (paint render c cv)" by (cases c) simp_all
  with Cons.IH show ?case by simp
qed

lemma canvas_wf_frame [simp]: "canvas_wf (frame c g)"
  by (simp add: canvas_wf_def frame_def gameRows_def gameColumns_def)

lemma nth2_frame [simp]:
  "y < gameRows \<Longrightarrow> x < gameColumns \<Longrightarrow> nth2 (frame c g) y x = pixelColor c g y x"
  by (simp add: frame_def)

lemma no_frame_in_pixels [simp]: "shownFrames render (framePixels c g) cv = []"
proof -
  have "Show \<notin> set out \<Longrightarrow> shownFrames render out cv = []" for out
    by (induction out arbitrary: cv) auto
  moreover have "Show \<notin> set (framePixels c g)"
    by (auto simp: framePixels_def rowPixels_def)
  ultimately show ?thesis by simp
qed

lemma canvasAfter_framePixels:
  assumes "canvas_wf cv"
  shows "canvasAfter render (framePixels c g) cv = frame c g"
proof -
  have row: "fold (paint render) (rowPixels c g y) h =
             fold (\<lambda>x h. upd2 h y x (pixelColor c g y x)) [0..<gameColumns] h"
    if "y < gameRows" for y h
    using that unfolding rowPixels_def fold_map
    by (intro fold_cong)
       (simp_all add: fun_eq_iff drawPixel_inside gameRows_def gameColumns_def
         )
  have "canvasAfter render (framePixels c g) cv =
        fold (\<lambda>y. fold (paint render) (rowPixels c g y)) [0..<gameRows] cv"
    by (simp add: canvasAfter_def framePixels_def fold_concat fold_map comp_def)
  also have "\<dots> = fold (\<lambda>y h. fold (\<lambda>x h. upd2 h y x (pixelColor c g y x)) [0..<gameColumns] h)
                     [0..<gameRows] cv"
    by (intro fold_cong) (simp_all add: row fun_eq_iff)
  also have "\<dots> = frame c g"
    using assms unfolding frame_def
    by (intro fold_upd2_grid)
       (simp add: canvas_wf_def gameRows_def gameColumns_def)
  finally show ?thesis .
qed

section \<open>Properties\<close>

text \<open>
  C19 (functional). \<open>drawCurGen\<close> on a game with a non-null current map
  returns without a fault and makes exactly one \<open>drawPixel\<close> call per cell, in
  row-major order, with the column as x and the row as y: the simulation's
  colour for a nonzero cell and 0 (black) for a zero cell. It makes no other
  call.
\<close>

theorem drawCurGen_pixels:
  assumes "currentGenMap s \<noteq> NullMap"
  shows "drawCurGen s out = Inr (out @ framePixels (simColor s) (currentGen s)) \<and>
         length (framePixels (simColor s) (currentGen s)) = 2048 \<and>
         (\<forall>y < gameRows. \<forall>x < gameColumns.
            framePixels (simColor s) (currentGen s) ! (y * gameColumns + x) =
            DrawPixel (int x) (int y) (if nth2 (currentGen s) y x \<noteq> 0 then simColor s else 0))"
proof -
  let ?c = "simColor s" and ?g = "currentGen s"
  have "framePixels ?c ?g ! (y * gameColumns + x) = DrawPixel (int x) (int y) (pixelColor ?c ?g y x)"
    if "y < gameRows" "x < gameColumns" for y x
  proof -
    have "concat (map (rowPixels ?c ?g) [0..<gameRows]) ! (y * gameColumns + x) =
          map (rowPixels ?c ?g) [0..<gameRows] ! y ! x"
      using that by (intro nth_concat_rect) auto
    with that show ?thesis by (simp add: framePixels_def rowPixels_def)
  qed
  then show ?thesis
    by (simp add: drawCurGen_ok [OF assms] length_framePixels pixelColor_def
        gameRows_def gameColumns_def)
qed

theorem drawCurGen_pixels_witness:
  "currentGenMap blinkerGame \<noteq> NullMap \<and> 10 < gameRows \<and> 9 < gameColumns \<and>
   (case drawCurGen blinkerGame [] of Inl e \<Rightarrow> False
    | Inr out \<Rightarrow> length out = 2048 \<and>
        out ! (10 * gameColumns + 9) = DrawPixel 9 10 (simColor blinkerGame))"
proof -
  have h: "currentGenMap blinkerGame \<noteq> NullMap" by simp
  have c: "nth2 (currentGen blinkerGame) 10 9 = 1" "10 < gameRows" "9 < gameColumns"
    by (simp_all add: nth2_blinkerMap gameRows_def gameColumns_def)
  from drawCurGen_pixels [OF h, of "[]"]
  have r: "drawCurGen blinkerGame [] = Inr (framePixels (simColor blinkerGame) (currentGen blinkerGame))"
    "length (framePixels (simColor blinkerGame) (currentGen blinkerGame)) = 2048"
    and n: "\<forall>y < gameRows. \<forall>x < gameColumns.
      framePixels (simColor blinkerGame) (currentGen blinkerGame) ! (y * gameColumns + x) =
      DrawPixel (int x) (int y)
        (if nth2 (currentGen blinkerGame) y x \<noteq> 0 then simColor blinkerGame else 0)"
    by simp_all
  from n [rule_format, OF c(2,3)] c h r show ?thesis by simp
qed

text \<open>
  C20 (functional). One \<open>drawCurGen\<close> repaints the whole canvas: whatever
  was drawn before, printed text included (by any text renderer that keeps the
  canvas's shape), the canvas after the calls of
  \<open>drawCurGen\<close> is the picture of the current generation, pixel (x, y) in the
  simulation's colour when cell (row y, column x) is nonzero and black
  otherwise. Nothing is put on display by \<open>drawCurGen\<close> itself.
\<close>

theorem drawCurGen_repaints:
  assumes "currentGenMap s \<noteq> NullMap" and "canvas_wf cv"
    and "\<And>t cv. canvas_wf cv \<Longrightarrow> canvas_wf (render t cv)"
  shows "map_sum id (\<lambda>out'. (canvasAfter render out' cv, shownFrames render out' cv))
           (drawCurGen s out) =
         Inr (frame (simColor s) (currentGen s), shownFrames render out cv)"
  using assms
  by (simp add: drawCurGen_ok canvasAfter_framePixels canvas_wf_canvasAfter)

theorem drawCurGen_repaints_witness:
  "currentGenMap blinkerGame \<noteq> NullMap \<and> canvas_wf (frame 5 emptyMap) \<and>
   map_sum id (\<lambda>out'. canvasAfter (\<lambda>t cv. cv) out' (frame 5 emptyMap))
     (drawCurGen blinkerGame [Show]) = Inr (frame (simColor blinkerGame) blinkerMap)"
proof -
  have h: "currentGenMap blinkerGame \<noteq> NullMap" "canvas_wf (frame 5 emptyMap)"
    "\<And>t cv. canvas_wf cv \<Longrightarrow> canvas_wf ((\<lambda>t cv. cv) t cv)" by simp_all
  from drawCurGen_repaints [where render = "\<lambda>t cv. cv" and out = "[Show]", OF h(1,2)] h(1,2)
  show ?thesis
    by (auto simp: map_sum_def split: sum.splits)
qed

text \<open>
  C37 (error). \<open>drawCurGen\<close> on the object as constructed, before
  \<open>initSeed\<close>, reads through the null current-map pointer.
\<close>

theorem drawCurGen_unseeded:
  "drawCurGen (newConwaysGame color) out = Inl NullPointer \<and>
   drawCurGen newConwaysGameRed out = Inl NullPointer"
  by (simp add: drawCurGen_null newConwaysGame_def)

text \<open>
  C38 (bounds). The colour packing keeps the five, six and five most
  significant bits of red, green and blue in disjoint fields of the 16-bit
  word: the fields are recovered by shifting and masking, black is 0, and the
  default red is \<open>0xF800\<close>.
\<close>

theorem color565_fields:
  "drop_bit 11 (color565 r g b) = ucast (drop_bit 3 r) \<and>
   drop_bit 5 (color565 r g b) AND 0x3F = ucast (drop_bit 2 g) \<and>
   color565 r g b AND 0x1F = ucast (drop_bit 3 b) \<and>
   color565 0 0 0 = 0 \<and> color565 255 0 0 = 0xF800"
proof (intro conjI)
  show "drop_bit 11 (color565 r g b) = ucast (drop_bit 3 r)"
    by (rule bit_word_eqI) (auto simp: color565_bits dest: bit_imp_le_length)
  show "drop_bit 5 (color565 r g b) AND 0x3F = ucast (drop_bit 2 g)"
    by (rule bit_word_eqI) (auto simp: color565_bits dest: bit_imp_le_length)
  show "color565 r g b AND 0x1F = ucast (drop_bit 3 b)"
    by (rule bit_word_eqI) (auto simp: color565_bits dest: bit_imp_le_length)
qed (simp_all add: color565_red)

end
