(* ===== verification/Main_Loop.thy ===== *)
theory Main_Loop
  imports Calc_Next_Gen Init_Seed Draw_Cur_Gen
begin

text \<open>
  The driver of \<^verbatim>\<open>src/src/main.cpp\<close>. The record \<open>sketch\<close> holds the globals
  that change: the object \<^verbatim>\<open>simulation\<close>, the counter \<^verbatim>\<open>cellsUpdated\<close>, and the
  calls made so far on the display, the serial port and the clock.
  \<open>setup_sketch\<close> is \<^verbatim>\<open>setup\<close> and \<open>loop\<close> is \<^verbatim>\<open>loop\<close>; each takes the draws of
  the random source during that call. \<open>printForever\<close> is the endless loop in
  which \<^verbatim>\<open>setup\<close> ends when the display does not start. \<open>run\<close> iterates
  \<open>loop\<close> and \<open>reachable\<close> is the set of states the program passes through
  between calls of \<^verbatim>\<open>loop\<close>.
\<close>

section \<open>State\<close>

record sketch =
  simulation :: ConwaysGame
  cellsUpdated :: uint32
  calls :: "call list"

definition rgbSimColor :: "byte \<times> byte \<times> byte" where
  "rgbSimColor = (125, 76, 0)"

definition updateThreshold :: uint32 where
  "updateThreshold = 35"

definition initialSketch :: sketch where
  "initialSketch =
     \<lparr>simulation = newConwaysGame (case rgbSimColor of (r, g, b) \<Rightarrow> color565 r g b),
      cellsUpdated = 0, calls = []\<rparr>"

section \<open>setup\<close>

partial_function (option) printForever :: "string \<Rightarrow> call list \<Rightarrow> call list option" where
  "printForever msg out = printForever msg (out @ [SerialPrint msg])"

definition bannerText :: string where
  "bannerText = ''Conway's \<newline>Game \<newline>of \<newline>Life.''"

definition setup_sketch :: "ProtomatterStatus \<Rightarrow> (nat \<Rightarrow> int) \<Rightarrow> sketch \<Rightarrow> sketch result option" where
  "setup_sketch status rnd sk =
     (let out0 = calls sk @ [SerialPrint ''Protomatter begin() status: '', SerialPrintStatus status] in
      Option.bind
        (if status = PROTOMATTER_ERR_PINS
         then printForever ''RGB and clock pins are not on the same PORT!\<newline>'' out0
         else if status \<noteq> PROTOMATTER_OK
         then printForever ''Error initializing the matrix!'' out0
         else Some out0)
        (\<lambda>out1.
          let out2 = out1 @ [SetTextSize 1, Println bannerText, Show, Delay 5000] in
          Some (bindR (initSeed True rnd (simulation sk)) (\<lambda>g.
                bindR (drawCurGen g out2) (\<lambda>out3.
                Inr (sk\<lparr>simulation := g, calls := out3 @ [Show, Delay 2000]\<rparr>))))))"

section \<open>loop\<close>

definition loop :: "(nat \<Rightarrow> int) \<Rightarrow> sketch \<Rightarrow> sketch result" where
  "loop rnd sk =
     bindR (if cellsUpdated sk \<le> updateThreshold
            then initSeed True rnd (simulation sk) else Inr (simulation sk)) (\<lambda>g1.
     bindR (calcNextGen g1) (\<lambda>(updates, g2).
     bindR (drawCurGen g2 (calls sk)) (\<lambda>out.
     Inr (sk\<lparr>simulation := g2, cellsUpdated := updates, calls := out @ [Show, Delay 100]\<rparr>))))"

text \<open>
  \<open>run n rnds\<close> is \<open>n\<close> calls of \<open>loop\<close>, call number \<open>k\<close> with the draws
  \<open>rnds k\<close>. \<open>reachable\<close> are the states after \<open>setup\<close> and any number of calls.
\<close>

primrec run :: "nat \<Rightarrow> (nat \<Rightarrow> nat \<Rightarrow> int) \<Rightarrow> sketch \<Rightarrow> sketch result" where
  "run 0 rnds sk = Inr sk"
| "run (Suc n) rnds sk = bindR (run n rnds sk) (loop (rnds n))"

inductive reachable :: "sketch \<Rightarrow> bool" where
  boot: "setup_sketch PROTOMATTER_OK rnd initialSketch = Some (Inr sk) \<Longrightarrow> reachable sk"
| tick: "reachable sk \<Longrightarrow> loop rnd sk = Inr sk' \<Longrightarrow> reachable sk'"

section \<open>Invariant\<close>

definition sketch_inv :: "sketch \<Rightarrow> bool" where
  "sketch_inv sk \<longleftrightarrow>
     seeded (simulation sk) \<and> simColor (simulation sk) = 0x7A60 \<and>
     unat (cellsUpdated sk) \<le> gameRows * gameColumns"

section \<open>Specification\<close>

text \<open>The generation a call of \<open>loop\<close> advances: a fresh random one after a quiet step.\<close>

definition tickGen :: "(nat \<Rightarrow> int) \<Rightarrow> sketch \<Rightarrow> genMap" where
  "tickGen rnd sk =
     (if cellsUpdated sk \<le> updateThreshold then randomMap rnd else currentGen (simulation sk))"

text \<open>
  The driver as a function on generations. The abstract state is the current
  generation and the number of cells the last step changed; \<open>lifeTick\<close> is
  one call of \<open>loop\<close> and \<open>lifeRun\<close> any number of them.
\<close>

definition lifeTick :: "(nat \<Rightarrow> int) \<Rightarrow> genMap \<times> nat \<Rightarrow> genMap \<times> nat" where
  "lifeTick rnd st =
     (let g = (if snd st \<le> 35 then randomMap rnd else fst st)
      in (nextGen g, changedCells g (nextGen g)))"

primrec lifeRun :: "nat \<Rightarrow> (nat \<Rightarrow> nat \<Rightarrow> int) \<Rightarrow> genMap \<times> nat \<Rightarrow> genMap \<times> nat" where
  "lifeRun 0 rnds st = st"
| "lifeRun (Suc n) rnds st = lifeTick (rnds n) (lifeRun n rnds st)"

definition absSketch :: "sketch \<Rightarrow> genMap \<times> nat" where
  "absSketch sk = (currentGen (simulation sk), unat (cellsUpdated sk))"

text \<open>The calls of one call of \<open>loop\<close> that leaves the generation \<open>g\<close>.\<close>

definition tickCalls :: "genMap \<Rightarrow> call list" where
  "tickCalls g = framePixels 0x7A60 g @ [Show, Delay 100]"

definition bootCalls :: "call list" where
  "bootCalls =
     [SerialPrint ''Protomatter begin() status: '', SerialPrintStatus PROTOMATTER_OK,
      SetTextSize 1, Println bannerText, Show, Delay 5000]"

text \<open>The state in which \<open>setup\<close> leaves the program.\<close>

definition bootedSketch :: "(nat \<Rightarrow> int) \<Rightarrow> sketch" where
  "bootedSketch rnd =
     \<lparr>simulation = (newConwaysGame 0x7A60)
        \<lparr>genMap_1 := randomMap rnd, genMap_2 := emptyMap, currentGenMap := Map_1\<rparr>,
      cellsUpdated = 0,
      calls = bootCalls @ framePixels 0x7A60 (randomMap rnd) @ [Show, Delay 2000]\<rparr>"

section \<open>Lemmas: setup\<close>

lemma printForever_None [simp]: "printForever msg out = None"
proof (cases "printForever msg out")
  case (Some y)
  then have False
    using printForever.raw_induct [where P = "\<lambda>msg out y. False"] by blast
  then show ?thesis ..
qed simp

lemma initialSketch_simps [simp]:
  "simColor (simulation initialSketch) = 0x7A60" "game_wf (simulation initialSketch)"
  "currentGenMap (simulation initialSketch) = NullMap" "cellsUpdated initialSketch = 0"
  "calls initialSketch = []"
  by (simp_all add: initialSketch_def rgbSimColor_def color565_simColor newConwaysGame_def
      game_wf_def grid_wf_def)

lemma setup_sketch_ok:
  assumes "game_wf (simulation sk)"
  shows "setup_sketch PROTOMATTER_OK rnd sk =
         Some (Inr (sk\<lparr>simulation := (simulation sk)
                          \<lparr>genMap_1 := randomMap rnd, genMap_2 := emptyMap, currentGenMap := Map_1\<rparr>,
                        calls := calls sk @ bootCalls @
                          framePixels (simColor (simulation sk)) (randomMap rnd) @ [Show, Delay 2000]\<rparr>))"
  by (simp add: setup_sketch_def initSeed_ok [OF assms] seedMap_random drawCurGen_ok bootCalls_def)

lemma setup_sketch_error:
  "status \<noteq> PROTOMATTER_OK \<Longrightarrow> setup_sketch status rnd sk = None"
  by (simp add: setup_sketch_def Let_def)

section \<open>Lemmas: loop\<close>

lemma loop_ok:
  assumes wf: "game_wf (simulation sk)"
    and p: "updateThreshold < cellsUpdated sk \<Longrightarrow> currentGenMap (simulation sk) \<noteq> NullMap"
  shows "\<exists>sk'. loop rnd sk = Inr sk' \<and>
           game_wf (simulation sk') \<and> currentGenMap (simulation sk') \<noteq> NullMap \<and>
           currentGen (simulation sk') = nextGen (tickGen rnd sk) \<and>
           cellsUpdated sk' = of_nat (changedCells (tickGen rnd sk) (nextGen (tickGen rnd sk))) \<and>
           simColor (simulation sk') = simColor (simulation sk) \<and>
           calls sk' = calls sk @ framePixels (simColor (simulation sk)) (nextGen (tickGen rnd sk))
                         @ [Show, Delay 100]"
proof -
  define g1 where "g1 = (if cellsUpdated sk \<le> updateThreshold
      then (simulation sk)\<lparr>genMap_1 := randomMap rnd, genMap_2 := emptyMap, currentGenMap := Map_1\<rparr>
      else simulation sk)"
  have seed: "(if cellsUpdated sk \<le> updateThreshold
               then initSeed True rnd (simulation sk) else Inr (simulation sk)) = Inr g1"
    by (simp add: g1_def initSeed_ok [OF wf] seedMap_random)
  have g1: "game_wf g1" "currentGenMap g1 \<noteq> NullMap" "currentGen g1 = tickGen rnd sk"
    "simColor g1 = simColor (simulation sk)"
    using wf p by (auto simp: g1_def tickGen_def game_wf_def randomMap_def)
  obtain u g2 where step: "calcNextGen g1 = Inr (u, g2)"
    using calcNextGen_ok [OF g1(1,2)] by blast
  note f = calcNextGen_fields [OF g1(1,2) step]
  have "currentGenMap g2 \<noteq> NullMap" using f(1) by simp
  then have "loop rnd sk = Inr (sk\<lparr>simulation := g2, cellsUpdated := u,
      calls := calls sk @ framePixels (simColor g2) (currentGen g2) @ [Show, Delay 100]\<rparr>)"
    by (simp add: loop_def seed step drawCurGen_ok)
  with f g1 show ?thesis by simp
qed

lemma sketch_inv_loop:
  assumes "sketch_inv sk"
  shows "\<exists>sk'. loop rnd sk = Inr sk' \<and> sketch_inv sk'"
proof -
  from assms have "game_wf (simulation sk)" "currentGenMap (simulation sk) \<noteq> NullMap"
    by (simp_all add: sketch_inv_def seeded_def)
  from loop_ok [OF this(1), of rnd] this(2) obtain sk' where sk': "loop rnd sk = Inr sk'"
    "game_wf (simulation sk')" "currentGenMap (simulation sk') \<noteq> NullMap"
    "currentGen (simulation sk') = nextGen (tickGen rnd sk)"
    "cellsUpdated sk' = of_nat (changedCells (tickGen rnd sk) (nextGen (tickGen rnd sk)))"
    "simColor (simulation sk') = simColor (simulation sk)"
    by blast
  have "unat (cellsUpdated sk') \<le> gameRows * gameColumns"
    using changedCells_le [of "tickGen rnd sk" "nextGen (tickGen rnd sk)"]
    by (simp add: sk'(5) word_bounds gameRows_def gameColumns_def)
  with sk' assms show ?thesis
    by (auto simp: sketch_inv_def seeded_def)
qed

lemma sketch_inv_setup:
  assumes "setup_sketch PROTOMATTER_OK rnd initialSketch = Some (Inr sk)"
  shows "sketch_inv sk"
proof -
  have "game_wf (simulation initialSketch)" by simp
  from setup_sketch_ok [OF this, of rnd] assms
  have sk: "sk = initialSketch\<lparr>simulation := (simulation initialSketch)
                \<lparr>genMap_1 := randomMap rnd, genMap_2 := emptyMap, currentGenMap := Map_1\<rparr>,
              calls := calls initialSketch @ bootCalls @
                framePixels (simColor (simulation initialSketch)) (randomMap rnd) @ [Show, Delay 2000]\<rparr>"
    by simp
  show ?thesis
    by (simp add: sk sketch_inv_def seeded_def game_wf_def flip: seedMap_random)
qed

lemma setup_booted:
  "setup_sketch PROTOMATTER_OK rnd initialSketch = Some (Inr (bootedSketch rnd))"
proof -
  have "game_wf (simulation initialSketch)" by simp
  from setup_sketch_ok [OF this, of rnd] show ?thesis
    by (simp add: bootedSketch_def initialSketch_def rgbSimColor_def color565_simColor
        newConwaysGame_def)
qed

lemma bootedSketch_simps [simp]:
  "genMap_1 (simulation (bootedSketch rnd)) = randomMap rnd"
  "genMap_2 (simulation (bootedSketch rnd)) = emptyMap"
  "currentGenMap (simulation (bootedSketch rnd)) = Map_1"
  "cellsUpdated (bootedSketch rnd) = 0"
  "simColor (simulation (bootedSketch rnd)) = 0x7A60"
  "calls (bootedSketch rnd) = bootCalls @ framePixels 0x7A60 (randomMap rnd) @ [Show, Delay 2000]"
  by (simp_all add: bootedSketch_def newConwaysGame_def)

lemma reachable_booted [simp]: "reachable (bootedSketch rnd)"
  by (rule reachable.boot) (rule setup_booted)

lemma sketch_inv_booted [simp]: "sketch_inv (bootedSketch rnd)"
  by (rule sketch_inv_setup) (rule setup_booted)

lemma reachable_inv: "reachable sk \<Longrightarrow> sketch_inv sk"
proof (induction rule: reachable.induct)
  case (boot rnd sk)
  then show ?case by (rule sketch_inv_setup)
next
  case (tick sk rnd sk')
  with sketch_inv_loop [of sk rnd] show ?case by simp
qed

lemma sketch_inv_wf:
  "sketch_inv sk \<Longrightarrow> game_wf (simulation sk)"
  "sketch_inv sk \<Longrightarrow> currentGenMap (simulation sk) \<noteq> NullMap"
  by (simp_all add: sketch_inv_def seeded_def)

lemma run_inv:
  assumes "sketch_inv sk"
  shows "\<exists>sk'. run n rnds sk = Inr sk' \<and> sketch_inv sk'"
proof (induction n)
  case 0
  with assms show ?case by simp
next
  case (Suc n)
  then obtain sk1 where "run n rnds sk = Inr sk1" "sketch_inv sk1" by blast
  with sketch_inv_loop [of sk1 "rnds n"] show ?case by simp
qed

lemma run_reachable:
  "reachable sk \<Longrightarrow> run n rnds sk = Inr sk' \<Longrightarrow> reachable sk'"
proof (induction n arbitrary: sk')
  case 0
  then show ?case by simp
next
  case (Suc n)
  then obtain sk1 where "run n rnds sk = Inr sk1" "loop (rnds n) sk1 = Inr sk'"
    by (auto simp: bindR_eq_Inr_iff)
  with Suc show ?case by (blast intro: reachable.tick)
qed

lemma run_cong:
  "(\<And>k. k < n \<Longrightarrow> rnds k = rnds' k) \<Longrightarrow> run n rnds sk = run n rnds' sk"
  by (induction n) simp_all

lemma reachable_run:
  assumes "reachable sk"
  shows "\<exists>rnd0 n rnds. run n rnds (bootedSketch rnd0) = Inr sk"
  using assms
proof (induction rule: reachable.induct)
  case (boot rnd sk)
  then have "run 0 (\<lambda>n k. 0) (bootedSketch rnd) = Inr sk" by (simp add: setup_booted)
  then show ?case by blast
next
  case (tick sk rnd sk')
  then obtain rnd0 n rnds where r: "run n rnds (bootedSketch rnd0) = Inr sk" by blast
  have "run n (rnds(n := rnd)) (bootedSketch rnd0) = run n rnds (bootedSketch rnd0)"
    by (rule run_cong) simp
  with r tick.hyps(2) have "run (Suc n) (rnds(n := rnd)) (bootedSketch rnd0) = Inr sk'" by simp
  then show ?case by blast
qed

lemma quiet_iff:
  "n \<le> 2048 \<Longrightarrow> (of_nat n :: uint32) \<le> updateThreshold \<longleftrightarrow> n \<le> 35"
  by (simp add: updateThreshold_def word_le_nat_alt word_bounds)

section \<open>Lemmas: refinement of the abstract driver\<close>

lemma tickGen_abs: "tickGen rnd sk = (if snd (absSketch sk) \<le> 35 then randomMap rnd else fst (absSketch sk))"
  by (simp add: tickGen_def absSketch_def updateThreshold_def word_le_nat_alt)

lemma loop_abs:
  assumes "sketch_inv sk"
  shows "\<exists>sk'. loop rnd sk = Inr sk' \<and> sketch_inv sk' \<and>
           absSketch sk' = lifeTick rnd (absSketch sk) \<and>
           calls sk' = calls sk @ tickCalls (fst (lifeTick rnd (absSketch sk)))"
proof -
  let ?g = "tickGen rnd sk"
  from sketch_inv_loop [OF assms, of rnd] obtain sk' where sk': "loop rnd sk = Inr sk'" "sketch_inv sk'"
    by blast
  with loop_ok [OF sketch_inv_wf [OF assms], of rnd]
  have f: "currentGen (simulation sk') = nextGen ?g"
    "cellsUpdated sk' = of_nat (changedCells ?g (nextGen ?g))"
    "calls sk' = calls sk @ framePixels (simColor (simulation sk)) (nextGen ?g) @ [Show, Delay 100]"
    by auto
  have "unat (cellsUpdated sk') = changedCells ?g (nextGen ?g)"
    using changedCells_le [of ?g "nextGen ?g"] by (simp add: f(2) word_bounds)
  with f(1) have "absSketch sk' = lifeTick rnd (absSketch sk)"
    by (simp add: absSketch_def [of sk'] lifeTick_def Let_def tickGen_abs)
  moreover have "simColor (simulation sk) = 0x7A60"
    using assms by (simp add: sketch_inv_def)
  ultimately show ?thesis
    using sk' f(3) by (simp add: tickCalls_def lifeTick_def Let_def tickGen_abs)
qed

lemma run_abs:
  assumes "sketch_inv sk"
  shows "\<exists>sk'. run n rnds sk = Inr sk' \<and> sketch_inv sk' \<and>
           absSketch sk' = lifeRun n rnds (absSketch sk) \<and>
           calls sk' = calls sk @
             concat (map (\<lambda>k. tickCalls (fst (lifeRun (Suc k) rnds (absSketch sk)))) [0..<n])"
proof (induction n)
  case 0
  with assms show ?case by simp
next
  case (Suc n)
  then obtain sk1 where sk1: "run n rnds sk = Inr sk1" "sketch_inv sk1"
    "absSketch sk1 = lifeRun n rnds (absSketch sk)"
    "calls sk1 = calls sk @
       concat (map (\<lambda>k. tickCalls (fst (lifeRun (Suc k) rnds (absSketch sk)))) [0..<n])"
    by blast
  from loop_abs [OF sk1(2), of "rnds n"] sk1 show ?case by auto
qed

lemma absSketch_booted [simp]: "absSketch (bootedSketch rnd) = (randomMap rnd, 0)"
  by (simp add: absSketch_def)

lemma frames_tickCalls:
  assumes "canvas_wf cv"
  shows "shownFrames render (tickCalls g) cv = [frame 0x7A60 g]"
    and "canvasAfter render (tickCalls g) cv = frame 0x7A60 g"
  using assms by (simp_all add: tickCalls_def canvasAfter_framePixels)

lemma frames_ticks:
  assumes "canvas_wf cv"
  shows "shownFrames render (concat (map (\<lambda>k. tickCalls (gs k)) [0..<n])) cv =
           map (\<lambda>k. frame 0x7A60 (gs k)) [0..<n] \<and>
         canvas_wf (canvasAfter render (concat (map (\<lambda>k. tickCalls (gs k)) [0..<n])) cv)"
proof (induction n)
  case 0
  with assms show ?case by simp
next
  case (Suc n)
  then show ?case by (simp add: frames_tickCalls)
qed

text \<open>
  The two descriptions of the driver agree: a state is
  reachable, by the rules \<open>boot\<close> and \<open>tick\<close>, exactly when it is the result
  of \<open>setup\<close> followed by some number of calls of \<open>loop\<close>, for some draws of
  the random source.
\<close>

lemma reachable_iff_run:
  "reachable sk \<longleftrightarrow>
   (\<exists>rnd0 sk0 n rnds. setup_sketch PROTOMATTER_OK rnd0 initialSketch = Some (Inr sk0) \<and>
      run n rnds sk0 = Inr sk)"
proof
  assume "reachable sk"
  with reachable_run setup_booted show
    "\<exists>rnd0 sk0 n rnds. setup_sketch PROTOMATTER_OK rnd0 initialSketch = Some (Inr sk0) \<and>
       run n rnds sk0 = Inr sk"
    by blast
next
  assume "\<exists>rnd0 sk0 n rnds. setup_sketch PROTOMATTER_OK rnd0 initialSketch = Some (Inr sk0) \<and>
    run n rnds sk0 = Inr sk"
  then show "reachable sk"
    by (auto intro: run_reachable reachable.boot)
qed

section \<open>Properties\<close>

text \<open>
  C9 (invariant). Every state the program passes through after \<open>setup\<close>
  holds a seeded game: both maps have the shape of the arrays, the current
  pointer is not null, and every cell of the current generation is 0 or 1.
  The colour is the one the global was constructed with, and the counter is
  at most the number of cells.
\<close>

theorem reachable_seeded:
  assumes "reachable sk"
  shows "seeded (simulation sk) \<and> simColor (simulation sk) = color565 125 76 0 \<and>
         cellsUpdated sk \<le> 2048"
proof -
  from assms have "sketch_inv sk" by (rule reachable_inv)
  then show ?thesis
    by (simp add: sketch_inv_def color565_simColor word_le_nat_alt gameRows_def gameColumns_def)
qed

theorem reachable_seeded_witness:
  "reachable (bootedSketch (\<lambda>k. 1)) \<and> seeded (simulation (bootedSketch (\<lambda>k. 1))) \<and>
   cellsUpdated (bootedSketch (\<lambda>k. 1)) \<le> 2048"
  using reachable_seeded [of "bootedSketch (\<lambda>k. 1)"] by simp

text \<open>
  C5 (safety). The program never faults once the display has started:
  \<open>setup\<close> returns, and after it any number of calls of \<open>loop\<close>, with any
  draws of the random source, return a state without a null-pointer or
  out-of-bounds access, and that state is reachable again.
\<close>

theorem run_never_faults:
  "\<exists>sk0 sk'. setup_sketch PROTOMATTER_OK rnd0 initialSketch = Some (Inr sk0) \<and>
      run n rnds sk0 = Inr sk' \<and> reachable sk'"
proof -
  obtain sk' where "run n rnds (bootedSketch rnd0) = Inr sk'"
    using run_inv [OF sketch_inv_booted] by blast
  with setup_booted run_reachable [OF reachable_booted] show ?thesis by blast
qed

text \<open>
  C14 (functional). Reseeding on a quiet step: when the last step changed at
  most 35 cells, \<open>loop\<close> discards the generation it has, draws 2048 cells
  afresh and advances that seed; the generation it leaves is the next
  generation of the random map, whatever the maps held before. A count of
  exactly 35 reseeds.
\<close>

theorem loop_reseeds:
  assumes "game_wf (simulation sk)" and "cellsUpdated sk \<le> 35"
  shows "map_sum id (\<lambda>sk'. (currentGen (simulation sk'), cellsUpdated sk')) (loop rnd sk) =
         Inr (nextGen (randomMap rnd),
              of_nat (changedCells (randomMap rnd) (nextGen (randomMap rnd))))"
proof -
  from assms(2) have q: "cellsUpdated sk \<le> updateThreshold" by (simp add: updateThreshold_def)
  then have "\<not> updateThreshold < cellsUpdated sk" by simp
  with loop_ok [OF assms(1), of rnd] q show ?thesis
    by (auto simp: tickGen_def)
qed

theorem loop_reseeds_witness:
  "game_wf (simulation (initialSketch\<lparr>cellsUpdated := 35\<rparr>)) \<and>
   cellsUpdated (initialSketch\<lparr>cellsUpdated := 35\<rparr>) \<le> 35 \<and>
   map_sum id (\<lambda>sk'. currentGen (simulation sk')) (loop (\<lambda>k. 0) (initialSketch\<lparr>cellsUpdated := 35\<rparr>)) =
   Inr emptyMap"
proof -
  have h: "game_wf (simulation (initialSketch\<lparr>cellsUpdated := 35\<rparr>))"
    "cellsUpdated (initialSketch\<lparr>cellsUpdated := 35\<rparr>) \<le> 35" by simp_all
  have "randomMap (\<lambda>k. 0) = emptyMap"
    by (rule grid_eqI) (simp_all add: randomMap_def)
  with loop_reseeds [OF h, of "\<lambda>k. 0"] h show ?thesis
    by (auto simp: map_sum_def split: sum.splits)
qed

text \<open>
  C15 (functional). Continuing on an active step: when the last step changed
  more than 35 cells, \<open>loop\<close> advances the generation it has and makes no
  draw: the result does not depend on the random source.
\<close>

theorem loop_continues:
  assumes "game_wf (simulation sk)" and "currentGenMap (simulation sk) \<noteq> NullMap"
    and "35 < cellsUpdated sk"
  shows "map_sum id (\<lambda>sk'. currentGen (simulation sk')) (loop rnd sk) =
           Inr (nextGen (currentGen (simulation sk))) \<and>
         loop rnd sk = loop rnd' sk"
proof -
  from assms(3) have q: "\<not> cellsUpdated sk \<le> updateThreshold" by (simp add: updateThreshold_def)
  have "loop rnd sk = loop rnd' sk" using q by (simp add: loop_def)
  with loop_ok [OF assms(1), of rnd] assms(2) q show ?thesis
    by (auto simp: tickGen_def)
qed

theorem loop_continues_witness:
  "(let sk = \<lparr>simulation = blinkerGame, cellsUpdated = 36, calls = []\<rparr> in
    game_wf (simulation sk) \<and> currentGenMap (simulation sk) \<noteq> NullMap \<and> 35 < cellsUpdated sk \<and>
    map_sum id (\<lambda>sk'. currentGen (simulation sk')) (loop (\<lambda>k. 1) sk) = Inr (nextGen blinkerMap))"
proof -
  let ?sk = "\<lparr>simulation = blinkerGame, cellsUpdated = 36, calls = []\<rparr>"
  have h: "game_wf (simulation ?sk)" "currentGenMap (simulation ?sk) \<noteq> NullMap" "35 < cellsUpdated ?sk"
    by (simp_all add: seeded_game_wf)
  from loop_continues [OF h, of "\<lambda>k. 1"] h show ?thesis
    unfolding Let_def by simp
qed

text \<open>
  C22 (functional). The seed that \<open>setup\<close> draws and shows is never advanced:
  the counter starts at 0, so the first call of \<open>loop\<close> reseeds, and the
  generation after it is the next generation of the second seed, independent
  of the draws made in \<open>setup\<close>.
\<close>

theorem first_loop_discards_seed:
  "\<exists>sk0 sk1. setup_sketch PROTOMATTER_OK rnd0 initialSketch = Some (Inr sk0) \<and>
      currentGen (simulation sk0) = randomMap rnd0 \<and>
      loop rnd sk0 = Inr sk1 \<and>
      currentGen (simulation sk1) = nextGen (randomMap rnd)"
proof -
  have wf: "game_wf (simulation (bootedSketch rnd0))"
    by (rule sketch_inv_wf) simp
  from loop_ok [OF wf, of rnd] obtain sk1 where "loop rnd (bootedSketch rnd0) = Inr sk1"
    "currentGen (simulation sk1) = nextGen (tickGen rnd (bootedSketch rnd0))"
    by auto
  with setup_booted [of rnd0] show ?thesis
    by (auto simp: tickGen_def updateThreshold_def)
qed

text \<open>
  C21 (functional). Each call of \<open>loop\<close> puts exactly one frame on display,
  and it is the picture of the generation that is current when the call
  returns: for every canvas and every text renderer that keeps the canvas's
  shape, the frames shown grow by that picture.
\<close>

theorem loop_shows_generation:
  assumes "sketch_inv sk" and "canvas_wf cv"
    and "\<And>t cv. canvas_wf cv \<Longrightarrow> canvas_wf (render t cv)"
  shows "\<exists>sk'. loop rnd sk = Inr sk' \<and>
           shownFrames render (calls sk') cv =
           shownFrames render (calls sk) cv @ [frame (simColor (simulation sk')) (currentGen (simulation sk'))]"
proof -
  from loop_ok [OF sketch_inv_wf [OF assms(1)], of rnd] obtain sk' where sk': "loop rnd sk = Inr sk'"
    "currentGen (simulation sk') = nextGen (tickGen rnd sk)"
    "simColor (simulation sk') = simColor (simulation sk)"
    "calls sk' = calls sk @ framePixels (simColor (simulation sk)) (nextGen (tickGen rnd sk))
                   @ [Show, Delay 100]"
    by auto
  have "canvas_wf (canvasAfter render (calls sk) cv)"
    using assms(2,3) by (simp add: canvas_wf_canvasAfter)
  with sk' show ?thesis
    by (simp add: canvasAfter_framePixels)
qed

theorem loop_shows_generation_witness:
  "sketch_inv (bootedSketch (\<lambda>k. 0)) \<and> canvas_wf (frame 0 emptyMap) \<and>
   (\<exists>sk'. loop (\<lambda>k. 0) (bootedSketch (\<lambda>k. 0)) = Inr sk' \<and>
      length (shownFrames (\<lambda>t cv. cv) (calls sk') (frame 0 emptyMap)) = 3)"
proof -
  have h: "sketch_inv (bootedSketch (\<lambda>k. 0))" "canvas_wf (frame 0 emptyMap)" by simp_all
  from loop_shows_generation [where render = "\<lambda>t cv. cv", OF h, of "\<lambda>k. 0"] h
  show ?thesis by (auto simp: bootCalls_def)
qed

text \<open>
  C24 (termination). \<open>setup\<close> returns exactly when the display starts: with
  status \<open>PROTOMATTER_OK\<close> it returns, without a fault, a state with a seeded
  game; with any other status it never returns, the program prints an error
  to the serial port forever and \<open>loop\<close> is never called.
\<close>

theorem setup_returns_iff:
  assumes "game_wf (simulation sk)"
  shows "(status \<noteq> PROTOMATTER_OK \<longrightarrow> setup_sketch status rnd sk = None) \<and>
         (status = PROTOMATTER_OK \<longrightarrow>
            (\<exists>sk'. setup_sketch status rnd sk = Some (Inr sk') \<and> seeded (simulation sk') \<and>
               cellsUpdated sk' = cellsUpdated sk))"
  using assms
  by (auto simp: setup_sketch_error setup_sketch_ok seeded_def game_wf_def simp flip: seedMap_random)

theorem setup_returns_iff_witness:
  "game_wf (simulation initialSketch) \<and>
   setup_sketch PROTOMATTER_ERR_PINS (\<lambda>k. 0) initialSketch = None \<and>
   setup_sketch PROTOMATTER_ERR_OTHER (\<lambda>k. 0) initialSketch = None \<and>
   (\<exists>sk'. setup_sketch PROTOMATTER_OK (\<lambda>k. 0) initialSketch = Some (Inr sk'))"
proof -
  have h: "game_wf (simulation initialSketch)" by simp
  from setup_returns_iff [OF h, of PROTOMATTER_ERR_PINS "\<lambda>k. 0"]
    setup_returns_iff [OF h, of PROTOMATTER_ERR_OTHER "\<lambda>k. 0"]
    setup_returns_iff [OF h, of PROTOMATTER_OK "\<lambda>k. 0"] h
  show ?thesis by auto
qed

text \<open>
  C23 (liveness). A quiet generation does not stay: if a call of \<open>loop\<close>
  changes at most 35 cells, the next call replaces the generation by the next
  generation of a fresh seed.
\<close>

theorem quiet_step_reseeds:
  assumes "sketch_inv sk"
    and "changedCells (tickGen rnd1 sk) (nextGen (tickGen rnd1 sk)) \<le> 35"
  shows "map_sum id (\<lambda>sk'. currentGen (simulation sk')) (bindR (loop rnd1 sk) (loop rnd2)) =
         Inr (nextGen (randomMap rnd2))"
proof -
  from loop_ok [OF sketch_inv_wf [OF assms(1)], of rnd1] obtain sk1 where sk1: "loop rnd1 sk = Inr sk1"
    "game_wf (simulation sk1)"
    "cellsUpdated sk1 = of_nat (changedCells (tickGen rnd1 sk) (nextGen (tickGen rnd1 sk)))"
    by auto
  from assms(2) have q: "cellsUpdated sk1 \<le> updateThreshold"
    by (simp add: sk1(3) quiet_iff changedCells_le)
  then have "\<not> updateThreshold < cellsUpdated sk1" by simp
  with loop_ok [OF sk1(2), of rnd2] q sk1(1) show ?thesis
    by (auto simp: tickGen_def)
qed

theorem quiet_step_reseeds_witness:
  "sketch_inv (bootedSketch (\<lambda>k. 0)) \<and>
   map_sum id (\<lambda>sk'. currentGen (simulation sk'))
     (bindR (loop (\<lambda>k. 0) (bootedSketch (\<lambda>k. 0))) (loop (\<lambda>k. 1))) =
   Inr (nextGen (randomMap (\<lambda>k. 1)))"
proof -
  have e: "randomMap (\<lambda>k. 0) = emptyMap"
    by (rule grid_eqI) (simp_all add: randomMap_def)
  have h: "sketch_inv (bootedSketch (\<lambda>k. 0))"
    "changedCells (tickGen (\<lambda>k. 0) (bootedSketch (\<lambda>k. 0)))
       (nextGen (tickGen (\<lambda>k. 0) (bootedSketch (\<lambda>k. 0)))) \<le> 35"
    by (simp_all add: tickGen_def updateThreshold_def e changedCells_same)
  from quiet_step_reseeds [OF h, of "\<lambda>k. 1"] h(1) show ?thesis by simp
qed

text \<open>
  C4 (refinement). The driver refines the abstract one: after \<open>setup\<close> and
  \<open>n\<close> calls of \<open>loop\<close>, the current generation and the counter are those
  that \<open>n\<close> abstract ticks compute from the seed of \<open>setup\<close> and a count of 0,
  every tick advancing a fresh random map when the count is at most 35 and
  the generation it has otherwise.
\<close>

theorem run_refines_lifeRun:
  "\<exists>sk0 sk'. setup_sketch PROTOMATTER_OK rnd0 initialSketch = Some (Inr sk0) \<and>
      run n rnds sk0 = Inr sk' \<and>
      currentGen (simulation sk') = fst (lifeRun n rnds (randomMap rnd0, 0)) \<and>
      unat (cellsUpdated sk') = snd (lifeRun n rnds (randomMap rnd0, 0))"
proof -
  from run_abs [OF sketch_inv_booted, of n rnds rnd0] obtain sk'
    where r: "run n rnds (bootedSketch rnd0) = Inr sk'"
      and a: "absSketch sk' = lifeRun n rnds (randomMap rnd0, 0)"
    by auto
  from a have "fst (absSketch sk') = fst (lifeRun n rnds (randomMap rnd0, 0))"
    "snd (absSketch sk') = snd (lifeRun n rnds (randomMap rnd0, 0))"
    by simp_all
  then have "currentGen (simulation sk') = fst (lifeRun n rnds (randomMap rnd0, 0))"
    "unat (cellsUpdated sk') = snd (lifeRun n rnds (randomMap rnd0, 0))"
    by (simp_all add: absSketch_def)
  with setup_booted [of rnd0] r show ?thesis by blast
qed

text \<open>
  C12 (functional). What the panel shows: on a canvas of the panel's size and
  with any text renderer that keeps this size, the frames put on display by
  \<open>setup\<close> and \<open>n\<close> calls of \<open>loop\<close> are the banner, the picture of the seed,
  and then the pictures of the generations of the abstract driver, one per
  call and in order.
\<close>

theorem panel_shows_life:
  assumes "canvas_wf cv" and "\<And>t cv. canvas_wf cv \<Longrightarrow> canvas_wf (render t cv)"
  shows "\<exists>sk0 sk'. setup_sketch PROTOMATTER_OK rnd0 initialSketch = Some (Inr sk0) \<and>
           run n rnds sk0 = Inr sk' \<and>
           shownFrames render (calls sk') cv =
             render bannerText cv # frame 0x7A60 (randomMap rnd0) #
             map (\<lambda>k. frame 0x7A60 (fst (lifeRun (Suc k) rnds (randomMap rnd0, 0)))) [0..<n]"
proof -
  from run_abs [OF sketch_inv_booted, of n rnds rnd0] obtain sk'
    where sk': "run n rnds (bootedSketch rnd0) = Inr sk'"
      "calls sk' = calls (bootedSketch rnd0) @
         concat (map (\<lambda>k. tickCalls (fst (lifeRun (Suc k) rnds (randomMap rnd0, 0)))) [0..<n])"
    by auto
  have b: "canvas_wf (render bannerText cv)" using assms by simp
  have "shownFrames render (calls sk') cv =
        render bannerText cv # frame 0x7A60 (randomMap rnd0) #
        map (\<lambda>k. frame 0x7A60 (fst (lifeRun (Suc k) rnds (randomMap rnd0, 0)))) [0..<n]"
    using b by (simp add: sk'(2) bootCalls_def canvasAfter_framePixels frames_ticks)
  with setup_booted [of rnd0] sk'(1) show ?thesis by blast
qed

theorem panel_shows_life_witness:
  "canvas_wf (frame 0 emptyMap) \<and>
   (\<exists>sk0 sk'. setup_sketch PROTOMATTER_OK (\<lambda>k. 0) initialSketch = Some (Inr sk0) \<and>
      run 2 (\<lambda>n k. 0) sk0 = Inr sk' \<and>
      length (shownFrames (\<lambda>t cv. cv) (calls sk') (frame 0 emptyMap)) = 4)"
proof -
  have h: "canvas_wf (frame 0 emptyMap)" by simp
  from panel_shows_life [where render = "\<lambda>t cv. cv" and n = 2 and rnds = "\<lambda>n k. 0" and ?rnd0.0 = "\<lambda>k. 0", OF h] h
  show ?thesis by auto
qed

end
