(* ===== verification/Spec2Isabelle.thy ===== *)
theory Spec2Isabelle
  imports Patterns Main_Loop
begin

text \<open>
  \<^bold>\<open>Conway's Game of Life on a 32 by 64 LED matrix: a verification development.\<close>

  \<^bold>\<open>The program.\<close> \<^verbatim>\<open>src/src/simulation.h\<close> holds the class \<^verbatim>\<open>ConwaysGame\<close>: two
  byte arrays \<^verbatim>\<open>genMap_1\<close> and \<^verbatim>\<open>genMap_2\<close> of 32 rows and 64 columns, a pointer
  \<^verbatim>\<open>currentGenMap\<close> to the array that holds the generation on display, a
  pointer \<^verbatim>\<open>nextGenMap\<close> to the array the next generation is written to, and
  a colour. \<^verbatim>\<open>initSeed\<close> fills the arrays, \<^verbatim>\<open>calcNextGen\<close> computes one
  generation into the array that is not current, counts the cells that
  changed and swaps the pointer, \<^verbatim>\<open>checkNeighbors\<close> decides one cell,
  \<^verbatim>\<open>drawCurGen\<close> sends the current array to the display. \<^verbatim>\<open>src/src/main.cpp\<close>
  is the Arduino driver: \<^verbatim>\<open>setup\<close> starts the display and seeds the game,
  \<^verbatim>\<open>loop\<close> reseeds when the last step changed at most 35 cells, then steps
  and draws.

  \<^bold>\<open>The theories\<close>, in the order of their imports.
  \<^item> \<open>Life_Prelude\<close>: the machine integers (\<open>byte\<close>, \<open>uint16\<close>, \<open>uint32\<close> as
    words), faults as values (\<open>fault\<close>, \<open>'a result\<close>, \<open>bindR\<close>), the counted
    loop \<open>forLoop\<close> with its rule \<open>forLoop_exact\<close>, rectangular nested lists
    (\<open>rect\<close>, \<open>nth2\<close>, \<open>upd2\<close>, \<open>tabulate2\<close>) and counting (\<open>count_upto\<close>,
    \<open>count2\<close>).
  \<^item> \<open>Game_State\<close>: the class's data. \<open>gameRows\<close>, \<open>gameColumns\<close> are the two
    \<^verbatim>\<open>#define\<close>s; the record \<open>ConwaysGame\<close> has the fields of the class (the
    display pointer apart); \<open>mapPtr\<close> is the type of the two pointers;
    \<open>newConwaysGame\<close> and \<open>setColor\<close> are the constructor and the setter;
    \<open>readCell\<close> and \<open>writeCell\<close> are \<^verbatim>\<open>(*p)[y][x]\<close> as an rvalue and as an
    lvalue. The invariants are \<open>grid_wf\<close> (the shape the C type guarantees),
    \<open>boolean_cells\<close> (every cell is 0 or 1) and \<open>seeded\<close> (both, with a
    non-null current pointer).
  \<^item> \<open>Check_Neighbors\<close>: \<^verbatim>\<open>checkNeighbors\<close>. \<open>neighborStep\<close> is the body of its
    loop, \<open>countNeighbors\<close> the loop, \<open>applyRules\<close> the rules at its end,
    \<open>checkNeighbors\<close> the whole function. The reference definitions are
    \<open>neighborhood\<close>, \<open>liveNeighborCount\<close>, \<open>lifeRule\<close> and \<open>nextCell\<close>.
  \<^item> \<open>Life_Spec\<close>: the specification of a generation step. On maps,
    \<open>nextGen\<close> (the next generation of a map) and \<open>changedCells\<close> (the
    number of positions at which two maps differ); on sets of cells,
    \<open>lifeStep\<close> over \<open>adjacent\<close> cells of the \<open>arena\<close>, and the abstraction
    \<open>liveCells\<close> from maps to sets, under which \<open>nextGen\<close> is \<open>lifeStep\<close>.
  \<^item> \<open>Calc_Next_Gen\<close>: \<^verbatim>\<open>calcNextGen\<close>. \<open>cellUpdate\<close> is the body of the inner
    loop, \<open>calcRow\<close> the inner loop, \<open>calcNextGen\<close> the function;
    \<open>generations n\<close> is \<open>n\<close> calls of it in sequence. The properties state
    the refinement of \<open>nextGen\<close>, \<open>changedCells\<close> and \<open>lifeStep\<close>.
  \<^item> \<open>Patterns\<close>: maps given by a list of live cells (\<open>patternMap\<close>) and the
    behaviour of the lone cell, the block, the blinker and the glider at
    every position where they fit in the arena.
  \<^item> \<open>Init_Seed\<close>: \<^verbatim>\<open>initSeed\<close>. \<open>seedCell\<close> is the body of the fill loops,
    \<open>fillRandom\<close> the nested loops, \<open>centerY\<close>, \<open>centerX\<close> and \<open>patternCells\<close>
    the twelve assignments of the fixed pattern, \<open>loadPattern\<close> their
    execution, \<open>initSeed\<close> the function. The specification is \<open>seedMap\<close>.
  \<^item> \<open>Draw_Cur_Gen\<close>: \<^verbatim>\<open>drawCurGen\<close> and the first constructor. \<open>call\<close> is the
    type of the calls the sources make on the display, the serial port and
    the clock; \<open>drawCell\<close> is the body of the inner loop and \<open>drawCurGen\<close> the
    function, which appends its \<open>DrawPixel\<close> calls to the output. \<open>color565\<close>
    is the colour packing of the display library. The reference semantics
    is a canvas (\<open>drawPixel\<close>, \<open>paint\<close>, \<open>canvasAfter\<close>, \<open>shownFrames\<close>).
  \<^item> \<open>Main_Loop\<close>: \<^verbatim>\<open>main.cpp\<close>. The record \<open>sketch\<close> holds the globals that
    change; \<open>initialSketch\<close> is their initial value; \<open>setup_sketch\<close> is
    \<^verbatim>\<open>setup\<close>, \<open>printForever\<close> the endless loops in which it ends when the
    display does not start, \<open>loop\<close> is \<^verbatim>\<open>loop\<close>; \<open>run\<close> iterates \<open>loop\<close> and
    \<open>reachable\<close> is the induced set of states. The specification of the
    driver is \<open>lifeTick\<close> on a pair of a generation and the last count
    (\<open>tickGen\<close> is a fresh random map when the count is at most the
    threshold and the current generation otherwise, then the game steps),
    \<open>lifeRun\<close> its iteration, \<open>absSketch\<close> the abstraction and \<open>tickCalls\<close> the
    calls of one tick.
  \<^item> \<open>Spec2Isabelle\<close> (this theory): properties that span components.

  \<^bold>\<open>Modelling decisions.\<close>
  \<^item> Integers keep their width where the code stores them: cells and the
    neighbour counter are \<open>8 word\<close>, the update counter is \<open>32 word\<close>, the
    colour \<open>16 word\<close>. The \<^verbatim>\<open>int\<close> locals of \<^verbatim>\<open>checkNeighbors\<close> are \<open>int\<close>; they
    stay between -1 and 256, far from the limits of a 32-bit \<^verbatim>\<open>int\<close>. Loop
    counters only take the values from 0 to the bound and are \<open>nat\<close>.
  \<^item> The code has no error handling. What the model adds is the two ways in
    which its memory accesses can be undefined: through a null map pointer
    and outside \<^verbatim>\<open>[gameRows][gameColumns]\<close>. Every function that touches a map
    returns a \<open>result\<close>; the theorems show \<open>Inr\<close> where the code is safe and
    exhibit the \<open>Inl\<close> where it is not.
  \<^item> The one object of the class is a global, so its storage is zero before
    the constructor runs: \<open>newConwaysGame\<close> has all cells 0 and both pointers
    null.
  \<^item> The random source is the environment. \<open>initSeed\<close> and \<open>loop\<close> take a
    function \<open>rnd\<close> whose value at \<open>k\<close> is what the \<open>k\<close>-th call of
    \<^verbatim>\<open>random(2)\<close> returns during that call; every theorem holds for all such
    functions, so nothing is assumed of the generator or of
    \<^verbatim>\<open>randomSeed(analogRead(26))\<close>. The loop state of the fill carries the
    number of draws made.
  \<^item> Output is a list of calls, in the order the program makes them. The
    status of \<^verbatim>\<open>matrix.begin()\<close> is an argument of \<open>setup_sketch\<close>. What the
    calls do to the display is a reference semantics beside the model, with
    the text renderer left as a parameter.
  \<^item> All loops of \<^verbatim>\<open>simulation.h\<close> have constant bounds (9, 32, 64); \<open>forLoop\<close>
    is a total function with a termination proof and no fuel is needed. The
    two \<^verbatim>\<open>while(true)\<close> loops of \<^verbatim>\<open>setup\<close> are a \<open>partial_function\<close> in the
    option monad, whose value is proved to be \<open>None\<close>. The endless repetition
    of \<^verbatim>\<open>loop\<close> is \<open>run n\<close> for every \<open>n\<close>.

  \<^bold>\<open>What the lemmas show.\<close> For the store: read-after-write and frame laws.
  For \<^verbatim>\<open>checkNeighbors\<close>: the loop computes \<open>liveNeighborCount\<close>, which is the
  number of live cells in the Moore neighbourhood inside the window; it reads
  only inside the window; its counter does not wrap; the rules are those of
  the game. For \<^verbatim>\<open>calcNextGen\<close>: it refines \<open>nextGen\<close> under the abstraction
  \<open>currentGen\<close> and \<open>lifeStep\<close> under \<open>liveCells\<close>; the returned count is
  \<open>changedCells\<close>, does not wrap, and for seeded games is the size of the
  symmetric difference of the live sets; it leaves the old generation intact
  and preserves \<open>seeded\<close>; it faults on the unseeded object; \<open>n\<close> calls
  in sequence are \<open>n\<close> steps of the game, and four of them move a glider by
  one cell along the diagonal. For \<^verbatim>\<open>initSeed\<close>:
  it establishes \<open>seeded\<close> from any state of the right shape, reads the
  random source once per cell in row-major order, and in its fixed-pattern
  branch overlays the twelve cells on a random fill. For \<^verbatim>\<open>drawCurGen\<close>: one
  call per cell in row-major order with x the column and y the row, and a
  complete repaint of the canvas. For the driver: every reachable state is
  seeded, no call of \<^verbatim>\<open>loop\<close> faults, a step that changes at most 35 cells is
  followed by a reseed, the seed of \<^verbatim>\<open>setup\<close> is never advanced, each call
  shows one frame, \<^verbatim>\<open>setup\<close> returns exactly when the display starts, \<open>run\<close>
  refines \<open>lifeRun\<close> under \<open>absSketch\<close>, and the frames shown are the
  generations of \<open>lifeRun\<close> painted in the colour of the simulation.

  \<^bold>\<open>Not modelled.\<close> The display library (Adafruit Protomatter) beyond the
  colour packing and the clipping of \<^verbatim>\<open>drawPixel\<close>, the contents of printed
  text, the configuration of the serial port and of the GPIO pins, and the
  real time that \<^verbatim>\<open>delay\<close> takes. The globals of \<^verbatim>\<open>main.cpp\<close> that are never
  read (\<^verbatim>\<open>refreshRate\<close>, \<^verbatim>\<open>oldTime\<close>, the button pins) have no counterpart.
\<close>

section \<open>Properties across components\<close>

text \<open>
  C39 (functional). The colour is not part of the simulation: changing it
  with \<open>setColor\<close> before a step gives the same count and the same state as
  changing it after the step.
\<close>

theorem setColor_calcNextGen:
  assumes "game_wf s" and "currentGenMap s \<noteq> NullMap"
  shows "calcNextGen (setColor c s) =
         map_sum id (\<lambda>(updates, s'). (updates, setColor c s')) (calcNextGen s)"
proof -
  have "game_wf (setColor c s)" "currentGenMap (setColor c s) \<noteq> NullMap"
    using assms by (simp_all add: setColor_def)
  from calcNextGen_ok [OF this] calcNextGen_ok [OF assms] show ?thesis
    by (cases "currentGenMap s") (simp_all add: setColor_def otherMap_def)
qed

theorem setColor_calcNextGen_witness:
  "game_wf blinkerGame \<and> currentGenMap blinkerGame \<noteq> NullMap \<and>
   calcNextGen (setColor 7 blinkerGame) =
   map_sum id (\<lambda>(updates, s'). (updates, setColor 7 s')) (calcNextGen blinkerGame)"
proof -
  have h: "game_wf blinkerGame" "currentGenMap blinkerGame \<noteq> NullMap"
    by (simp_all add: seeded_game_wf)
  from setColor_calcNextGen [OF h] h show ?thesis by simp
qed

text \<open>
  C25 (safety). Seeding makes the step safe: \<open>initSeed\<close> followed by
  \<open>calcNextGen\<close>, from any state with well-shaped maps and so from the
  freshly constructed object, returns without a fault, and the generation
  current afterwards is the next generation of the seed.
\<close>

theorem initSeed_then_calcNextGen:
  assumes "game_wf s"
  shows "map_sum id (\<lambda>(updates, s'). (currentGen s', currentGenMap s'))
           (bindR (initSeed rand rnd s) calcNextGen) =
         Inr (nextGen (seedMap rand rnd), Map_2)"
proof -
  let ?s = "s\<lparr>genMap_1 := seedMap rand rnd, genMap_2 := emptyMap, currentGenMap := Map_1\<rparr>"
  have "game_wf ?s" "currentGenMap ?s \<noteq> NullMap"
    by (simp_all add: game_wf_def)
  from calcNextGen_ok [OF this] show ?thesis
    by (simp add: initSeed_ok [OF assms] otherMap_def)
qed

theorem initSeed_then_calcNextGen_witness:
  "game_wf (newConwaysGame 0) \<and> calcNextGen (newConwaysGame 0) = Inl NullPointer \<and>
   map_sum id (\<lambda>(updates, s'). currentGenMap s')
     (bindR (initSeed True (\<lambda>k. 0) (newConwaysGame 0)) calcNextGen) = Inr Map_2"
proof -
  have h: "game_wf (newConwaysGame 0)" by simp
  have n: "calcNextGen (newConwaysGame 0) = Inl NullPointer"
    by (rule calcNextGen_null) (simp add: newConwaysGame_def)
  from initSeed_then_calcNextGen [OF h, of True "\<lambda>k. 0"] h n show ?thesis
    by (auto simp: map_sum_def split: sum.splits)
qed

text \<open>
  C34 (liveness). An oscillator does not survive on the panel. The blinker
  has period 2 under \<open>calcNextGen\<close>, but each of its steps changes only 4
  cells: a call of \<open>loop\<close> that advances a blinker turns it and reports 4,
  and the next call replaces it by the next generation of a fresh seed.
\<close>

theorem blinker_is_reseeded:
  assumes "sketch_inv sk" and "35 < cellsUpdated sk"
    and "Suc (Suc r) < gameRows" and "Suc (Suc c) < gameColumns"
    and "currentGen (simulation sk) = patternMap (blinkerH r c)"
  shows "map_sum id (\<lambda>sk'. (cellsUpdated sk', currentGen (simulation sk'))) (loop rnd1 sk) =
           Inr (4, patternMap (blinkerV r c)) \<and>
         map_sum id (\<lambda>sk'. currentGen (simulation sk')) (bindR (loop rnd1 sk) (loop rnd2)) =
           Inr (nextGen (randomMap rnd2))"
proof -
  from assms(2) have "\<not> cellsUpdated sk \<le> 35" by simp
  then have g: "tickGen rnd1 sk = patternMap (blinkerH r c)"
    by (simp add: tickGen_def updateThreshold_def assms(5))
  from loop_ok [OF sketch_inv_wf [OF assms(1)], of rnd1] obtain sk1 where sk1: "loop rnd1 sk = Inr sk1"
    "game_wf (simulation sk1)" "currentGen (simulation sk1) = patternMap (blinkerV r c)"
    "cellsUpdated sk1 = 4"
    by (auto simp: g nextGen_blinkerH changedCells_blinker assms(3,4))
  then have "cellsUpdated sk1 \<le> updateThreshold" "\<not> updateThreshold < cellsUpdated sk1"
    by (simp_all add: updateThreshold_def)
  with loop_ok [OF sk1(2), of rnd2] sk1 show ?thesis
    by (auto simp: tickGen_def)
qed

theorem blinker_is_reseeded_witness:
  "(let sk = \<lparr>simulation = blinkerGame\<lparr>simColor := 0x7A60\<rparr>, cellsUpdated = 100, calls = []\<rparr> in
    sketch_inv sk \<and> 35 < cellsUpdated sk \<and> Suc (Suc 9) < gameRows \<and> Suc (Suc 9) < gameColumns \<and>
    currentGen (simulation sk) = patternMap (blinkerH 9 9) \<and>
    map_sum id (\<lambda>sk'. cellsUpdated sk') (loop (\<lambda>k. 0) sk) = Inr 4)"
proof -
  let ?sk = "\<lparr>simulation = blinkerGame\<lparr>simColor := 0x7A60\<rparr>, cellsUpdated = 100, calls = []\<rparr>"
  have "seeded (blinkerGame\<lparr>simColor := 0x7A60\<rparr>)"
    using seeded_blinkerGame by (simp add: seeded_def game_wf_def)
  then have h: "sketch_inv ?sk" "35 < cellsUpdated ?sk" "Suc (Suc 9) < gameRows"
    "Suc (Suc 9) < gameColumns" "currentGen (simulation ?sk) = patternMap (blinkerH 9 9)"
    by (simp_all add: sketch_inv_def gameRows_def gameColumns_def blinkerMap_pattern)
  from blinker_is_reseeded [OF h, of "\<lambda>k. 0" "\<lambda>k. 0"] h show ?thesis
    unfolding Let_def by (auto simp: map_sum_def split: sum.splits)
qed

end
